(* ===== verification/Prelude.thy ===== *)
theory Prelude
  imports Complex_Main "HOL-Library.Product_Lexorder"
begin

text \<open>
  The vocabulary every component shares.  A Convex function either throws a
  \<open>ConvexError\<close>, in which case its transaction leaves no trace, or returns a value and commits;
  the model is a sum type with the error on the left, sequenced by \<open>bindE\<close>.  The rest is
  the part of the JavaScript standard library the sources use: \<open>String.trim\<close> and
  \<open>toLowerCase\<close> (on code units below 256), \<open>Math.round\<close> of a quotient, a \<open>Set\<close>
  built from an array, and the generic list facts the table operations rest on.
\<close>

section \<open>Collections of facts\<close>

named_theorems frame \<open>which tables an operation leaves alone\<close>
named_theorems handler_defs \<open>definitions of the handlers\<close>

section \<open>Fallible computations\<close>

definition bindE :: "'e + 'a \<Rightarrow> ('a \<Rightarrow> 'e + 'b) \<Rightarrow> 'e + 'b" where
  "bindE m k = (case m of Inl e \<Rightarrow> Inl e | Inr x \<Rightarrow> k x)"

definition guardE :: "bool \<Rightarrow> 'e \<Rightarrow> 'e + 'a \<Rightarrow> 'e + 'a" where
  "guardE ok e k = (if ok then k else Inl e)"

lemma bindE_Inl [simp]: "bindE (Inl e) k = Inl e"
  by (simp add: bindE_def)

lemma bindE_Inr [simp]: "bindE (Inr x) k = k x"
  by (simp add: bindE_def)

lemma bindE_eq_Inr [simp]: "bindE m k = Inr y \<longleftrightarrow> (\<exists>x. m = Inr x \<and> k x = Inr y)"
  by (cases m) simp_all

lemma bindE_eq_Inl: "bindE m k = Inl e \<longleftrightarrow> m = Inl e \<or> (\<exists>x. m = Inr x \<and> k x = Inl e)"
  by (cases m) simp_all

lemma guardE_eq_Inr [simp]: "guardE ok e k = Inr y \<longleftrightarrow> ok \<and> k = Inr y"
  by (simp add: guardE_def)

lemma guardE_True [simp]: "guardE True e k = k"
  by (simp add: guardE_def)

lemma guardE_False [simp]: "guardE False e k = Inl e"
  by (simp add: guardE_def)

section \<open>Strings\<close>

definition js_space :: "char \<Rightarrow> bool" where
  "js_space c = (let n = (of_char c :: nat) in (9 \<le> n \<and> n \<le> 13) \<or> n = 32 \<or> n = 160)"

definition trim :: "string \<Rightarrow> string" where
  "trim s = rev (dropWhile js_space (rev (dropWhile js_space s)))"

definition lower_char :: "char \<Rightarrow> char" where
  "lower_char c = (let n = (of_char c :: nat)
     in if (65 \<le> n \<and> n \<le> 90) \<or> (192 \<le> n \<and> n \<le> 222 \<and> n \<noteq> 215) then char_of (n + 32) else c)"

definition toLowerCase :: "string \<Rightarrow> string" where
  "toLowerCase s = map lower_char s"

lemma length_trim: "length (trim s) \<le> length s"
  unfolding trim_def
  by (metis length_dropWhile_le length_rev order_trans)

lemma trim_Nil [simp]: "trim [] = []"
  by (simp add: trim_def)

lemma trim_idem [simp]: "trim (trim s) = trim s"
proof -
  let ?d = "dropWhile js_space"
  let ?t = "?d s"
  have front: "?d (rev (?d (rev ?t))) = rev (?d (rev ?t))"
  proof (cases "?d (rev ?t) = []")
    case False
    then obtain x xs where t: "?t = x # xs" by (cases ?t) auto
    with False have nx: "\<not> js_space x"
      by (metis hd_dropWhile list.discI list.sel(1))
    obtain ys where ys: "rev ?t = ys @ ?d (rev ?t)"
      by (metis takeWhile_dropWhile_id)
    then have "last (?d (rev ?t)) = last (rev ?t)"
      using False by (metis last_append)
    then have "hd (rev (?d (rev ?t))) = x"
      using False t by (simp add: hd_rev)
    then show ?thesis
      using False nx by (cases "rev (?d (rev ?t))") auto
  next
    case True
    then show ?thesis by (simp only: True rev.simps dropWhile.simps)
  qed
  show ?thesis
    unfolding trim_def front by (simp add: dropWhile_idem)
qed

lemma lower_char_idem [simp]: "lower_char (lower_char c) = lower_char c"
proof -
  have "of_char c < (256 :: nat)" by simp
  then show ?thesis
    by (auto simp: lower_char_def Let_def)
qed

lemma toLowerCase_idem [simp]: "toLowerCase (toLowerCase s) = toLowerCase s"
  by (simp add: toLowerCase_def comp_def)

text \<open>A string that may be absent is falsy when it is absent or empty.\<close>

definition truthy :: "string option \<Rightarrow> bool" where
  "truthy v \<longleftrightarrow> v \<noteq> None \<and> v \<noteq> Some []"

section \<open>Numbers and sets\<close>

text \<open>\<open>Math.round(a / b)\<close> for integers \<open>a\<close> and \<open>b > 0\<close>: halves round up.\<close>

definition round_div :: "int \<Rightarrow> int \<Rightarrow> int" where
  "round_div a b = (2 * a + b) div (2 * b)"

lemma round_div_nonneg: "0 \<le> a \<Longrightarrow> 0 < b \<Longrightarrow> 0 \<le> round_div a b"
  by (simp add: round_div_def pos_imp_zdiv_nonneg_iff)

lemma div_pos_lt_mult:
  fixes p q r :: int
  assumes "0 < q" "p < r * q"
  shows "p div q < r"
proof (rule ccontr)
  assume "\<not> p div q < r"
  then have "r * q \<le> (p div q) * q" using assms by simp
  also have "\<dots> \<le> p" using assms by (simp add: minus_mod_eq_div_mult [symmetric])
  finally show False using assms by simp
qed

lemma round_div_le: "0 < b \<Longrightarrow> a \<le> c * b \<Longrightarrow> round_div a b \<le> c"
proof -
  assume b: "0 < b" and a: "a \<le> c * b"
  have "2 * a + b < (c + 1) * (2 * b)"
    using a b by (simp add: algebra_simps)
  then have "(2 * a + b) div (2 * b) < c + 1"
    using b by (intro div_pos_lt_mult) simp_all
  then show ?thesis by (simp add: round_div_def)
qed

text \<open>\<open>[...new Set(xs)]\<close>: the first occurrence of each value, in order.\<close>

definition js_set :: "'a list \<Rightarrow> 'a list" where
  "js_set xs = rev (remdups (rev xs))"

lemma set_js_set [simp]: "set (js_set xs) = set xs"
  by (simp add: js_set_def)

lemma distinct_js_set [simp]: "distinct (js_set xs)"
  by (simp add: js_set_def)

section \<open>Lists\<close>

lemma find_None_iff': "List.find P xs = None \<longleftrightarrow> (\<forall>x\<in>set xs. \<not> P x)"
  by (auto simp: find_None_iff)

lemma find_SomeD: "List.find P xs = Some x \<Longrightarrow> x \<in> set xs \<and> P x"
  by (induction xs) (auto split: if_splits)

lemma find_append: "List.find P (xs @ ys) = (case List.find P xs of Some x \<Rightarrow> Some x | None \<Rightarrow> List.find P ys)"
  by (induction xs) auto

lemma sum_list_filter_add:
  "sum_list (map f (filter P xs)) + sum_list (map f (filter (\<lambda>x. \<not> P x) xs)) = sum_list (map f xs)"
  for f :: "'a \<Rightarrow> int"
  by (induction xs) auto

end
