(* ===== verification/Store.thy ===== *)
theory Store
  imports Prelude
begin

text \<open>
  Document tables.  A Convex table is a collection of documents that carry the system fields
  \<open>_id\<close> and \<open>_creationTime\<close>; \<open>ctx.db.get\<close>, \<open>insert\<close>,
  \<open>patch\<close> and \<open>delete\<close> address a document by its id.  A table is modelled by the list
  of its documents in creation order, so that a query over an index is a filter, a stable sort by
  the index fields that the query leaves open (documents with equal keys stay in creation order,
  as Convex orders them), and a prefix of the result.

  The locale \<open>document_table\<close> states what the functions under \<open>convex/\<close> rely on;
  the list representation interprets it.
\<close>

section \<open>Documents and tables\<close>

type_synonym id = nat

record doc =
  did :: id
  ctime :: int

type_synonym 'a table = "'a doc_scheme list"

definition db_get :: "'a table \<Rightarrow> id \<Rightarrow> 'a doc_scheme option" where
  "db_get t i = List.find (\<lambda>d. did d = i) t"

definition db_insert :: "'a table \<Rightarrow> 'a doc_scheme \<Rightarrow> 'a table" where
  "db_insert t d = t @ [d]"

definition db_patch :: "'a table \<Rightarrow> id \<Rightarrow> ('a doc_scheme \<Rightarrow> 'a doc_scheme) \<Rightarrow> 'a table" where
  "db_patch t i f = map (\<lambda>d. if did d = i then f d else d) t"

definition db_delete :: "'a table \<Rightarrow> id \<Rightarrow> 'a table" where
  "db_delete t i = filter (\<lambda>d. did d \<noteq> i) t"

text \<open>\<open>withIndex(...).first()\<close> when the query fixes every index field, and the general query.\<close>

definition first_by :: "('a doc_scheme \<Rightarrow> bool) \<Rightarrow> 'a table \<Rightarrow> 'a doc_scheme option" where
  "first_by P t = List.find P t"

definition query_asc :: "('a doc_scheme \<Rightarrow> bool) \<Rightarrow> ('a doc_scheme \<Rightarrow> 'k::linorder) \<Rightarrow> 'a table \<Rightarrow> 'a table" where
  "query_asc P key t = sort_key key (filter P t)"

definition query_desc :: "('a doc_scheme \<Rightarrow> bool) \<Rightarrow> ('a doc_scheme \<Rightarrow> 'k::linorder) \<Rightarrow> 'a table \<Rightarrow> 'a table" where
  "query_desc P key t = rev (query_asc P key t)"

definition head_opt :: "'a list \<Rightarrow> 'a option" where
  "head_opt xs = (case xs of [] \<Rightarrow> None | x # _ \<Rightarrow> Some x)"

text \<open>A table is well formed below the next id: ids are pairwise distinct and already issued.\<close>

definition wf_table :: "id \<Rightarrow> 'a table \<Rightarrow> bool" where
  "wf_table n t \<longleftrightarrow> distinct (map did t) \<and> (\<forall>d\<in>set t. did d < n)"

section \<open>The interface of a table\<close>

locale document_table =
  fixes get :: "'t \<Rightarrow> id \<Rightarrow> 'd option"
    and ins :: "'t \<Rightarrow> 'd \<Rightarrow> 't"
    and patch :: "'t \<Rightarrow> id \<Rightarrow> ('d \<Rightarrow> 'd) \<Rightarrow> 't"
    and del :: "'t \<Rightarrow> id \<Rightarrow> 't"
    and key :: "'d \<Rightarrow> id"
    and wf :: "id \<Rightarrow> 't \<Rightarrow> bool"
  assumes get_key: "get t i = Some d \<Longrightarrow> key d = i"
    and get_ins: "wf n t \<Longrightarrow> n \<le> key d \<Longrightarrow> get (ins t d) i = (if i = key d then Some d else get t i)"
    and get_patch: "(\<And>d. key (f d) = key d) \<Longrightarrow>
          get (patch t i f) j = (if i = j then map_option f (get t j) else get t j)"
    and get_del: "get (del t i) j = (if i = j then None else get t j)"
    and get_below: "wf n t \<Longrightarrow> get t i = Some d \<Longrightarrow> i < n"
    and wf_ins: "wf n t \<Longrightarrow> key d = n \<Longrightarrow> wf (Suc n) (ins t d)"
    and wf_patch: "(\<And>d. key (f d) = key d) \<Longrightarrow> wf n t \<Longrightarrow> wf n (patch t i f)"
    and wf_del: "wf n t \<Longrightarrow> wf n (del t i)"
begin

lemma get_fresh: "wf n t \<Longrightarrow> get t n = None"
  using get_below by (metis less_irrefl not_None_eq)

lemma get_ins_same: "wf n t \<Longrightarrow> key d = n \<Longrightarrow> get (ins t d) n = Some d"
  by (simp add: get_ins)

lemma get_ins_other: "wf n t \<Longrightarrow> key d = n \<Longrightarrow> get t i = Some x \<Longrightarrow> get (ins t d) i = Some x"
  using get_below [of n t i x] by (simp add: get_ins)

lemma get_patch_same:
  "(\<And>d. key (f d) = key d) \<Longrightarrow> get t i = Some d \<Longrightarrow> get (patch t i f) i = Some (f d)"
  by (simp add: get_patch)

lemma get_patch_twice:
  assumes f: "\<And>d. key (f d) = key d" and g: "\<And>d. key (g d) = key d"
  shows "get (patch (patch t i f) i g) j = get (patch t i (\<lambda>d. g (f d))) j"
  using get_patch [OF f] get_patch [OF g] get_patch [of "\<lambda>d. g (f d)"] f g
  by (simp add: option.map_comp comp_def)

end

section \<open>Lists of documents are such tables\<close>

lemma db_get_SomeD: "db_get t i = Some d \<Longrightarrow> d \<in> set t \<and> did d = i"
  by (auto simp: db_get_def dest: find_SomeD)

lemma db_get_None_iff: "db_get t i = None \<longleftrightarrow> (\<forall>d\<in>set t. did d \<noteq> i)"
  by (simp add: db_get_def find_None_iff')

lemma db_get_iff:
  "wf_table n t \<Longrightarrow> db_get t i = Some d \<longleftrightarrow> d \<in> set t \<and> did d = i"
proof
  assume wf: "wf_table n t" and d: "d \<in> set t \<and> did d = i"
  then obtain x where x: "db_get t i = Some x"
    using db_get_None_iff [of t i] by (cases "db_get t i") auto
  then have "x \<in> set t" "did x = did d"
    using db_get_SomeD [OF x] d by auto
  then have "x = d"
    using wf d by (auto simp: wf_table_def distinct_map dest: inj_onD)
  with x show "db_get t i = Some d" by simp
qed (rule db_get_SomeD)

lemma find_map_if:
  assumes "\<And>d. did (f d) = did d"
  shows "List.find (\<lambda>d. did d = j) (map (\<lambda>d. if did d = i then f d else d) t)
       = (if i = j then map_option f (List.find (\<lambda>d. did d = j) t) else List.find (\<lambda>d. did d = j) t)"
  using assms by (induction t) auto

lemma db_get_patch:
  assumes "\<And>d. did (f d) = did d"
  shows "db_get (db_patch t i f) j = (if i = j then map_option f (db_get t j) else db_get t j)"
  using find_map_if [of f j i t] assms by (simp add: db_get_def db_patch_def)

lemma db_get_delete: "db_get (db_delete t i) j = (if i = j then None else db_get t j)"
  by (induction t) (auto simp: db_get_def db_delete_def)

lemma map_did_patch:
  "(\<And>d. did (f d) = did d) \<Longrightarrow> map did (db_patch t i f) = map did t"
  by (simp add: db_patch_def)

lemma set_db_patch:
  "set (db_patch t i f) = f ` {d \<in> set t. did d = i} \<union> {d \<in> set t. did d \<noteq> i}"
  by (auto simp: db_patch_def)

interpretation tbl: document_table db_get db_insert db_patch db_delete did wf_table
proof unfold_locales
  fix t :: "'a table" and i and d :: "'a doc_scheme"
  show "db_get t i = Some d \<Longrightarrow> did d = i"
    by (simp add: db_get_SomeD)
next
  fix n i :: id and t :: "'a table" and d :: "'a doc_scheme"
  assume "wf_table n t" "n \<le> did d"
  then have "\<forall>x\<in>set t. did x \<noteq> did d" by (auto simp: wf_table_def)
  then show "db_get (db_insert t d) i = (if i = did d then Some d else db_get t i)"
    by (auto simp: db_get_def db_insert_def find_append split: option.split
        dest: find_SomeD)
next
  fix f :: "'a doc_scheme \<Rightarrow> 'a doc_scheme" and t :: "'a table" and i j
  assume "\<And>d. did (f d) = did d"
  then show "db_get (db_patch t i f) j = (if i = j then map_option f (db_get t j) else db_get t j)"
    by (rule db_get_patch)
next
  fix t :: "'a table" and i j
  show "db_get (db_delete t i) j = (if i = j then None else db_get t j)"
    by (rule db_get_delete)
next
  fix n i :: id and t :: "'a table" and d :: "'a doc_scheme"
  show "wf_table n t \<Longrightarrow> db_get t i = Some d \<Longrightarrow> i < n"
    by (auto simp: wf_table_def dest: db_get_SomeD)
next
  fix n :: id and t :: "'a table" and d :: "'a doc_scheme"
  assume "wf_table n t" "did d = n"
  then show "wf_table (Suc n) (db_insert t d)"
    by (force simp: wf_table_def db_insert_def)
next
  fix f :: "'a doc_scheme \<Rightarrow> 'a doc_scheme" and n :: id and t :: "'a table" and i
  assume f: "\<And>d. did (f d) = did d" and wf: "wf_table n t"
  show "wf_table n (db_patch t i f)"
    using wf f by (auto simp: wf_table_def map_did_patch set_db_patch)
next
  fix n :: id and t :: "'a table" and i
  assume "wf_table n t"
  then show "wf_table n (db_delete t i)"
    by (auto simp: wf_table_def db_delete_def distinct_map inj_on_def)
qed

section \<open>Facts about sets, sums and queries over tables\<close>

lemma wf_table_Suc [intro]: "wf_table n t \<Longrightarrow> wf_table (Suc n) t"
  by (force simp: wf_table_def)

lemma wf_table_Nil [simp]: "wf_table n []"
  by (simp add: wf_table_def)

lemma db_insert_neq [simp]: "db_insert t d \<noteq> t"
  by (simp add: db_insert_def)

lemma set_db_insert [simp]: "set (db_insert t d) = insert d (set t)"
  by (auto simp: db_insert_def)

lemma in_db_patchE:
  assumes "d \<in> set (db_patch t i f)"
  obtains "d \<in> set t" "did d \<noteq> i" | x where "x \<in> set t" "did x = i" "d = f x"
  using assms by (auto simp: set_db_patch)

lemma set_db_delete [simp]: "set (db_delete t i) = {d \<in> set t. did d \<noteq> i}"
  by (simp add: db_delete_def)

lemma db_patch_other: "(\<forall>d\<in>set t. did d \<noteq> i) \<Longrightarrow> db_patch t i f = t"
  by (induction t) (auto simp: db_patch_def)

lemma first_by_None: "first_by P t = None \<longleftrightarrow> (\<forall>d\<in>set t. \<not> P d)"
  by (simp add: first_by_def find_None_iff')

lemma first_by_SomeD: "first_by P t = Some d \<Longrightarrow> d \<in> set t \<and> P d"
  by (auto simp: first_by_def dest: find_SomeD)

lemma first_by_insert:
  "first_by P (db_insert t d) = (case first_by P t of Some x \<Rightarrow> Some x | None \<Rightarrow> if P d then Some d else None)"
  by (simp add: first_by_def db_insert_def find_append split: option.split)

lemma first_by_patch:
  assumes "\<And>d. P (f d) = P d"
  shows "first_by P (db_patch t i f) = map_option (\<lambda>d. if did d = i then f d else d) (first_by P t)"
  using assms by (induction t) (auto simp: first_by_def db_patch_def)

lemma first_by_unique:
  assumes "x \<in> set t" "P x" "\<And>y. y \<in> set t \<Longrightarrow> P y \<Longrightarrow> y = x"
  shows "first_by P t = Some x"
proof (cases "first_by P t")
  case None
  then show ?thesis using assms(1,2) by (simp add: first_by_None)
next
  case (Some y)
  then show ?thesis using assms(3) first_by_SomeD [OF Some] by simp
qed

lemma wf_table_mono: "wf_table n t \<Longrightarrow> n \<le> m \<Longrightarrow> wf_table m t"
  by (force simp: wf_table_def)

lemma wf_table_inj: "wf_table n t \<Longrightarrow> x \<in> set t \<Longrightarrow> y \<in> set t \<Longrightarrow> did x = did y \<Longrightarrow> x = y"
  by (auto simp: wf_table_def distinct_map dest: inj_onD)

lemma map_db_patch:
  "(\<And>d. g (f d) = g d) \<Longrightarrow> map g (db_patch t i f) = map g t"
  by (simp add: db_patch_def)

lemma db_get_in: "wf_table n t \<Longrightarrow> d \<in> set t \<Longrightarrow> db_get t (did d) = Some d"
  by (simp add: db_get_iff)

lemma set_query_asc [simp]: "set (query_asc P key t) = {d \<in> set t. P d}"
  by (simp add: query_asc_def)

lemma set_query_desc [simp]: "set (query_desc P key t) = {d \<in> set t. P d}"
  by (simp add: query_desc_def)

lemma head_opt_None [simp]: "head_opt xs = None \<longleftrightarrow> xs = []"
  by (simp add: head_opt_def split: list.split)

lemma head_opt_SomeD: "head_opt xs = Some x \<Longrightarrow> x \<in> set xs"
  by (auto simp: head_opt_def split: list.splits)

text \<open>How a sum over a table moves under each operation.\<close>

lemma sum_db_insert:
  "sum_list (map f (filter P (db_insert t d))) = sum_list (map f (filter P t)) + (if P d then f d else 0)"
  for f :: "'a doc_scheme \<Rightarrow> int"
  by (simp add: db_insert_def)

lemma sum_db_patch:
  fixes g :: "'a doc_scheme \<Rightarrow> int"
  assumes "wf_table n t" "db_get t i = Some d"
  shows "sum_list (map g (db_patch t i f)) = sum_list (map g t) + (g (f d) - g d)"
  using assms
proof (induction t)
  case Nil
  then show ?case by (simp add: db_get_def)
next
  case (Cons x t)
  show ?case
  proof (cases "did x = i")
    case True
    with Cons.prems have "x = d" "db_patch t i f = t"
      by (auto simp: db_get_def wf_table_def image_iff intro!: db_patch_other)
    with True show ?thesis by (simp add: db_patch_def)
  next
    case False
    with Cons.prems have "wf_table n t" "db_get t i = Some d"
      by (auto simp: db_get_def wf_table_def)
    with Cons.IH False show ?thesis by (simp add: db_patch_def)
  qed
qed

end
