(* ===== verification/Schema.thy ===== *)
theory Schema
  imports Store
begin

text \<open>
  The data model of \<open>convex/schema.ts\<close>: one datatype per status union, one record per
  \<open>defineTable\<close> (each extends \<open>doc\<close>, Convex's system fields), and the database
  \<open>db\<close> with one field per table.  Fields that are \<open>v.optional\<close> are options;
  \<open>v.number()\<close> is \<open>int\<close> (cents, seconds and milliseconds are integers throughout).
  The record also holds the next document id and the jobs handed to \<open>ctx.scheduler\<close>,
  which commit or roll back with the transaction.

  \<open>ctx\<close> is what a function reads from its environment: the session user that
  \<open>@convex-dev/auth\<close> reports, the time (constant during a transaction), one
  \<open>Math.random()\<close> value and the deployment's environment variables.
\<close>

section \<open>Errors (lib/errors.ts)\<close>

datatype error_code =
    UNAUTHENTICATED | VALIDATION_FAILED | EMAIL_UNAVAILABLE | SHOW_NOT_FOUND | SHOW_NOT_LIVE
  | NO_LIVE_SHOW | ACTIVE_SHOW_EXISTS | INVALID_SHOW_STATE | SHOW_NOT_CONFIGURABLE
  | INVALID_TIER_CONFIGURATION | PAYOUT_SETUP_REQUIRED | TIER_NOT_FOUND | PAYMENT_REQUIRED
  | NOT_IN_QUEUE | INVALID_QUEUE_STATE | CALL_NOT_FOUND | CALLER_NOT_WAITING | QUEUE_EMPTY
  | ACTIVE_CALL_EXISTS | INVALID_CALL_STATE | PAYMENT_CAPTURE_FAILED | INVALID_SIGNAL
  | PAYMENTS_UNAVAILABLE | TIER_NOT_PAYABLE | PAYMENT_NOT_AUTHORIZED | PAYMENT_PROVIDER_ERROR
  | PAYMENT_METHOD_NOT_FOUND | PAYOUTS_UNAVAILABLE | PAYOUT_PROVIDER_ERROR | CREATOR_NOT_FOUND
  | SELF_FOLLOW | FOLLOW_LIMIT | RATE_LIMITED | INVALID_AVATAR

section \<open>Status unions\<close>

datatype show_status = Show_CREATED | Show_LIVE | Show_ENDED

datatype queue_status = Q_WAITING | Q_LEFT | Q_SELECTED | Q_CONNECTING | Q_LIVE | Q_ENDED

datatype call_status = Call_PAYMENT_PENDING | Call_CREATED | Call_CONNECTING | Call_LIVE
  | Call_ENDED | Call_FAILED

datatype call_role = Creator | Viewer

datatype signal_type = Signal_ready | Signal_offer | Signal_answer | Signal_ice

datatype payment_status = Pay_CREATED | Pay_AUTHORIZED | Pay_CAPTURING | Pay_CAPTURED
  | Pay_CANCELED | Pay_FAILED

datatype refund_status = Ref_REQUESTED | Ref_PROCESSING | Ref_RETRY | Ref_PENDING
  | Ref_SUCCEEDED | Ref_FAILED

datatype ledger_kind = EARNING | REFUND_REVERSAL | DISPUTE_DEBIT | DISPUTE_RELEASE
  | PAYOUT_RESERVATION | PAYOUT_RELEASE | ADJUSTMENT

datatype payout_item_status = Item_RESERVED | Item_SENDING | Item_PAID | Item_RETRY
  | Item_FAILED | Item_CANCELED

datatype payout_run_status = Run_PROCESSING | Run_COMPLETED | Run_PARTIAL_FAILED

datatype selection_mode = MANUAL | RANDOM

section \<open>Idempotency keys\<close>

text \<open>
  Keys are template strings over document ids, such as \<open>earning:${attempt._id}\<close>.  They are
  kept as constructors; \<open>ledger_key_text\<close> renders them and \<open>ledger_key_text_inj\<close>
  shows that two of them never collide as strings.
\<close>

datatype ledger_key = EarningKey id | RefundKey id | DisputeDebitKey string
  | DisputeReleaseKey string | PayoutReservationKey id

definition ledger_key_text :: "(id \<Rightarrow> string) \<Rightarrow> ledger_key \<Rightarrow> string" where
  "ledger_key_text idt k = (case k of
      EarningKey i \<Rightarrow> ''earning:'' @ idt i
    | RefundKey i \<Rightarrow> ''refund:'' @ idt i
    | DisputeDebitKey s \<Rightarrow> ''dispute-debit:'' @ s
    | DisputeReleaseKey s \<Rightarrow> ''dispute-release:'' @ s
    | PayoutReservationKey i \<Rightarrow> ''payout-reservation:'' @ idt i)"

datatype rate_key = RateFollow id | RateProfile id | RateAvatar id | RateReads id
  | RateReset string

datatype meta_value = MetaNum int | MetaStr string

section \<open>Documents\<close>

record user_doc = doc +
  u_name :: "string option"
  u_image :: "string option"
  u_email :: "string option"
  u_emailVerificationTime :: "int option"
  u_phone :: "string option"
  u_phoneVerificationTime :: "int option"
  u_isAnonymous :: "bool option"
  u_username :: "string option"
  u_platformFeeBps :: "int option"

record show_doc = doc +
  sh_creatorId :: id
  sh_status :: show_status
  sh_startedAt :: "int option"
  sh_endedAt :: "int option"
  sh_scheduledFor :: "int option"

record tier_doc = doc +
  ti_showId :: id
  ti_name :: string
  ti_priorityRank :: int
  ti_callDurationSeconds :: int
  ti_priceCents :: int
  ti_enabled :: bool

record queue_doc = doc +
  q_showId :: id
  q_viewerId :: id
  q_displayName :: string
  q_topic :: string
  q_status :: queue_status
  q_tierId :: id
  q_tierName :: string
  q_priorityRank :: int
  q_callDurationSeconds :: int
  q_tierPriceCents :: int
  q_joinedAt :: int
  q_selectedAt :: "int option"
  q_leftAt :: "int option"
  q_paymentAttemptId :: "id option"

record call_doc = doc +
  c_showId :: id
  c_queueEntryId :: id
  c_creatorId :: id
  c_viewerId :: id
  c_status :: call_status
  c_selectionMode :: selection_mode
  c_callDurationSeconds :: int
  c_startedAt :: "int option"
  c_endedAt :: "int option"
  c_expiresAt :: "int option"
  c_paymentAttemptId :: "id option"

record note_doc = doc +
  n_creatorId :: id
  n_viewerId :: id
  n_note :: string
  n_updatedAt :: int

record signal_doc = doc +
  sg_callId :: id
  sg_to :: call_role
  sg_type :: signal_type
  sg_payload :: string

record presence_doc = doc +
  pr_callId :: id
  pr_role :: call_role
  pr_lastSeenAt :: int
  pr_disconnectedAt :: "int option"

record attempt_doc = doc +
  pa_showId :: id
  pa_creatorId :: id
  pa_tierId :: id
  pa_payerId :: id
  pa_idempotencyKey :: string
  pa_queueEntryId :: "id option"
  pa_stripePaymentIntentId :: "string option"
  pa_stripeCustomerId :: "string option"
  pa_amountCents :: int
  pa_currency :: string
  pa_platformFeeBps :: int
  pa_platformFeeCents :: int
  pa_basicCardFeeCents :: int
  pa_creatorProcessingFeeCents :: int
  pa_status :: payment_status
  pa_failureCode :: "string option"
  pa_authorizedAt :: "int option"
  pa_capturedAt :: "int option"
  pa_canceledAt :: "int option"
  pa_savedPaymentMethodId :: "string option"

record refund_doc = doc +
  rf_paymentAttemptId :: id
  rf_callId :: id
  rf_stripePaymentIntentId :: string
  rf_stripeRefundId :: "string option"
  rf_amountCents :: int
  rf_currency :: string
  rf_reason :: string
  rf_status :: refund_status
  rf_attempts :: nat
  rf_failureCode :: "string option"
  rf_nextAttemptAt :: int
  rf_processedAt :: "int option"

record dispute_doc = doc +
  ds_stripeDisputeId :: string
  ds_paymentAttemptId :: "id option"
  ds_stripePaymentIntentId :: "string option"
  ds_amountCents :: int
  ds_currency :: string
  ds_reason :: string
  ds_status :: string
  ds_evidenceDueAt :: "int option"

record stripe_event_doc = doc +
  ev_stripeEventId :: string
  ev_type :: string
  ev_connectedAccountId :: "string option"

record payment_profile_doc = doc +
  pp_userId :: id
  pp_stripeCustomerId :: string

record account_doc = doc +
  ac_creatorId :: id
  ac_stripeAccountId :: string
  ac_transfersStatus :: string
  ac_bankPayoutsStatus :: string
  ac_externalAccountPresent :: bool
  ac_externalAccountBankName :: "string option"
  ac_externalAccountLast4 :: "string option"
  ac_externalAccountCurrency :: "string option"
  ac_detailsSubmitted :: bool
  ac_requirementsDue :: "string list"

record ledger_doc = doc +
  le_creatorId :: id
  le_kind :: ledger_kind
  le_amountCents :: int
  le_currency :: string
  le_effectiveAt :: int
  le_idempotencyKey :: ledger_key
  le_paymentAttemptId :: "id option"
  le_callId :: "id option"
  le_payoutItemId :: "id option"
  le_metadata :: "(string \<times> meta_value) list option"

record balance_doc = doc +
  cb_creatorId :: id
  cb_currency :: string
  cb_totalCents :: int

record payout_run_doc = doc +
  run_periodStart :: string
  run_periodEnd :: string
  run_currency :: string
  run_status :: payout_run_status
  run_completedAt :: "int option"

record payout_item_doc = doc +
  it_runId :: id
  it_creatorId :: id
  it_amountCents :: int
  it_currency :: string
  it_destinationAccountId :: string
  it_idempotencyKey :: "id \<times> string"
  it_stripeTransferId :: "string option"
  it_status :: payout_item_status
  it_attempts :: nat
  it_nextAttemptAt :: int
  it_failureCode :: "string option"
  it_processedAt :: "int option"

record payout_event_doc = doc +
  pe_stripePayoutId :: string
  pe_creatorId :: id
  pe_amountCents :: int
  pe_currency :: string
  pe_status :: string
  pe_failureCode :: "string option"
  pe_failureMessage :: "string option"
  pe_arrivalAt :: "int option"

record profile_doc = doc +
  p_userId :: id
  p_username :: string
  p_displayName :: string
  p_bio :: string
  p_avatarStorageId :: "id option"
  p_avatarUrl :: string
  p_coverUrl :: string
  p_published :: bool
  p_followerCount :: int
  p_isLive :: bool
  p_liveShowId :: "id option"
  p_liveStartedAt :: "int option"
  p_nextHotlineAt :: "int option"
  p_lastLiveAlertAt :: "int option"
  p_topics :: "string list option"
  p_searchText :: string

record follow_doc = doc +
  fo_followerId :: id
  fo_creatorId :: id

record following_count_doc = doc +
  fc_userId :: id
  fc_count :: int

record shard_doc = doc +
  fs_creatorId :: id
  fs_shard :: nat
  fs_count :: int

record projection_doc = doc +
  fp_creatorId :: id

record live_event_doc = doc +
  lv_creatorId :: id
  lv_showId :: id

record email_pref_doc = doc +
  em_userId :: id
  em_liveAlerts :: bool

record read_doc = doc +
  nr_userId :: id
  nr_eventId :: id

record visit_doc = doc +
  cv_showId :: id
  cv_visitorId :: id
  cv_lastSeenAt :: int

record channel_stat_doc = doc +
  cs_showId :: id
  cs_visitors :: int
  cs_counting :: bool

record rate_doc = doc +
  rl_key :: rate_key
  rl_windowStart :: int
  rl_count :: int

section \<open>Scheduled functions\<close>

datatype job =
    CallsExpire id
  | SignalsPurge id
  | PresenceCheckSeen id call_role int
  | PresenceCheckGrace id call_role int
  | ShowsCloseQueue id
  | PaymentsCapture id nat
  | PaymentsCancelIntent id string
  | RefundsRun id
  | PayoutsReserveBatch id "nat option"
  | PayoutsFinishRuns
  | PayoutsTransfer id
  | PayoutsReconcileAccount string
  | FollowsProject id
  | ChannelsCountVisitors id
  | LiveAlertsCollect id "nat option" nat
  | LiveAlertsSend id nat string string "(id \<times> string) list" nat
  | NotificationsPrune

section \<open>The database\<close>

record db =
  users :: "user_doc list"
  shows_tbl :: "show_doc list"
  showTiers :: "tier_doc list"
  queueEntries :: "queue_doc list"
  calls :: "call_doc list"
  callerNotes :: "note_doc list"
  callSignals :: "signal_doc list"
  callPresence :: "presence_doc list"
  paymentAttempts :: "attempt_doc list"
  paymentRefunds :: "refund_doc list"
  paymentDisputes :: "dispute_doc list"
  stripeEvents :: "stripe_event_doc list"
  paymentProfiles :: "payment_profile_doc list"
  payoutAccounts :: "account_doc list"
  ledgerEntries :: "ledger_doc list"
  creatorBalances :: "balance_doc list"
  payoutRuns :: "payout_run_doc list"
  payoutItems :: "payout_item_doc list"
  payoutEvents :: "payout_event_doc list"
  profiles :: "profile_doc list"
  follows :: "follow_doc list"
  followingCounts :: "following_count_doc list"
  followerShards :: "shard_doc list"
  followerProjections :: "projection_doc list"
  liveEvents :: "live_event_doc list"
  emailPreferences :: "email_pref_doc list"
  notificationReads :: "read_doc list"
  channelVisits :: "visit_doc list"
  channelStats :: "channel_stat_doc list"
  rateLimits :: "rate_doc list"
  nextId :: id
  jobs :: "(int \<times> job) list"

definition empty_db :: db where
  "empty_db = \<lparr>users = [], shows_tbl = [], showTiers = [], queueEntries = [], calls = [],
     callerNotes = [], callSignals = [], callPresence = [], paymentAttempts = [],
     paymentRefunds = [], paymentDisputes = [], stripeEvents = [], paymentProfiles = [],
     payoutAccounts = [], ledgerEntries = [], creatorBalances = [], payoutRuns = [],
     payoutItems = [], payoutEvents = [], profiles = [], follows = [], followingCounts = [],
     followerShards = [], followerProjections = [], liveEvents = [], emailPreferences = [],
     notificationReads = [], channelVisits = [], channelStats = [], rateLimits = [],
     nextId = 0, jobs = []\<rparr>"

text \<open>
  \<open>ctx.db.patch(id, ...)\<close> and \<open>ctx.db.delete(id)\<close> on the tables that several
  components write.  An insert takes the document as a function of its fresh id.
\<close>

abbreviation patchShow :: "id \<Rightarrow> (show_doc \<Rightarrow> show_doc) \<Rightarrow> db \<Rightarrow> db" where
  "patchShow i f \<equiv> shows_tbl_update (\<lambda>t. db_patch t i f)"

abbreviation patchEntry :: "id \<Rightarrow> (queue_doc \<Rightarrow> queue_doc) \<Rightarrow> db \<Rightarrow> db" where
  "patchEntry i f \<equiv> queueEntries_update (\<lambda>t. db_patch t i f)"

abbreviation patchCall :: "id \<Rightarrow> (call_doc \<Rightarrow> call_doc) \<Rightarrow> db \<Rightarrow> db" where
  "patchCall i f \<equiv> calls_update (\<lambda>t. db_patch t i f)"

abbreviation patchPresence :: "id \<Rightarrow> (presence_doc \<Rightarrow> presence_doc) \<Rightarrow> db \<Rightarrow> db" where
  "patchPresence i f \<equiv> callPresence_update (\<lambda>t. db_patch t i f)"

abbreviation patchAttempt :: "id \<Rightarrow> (attempt_doc \<Rightarrow> attempt_doc) \<Rightarrow> db \<Rightarrow> db" where
  "patchAttempt i f \<equiv> paymentAttempts_update (\<lambda>t. db_patch t i f)"

abbreviation patchRefund :: "id \<Rightarrow> (refund_doc \<Rightarrow> refund_doc) \<Rightarrow> db \<Rightarrow> db" where
  "patchRefund i f \<equiv> paymentRefunds_update (\<lambda>t. db_patch t i f)"

abbreviation patchProfile :: "id \<Rightarrow> (profile_doc \<Rightarrow> profile_doc) \<Rightarrow> db \<Rightarrow> db" where
  "patchProfile i f \<equiv> profiles_update (\<lambda>t. db_patch t i f)"

abbreviation patchItem :: "id \<Rightarrow> (payout_item_doc \<Rightarrow> payout_item_doc) \<Rightarrow> db \<Rightarrow> db" where
  "patchItem i f \<equiv> payoutItems_update (\<lambda>t. db_patch t i f)"

abbreviation patchRun :: "id \<Rightarrow> (payout_run_doc \<Rightarrow> payout_run_doc) \<Rightarrow> db \<Rightarrow> db" where
  "patchRun i f \<equiv> payoutRuns_update (\<lambda>t. db_patch t i f)"

abbreviation bumpId :: "db \<Rightarrow> db" where
  "bumpId \<equiv> nextId_update Suc"

section \<open>The context of a function\<close>

text \<open>An environment variable read through \<open>Number(...)\<close>: unset, not a number, or a number.\<close>

datatype env_num = Unset | NotNumber | IntNum int

record env =
  CREATOR_EARNINGS_HOLD_HOURS :: env_num
  CREATOR_PAYOUT_DAY :: env_num
  CREATOR_PAYOUT_MINIMUM_CENTS :: env_num
  CREATOR_PAYOUTS_ENABLED :: "string option"
  CREATOR_PAYOUT_CURRENCY :: "string option"
  STRIPE_CONNECT_COUNTRY :: "string option"

record ctx =
  authUserId :: "id option"
  now :: int
  rnd :: rat
  env_of :: env

definition runAfter :: "ctx \<Rightarrow> int \<Rightarrow> job \<Rightarrow> db \<Rightarrow> db" where
  "runAfter ctx delay j s = s\<lparr>jobs := jobs s @ [(now ctx + delay, j)]\<rparr>"

definition runAt :: "int \<Rightarrow> job \<Rightarrow> db \<Rightarrow> db" where
  "runAt t j s = s\<lparr>jobs := jobs s @ [(t, j)]\<rparr>"

lemma runAfter_frame [simp]:
  "users (runAfter c d j s) = users s" "shows_tbl (runAfter c d j s) = shows_tbl s"
  "showTiers (runAfter c d j s) = showTiers s" "queueEntries (runAfter c d j s) = queueEntries s"
  "calls (runAfter c d j s) = calls s" "callerNotes (runAfter c d j s) = callerNotes s"
  "callSignals (runAfter c d j s) = callSignals s" "callPresence (runAfter c d j s) = callPresence s"
  "paymentAttempts (runAfter c d j s) = paymentAttempts s"
  "paymentRefunds (runAfter c d j s) = paymentRefunds s"
  "paymentDisputes (runAfter c d j s) = paymentDisputes s"
  "stripeEvents (runAfter c d j s) = stripeEvents s"
  "paymentProfiles (runAfter c d j s) = paymentProfiles s"
  "payoutAccounts (runAfter c d j s) = payoutAccounts s"
  "ledgerEntries (runAfter c d j s) = ledgerEntries s"
  "creatorBalances (runAfter c d j s) = creatorBalances s"
  "payoutRuns (runAfter c d j s) = payoutRuns s" "payoutItems (runAfter c d j s) = payoutItems s"
  "payoutEvents (runAfter c d j s) = payoutEvents s" "profiles (runAfter c d j s) = profiles s"
  "follows (runAfter c d j s) = follows s" "followingCounts (runAfter c d j s) = followingCounts s"
  "followerShards (runAfter c d j s) = followerShards s"
  "followerProjections (runAfter c d j s) = followerProjections s"
  "liveEvents (runAfter c d j s) = liveEvents s"
  "emailPreferences (runAfter c d j s) = emailPreferences s"
  "notificationReads (runAfter c d j s) = notificationReads s"
  "channelVisits (runAfter c d j s) = channelVisits s"
  "channelStats (runAfter c d j s) = channelStats s" "rateLimits (runAfter c d j s) = rateLimits s"
  "nextId (runAfter c d j s) = nextId s"
  "jobs (runAfter c d j s) = jobs s @ [(now c + d, j)]"
  by (simp_all add: runAfter_def)

lemma runAt_eq: "runAt t j s = runAfter (c\<lparr>now := 0\<rparr>) t j s"
  by (simp add: runAt_def runAfter_def)

lemma runAt_runAfter: "runAt t j s = runAfter c (t - now c) j s"
  by (simp add: runAt_def runAfter_def)

section \<open>Rendered keys never collide\<close>

lemma ledger_key_text_inj:
  assumes "inj idt" "ledger_key_text idt k = ledger_key_text idt k'"
  shows "k = k'"
  using assms by (auto simp: ledger_key_text_def inj_eq split: ledger_key.splits)

section \<open>Well-formed tables\<close>

text \<open>Every table is well formed below the next id.\<close>

definition wf_db :: "db \<Rightarrow> bool" where
  "wf_db s \<longleftrightarrow> (let n = nextId s in
     wf_table n (users s) \<and> wf_table n (shows_tbl s) \<and> wf_table n (showTiers s) \<and>
     wf_table n (queueEntries s) \<and> wf_table n (calls s) \<and> wf_table n (callerNotes s) \<and>
     wf_table n (callSignals s) \<and> wf_table n (callPresence s) \<and>
     wf_table n (paymentAttempts s) \<and> wf_table n (paymentRefunds s) \<and>
     wf_table n (paymentDisputes s) \<and> wf_table n (stripeEvents s) \<and>
     wf_table n (paymentProfiles s) \<and> wf_table n (payoutAccounts s) \<and>
     wf_table n (ledgerEntries s) \<and> wf_table n (creatorBalances s) \<and>
     wf_table n (payoutRuns s) \<and> wf_table n (payoutItems s) \<and> wf_table n (payoutEvents s) \<and>
     wf_table n (profiles s) \<and> wf_table n (follows s) \<and> wf_table n (followingCounts s) \<and>
     wf_table n (followerShards s) \<and> wf_table n (followerProjections s) \<and>
     wf_table n (liveEvents s) \<and> wf_table n (emailPreferences s) \<and>
     wf_table n (notificationReads s) \<and> wf_table n (channelVisits s) \<and>
     wf_table n (channelStats s) \<and> wf_table n (rateLimits s))"

lemma wf_empty_db: "wf_db empty_db"
  by (simp add: wf_db_def empty_db_def)

end
