(* ===== verification/Ledger.thy ===== *)
theory Ledger
  imports Schema
begin

text \<open>
  The creator ledger, \<open>convex/lib/ledger.ts\<close>: an append-only list of signed amounts
  (\<open>ledgerEntries\<close>), each posted at most once by its idempotency key, and the running
  total per creator and currency (\<open>creatorBalances\<close>) that \<open>postEntry\<close> moves in the
  same transaction.  The theory proves that the running total always is the sum of the entries,
  that \<open>balanceAt\<close> therefore reports the sums it claims to, that replaying postings is
  harmless, that refunds never take back more than was earned, and that a dispute moves the
  creator's share at most once in each direction.
\<close>

section \<open>Posting\<close>

definition HOUR_MS :: int where
  "HOUR_MS = 60 * 60000"

definition earningsHoldMs :: "env \<Rightarrow> int" where
  "earningsHoldMs e = (case CREATOR_EARNINGS_HOLD_HOURS e of
       IntNum hours \<Rightarrow> if hours \<ge> 0 then hours else 168
     | Unset \<Rightarrow> 168
     | NotNumber \<Rightarrow> 168) * HOUR_MS"

definition balanceFor :: "db \<Rightarrow> id \<Rightarrow> string \<Rightarrow> balance_doc option" where
  "balanceFor s creator cur =
     first_by (\<lambda>b. cb_creatorId b = creator \<and> cb_currency b = cur) (creatorBalances s)"

definition entryByKey :: "db \<Rightarrow> ledger_key \<Rightarrow> ledger_doc option" where
  "entryByKey s k = first_by (\<lambda>e. le_idempotencyKey e = k) (ledgerEntries s)"

text \<open>The entry to post is given without system fields: its \<open>did\<close> and \<open>ctime\<close> are set here.\<close>

definition insertEntry :: "ctx \<Rightarrow> ledger_doc \<Rightarrow> db \<Rightarrow> db" where
  "insertEntry ctx entry s =
     s\<lparr>ledgerEntries := db_insert (ledgerEntries s) (entry\<lparr>did := nextId s, ctime := now ctx\<rparr>),
       nextId := Suc (nextId s)\<rparr>"

definition addToBalance :: "ctx \<Rightarrow> ledger_doc \<Rightarrow> db \<Rightarrow> db" where
  "addToBalance ctx entry s =
     (case balanceFor s (le_creatorId entry) (le_currency entry) of
        Some balance \<Rightarrow> s\<lparr>creatorBalances := db_patch (creatorBalances s) (did balance)
            (\<lambda>b. b\<lparr>cb_totalCents := cb_totalCents balance + le_amountCents entry\<rparr>)\<rparr>
      | None \<Rightarrow> s\<lparr>creatorBalances := db_insert (creatorBalances s)
            \<lparr>did = nextId s, ctime = now ctx, cb_creatorId = le_creatorId entry,
             cb_currency = le_currency entry, cb_totalCents = le_amountCents entry\<rparr>,
          nextId := Suc (nextId s)\<rparr>)"

definition postEntry :: "ctx \<Rightarrow> ledger_doc \<Rightarrow> db \<Rightarrow> bool \<times> db" where
  "postEntry ctx entry s =
     (if le_amountCents entry = 0 then (False, s)
      else if entryByKey s (le_idempotencyKey entry) \<noteq> None then (False, s)
      else (True, addToBalance ctx entry (insertEntry ctx entry s)))"

abbreviation post :: "ctx \<Rightarrow> ledger_doc \<Rightarrow> db \<Rightarrow> db" where
  "post ctx entry s \<equiv> snd (postEntry ctx entry s)"

section \<open>Balances\<close>

record balance_summary =
  bs_currency :: string
  bs_totalCents :: int
  bs_pendingCents :: int
  bs_availableCents :: int

definition balanceAt :: "db \<Rightarrow> id \<Rightarrow> string \<Rightarrow> int \<Rightarrow> balance_summary" where
  "balanceAt s creatorId cur t =
     (let held = filter (\<lambda>e. le_creatorId e = creatorId \<and> le_currency e = cur \<and> le_effectiveAt e > t)
                   (ledgerEntries s);
          totalCents = (case balanceFor s creatorId cur of Some b \<Rightarrow> cb_totalCents b | None \<Rightarrow> 0);
          pendingCents = sum_list (map le_amountCents held)
      in \<lparr>bs_currency = cur, bs_totalCents = totalCents, bs_pendingCents = pendingCents,
          bs_availableCents = totalCents - pendingCents\<rparr>)"

section \<open>Earnings, refunds and disputes\<close>

definition earningFor :: "db \<Rightarrow> id \<Rightarrow> ledger_doc option" where
  "earningFor s attemptId =
     first_by (\<lambda>e. le_paymentAttemptId e = Some attemptId \<and> le_kind e = EARNING) (ledgerEntries s)"

definition creditEarning :: "ctx \<Rightarrow> attempt_doc \<Rightarrow> id \<Rightarrow> int \<Rightarrow> db \<Rightarrow> db" where
  "creditEarning ctx attempt callId liveAt s =
     (if pa_status attempt \<noteq> Pay_CAPTURED then s
      else post ctx
        \<lparr>did = 0, ctime = 0, le_creatorId = pa_creatorId attempt, le_kind = EARNING,
         le_amountCents = pa_amountCents attempt - pa_platformFeeCents attempt,
         le_currency = pa_currency attempt,
         le_effectiveAt = liveAt + earningsHoldMs (env_of ctx),
         le_idempotencyKey = EarningKey (did attempt),
         le_paymentAttemptId = Some (did attempt), le_callId = Some callId,
         le_payoutItemId = None,
         le_metadata = Some [(''grossCents'', MetaNum (pa_amountCents attempt)),
           (''platformFeeCents'', MetaNum (pa_platformFeeCents attempt)),
           (''basicCardFeeCents'', MetaNum (pa_basicCardFeeCents attempt)),
           (''creatorProcessingFeeCents'', MetaNum (pa_creatorProcessingFeeCents attempt))]\<rparr> s)"

text \<open>The creator's share of a refund, before what other refunds already took back.\<close>

definition refundShare :: "db \<Rightarrow> refund_doc \<Rightarrow> ledger_doc \<Rightarrow> int" where
  "refundShare s refund earning =
     (case db_get (paymentAttempts s) (rf_paymentAttemptId refund) of
        Some attempt \<Rightarrow> if rf_amountCents refund < pa_amountCents attempt
          then round_div (le_amountCents earning * rf_amountCents refund) (pa_amountCents attempt)
          else le_amountCents earning
      | None \<Rightarrow> le_amountCents earning)"

definition reversedByOthers :: "db \<Rightarrow> refund_doc \<Rightarrow> int" where
  "reversedByOthers s refund =
     - sum_list (map le_amountCents
         (filter (\<lambda>e. le_idempotencyKey e \<noteq> RefundKey (did refund))
           (filter (\<lambda>e. le_paymentAttemptId e = Some (rf_paymentAttemptId refund)
                        \<and> le_kind e = REFUND_REVERSAL) (ledgerEntries s))))"

definition reverseForRefund :: "ctx \<Rightarrow> refund_doc \<Rightarrow> db \<Rightarrow> db" where
  "reverseForRefund ctx refund s =
     (case earningFor s (rf_paymentAttemptId refund) of
        None \<Rightarrow> s
      | Some earning \<Rightarrow>
          (let amount = min (refundShare s refund earning)
                            (le_amountCents earning - reversedByOthers s refund)
           in if amount \<le> 0 then s
              else post ctx
                \<lparr>did = 0, ctime = 0, le_creatorId = le_creatorId earning,
                 le_kind = REFUND_REVERSAL, le_amountCents = - amount,
                 le_currency = le_currency earning, le_effectiveAt = now ctx,
                 le_idempotencyKey = RefundKey (did refund),
                 le_paymentAttemptId = Some (rf_paymentAttemptId refund),
                 le_callId = Some (rf_callId refund), le_payoutItemId = None,
                 le_metadata = Some [(''refundId'', MetaStr
                   (case rf_stripeRefundId refund of Some r \<Rightarrow> r | None \<Rightarrow> []))]\<rparr> s))"

definition DISPUTE_OPEN :: "string list" where
  "DISPUTE_OPEN = [''needs_response'', ''under_review'', ''lost'', ''warning_needs_response'',
     ''warning_under_review'']"

definition DISPUTE_RESOLVED :: "string list" where
  "DISPUTE_RESOLVED = [''won'', ''warning_closed'', ''prevented'']"

definition disputeEntry :: "ctx \<Rightarrow> dispute_doc \<Rightarrow> id \<Rightarrow> ledger_doc \<Rightarrow> ledger_kind \<Rightarrow> int \<Rightarrow> ledger_key \<Rightarrow> ledger_doc" where
  "disputeEntry ctx dispute attemptId earning kind amount k =
     \<lparr>did = 0, ctime = 0, le_creatorId = le_creatorId earning, le_kind = kind,
      le_amountCents = amount, le_currency = le_currency earning,
      le_effectiveAt = now ctx, le_idempotencyKey = k,
      le_paymentAttemptId = Some attemptId, le_callId = None, le_payoutItemId = None,
      le_metadata = Some [(''disputeId'', MetaStr (ds_stripeDisputeId dispute)),
        (''status'', MetaStr (ds_status dispute))]\<rparr>"

definition adjustForDispute :: "ctx \<Rightarrow> dispute_doc \<Rightarrow> db \<Rightarrow> db" where
  "adjustForDispute ctx dispute s =
     (case ds_paymentAttemptId dispute of
        None \<Rightarrow> s
      | Some attemptId \<Rightarrow>
          (case earningFor s attemptId of
             None \<Rightarrow> s
           | Some earning \<Rightarrow>
               if ds_status dispute \<in> set DISPUTE_OPEN
               then post ctx (disputeEntry ctx dispute attemptId earning DISPUTE_DEBIT
                      (- le_amountCents earning) (DisputeDebitKey (ds_stripeDisputeId dispute))) s
               else if ds_status dispute \<in> set DISPUTE_RESOLVED
               then (case entryByKey s (DisputeDebitKey (ds_stripeDisputeId dispute)) of
                       None \<Rightarrow> s
                     | Some debit \<Rightarrow>
                         post ctx (disputeEntry ctx dispute attemptId earning DISPUTE_RELEASE
                           (- le_amountCents debit)
                           (DisputeReleaseKey (ds_stripeDisputeId dispute))) s)
               else s))"

section \<open>Which tables posting touches\<close>

lemma post_frame [simp]:
  "users (post c e s) = users s" "shows_tbl (post c e s) = shows_tbl s"
  "showTiers (post c e s) = showTiers s" "queueEntries (post c e s) = queueEntries s"
  "calls (post c e s) = calls s" "callerNotes (post c e s) = callerNotes s"
  "callSignals (post c e s) = callSignals s" "callPresence (post c e s) = callPresence s"
  "paymentAttempts (post c e s) = paymentAttempts s" "paymentRefunds (post c e s) = paymentRefunds s"
  "paymentDisputes (post c e s) = paymentDisputes s" "stripeEvents (post c e s) = stripeEvents s"
  "paymentProfiles (post c e s) = paymentProfiles s" "payoutAccounts (post c e s) = payoutAccounts s"
  "payoutRuns (post c e s) = payoutRuns s" "payoutItems (post c e s) = payoutItems s"
  "payoutEvents (post c e s) = payoutEvents s" "profiles (post c e s) = profiles s"
  "follows (post c e s) = follows s" "followingCounts (post c e s) = followingCounts s"
  "followerShards (post c e s) = followerShards s"
  "followerProjections (post c e s) = followerProjections s" "liveEvents (post c e s) = liveEvents s"
  "emailPreferences (post c e s) = emailPreferences s"
  "notificationReads (post c e s) = notificationReads s" "channelVisits (post c e s) = channelVisits s"
  "channelStats (post c e s) = channelStats s" "rateLimits (post c e s) = rateLimits s"
  "jobs (post c e s) = jobs s"
  by (simp_all add: postEntry_def addToBalance_def insertEntry_def split: option.split)

text \<open>Every ledger operation is a single conditional posting.\<close>

lemma creditEarning_cases: "creditEarning c a i t s = s \<or> (\<exists>e. creditEarning c a i t s = post c e s)"
  by (auto simp: creditEarning_def)

lemma reverseForRefund_cases: "reverseForRefund c r s = s \<or> (\<exists>e. reverseForRefund c r s = post c e s)"
  by (auto simp: reverseForRefund_def Let_def split: option.split)

lemma adjustForDispute_cases: "adjustForDispute c d s = s \<or> (\<exists>e. adjustForDispute c d s = post c e s)"
  by (auto simp: adjustForDispute_def split: option.split)

section \<open>The running total is the sum of the entries\<close>

definition entries_of :: "db \<Rightarrow> id \<Rightarrow> string \<Rightarrow> ledger_doc list" where
  "entries_of s creator cur =
     filter (\<lambda>e. le_creatorId e = creator \<and> le_currency e = cur) (ledgerEntries s)"

definition ledger_sum :: "db \<Rightarrow> id \<Rightarrow> string \<Rightarrow> int" where
  "ledger_sum s creator cur = sum_list (map le_amountCents (entries_of s creator cur))"

definition balance_cents :: "db \<Rightarrow> id \<Rightarrow> string \<Rightarrow> int" where
  "balance_cents s creator cur =
     (case balanceFor s creator cur of Some b \<Rightarrow> cb_totalCents b | None \<Rightarrow> 0)"

definition ledger_ok :: "db \<Rightarrow> bool" where
  "ledger_ok s \<longleftrightarrow> distinct (map le_idempotencyKey (ledgerEntries s)) \<and>
     distinct (map (\<lambda>b. (cb_creatorId b, cb_currency b)) (creatorBalances s)) \<and>
     (\<forall>creator cur. balance_cents s creator cur = ledger_sum s creator cur)"

lemma post_cases:
  obtains "le_amountCents e = 0 \<or> entryByKey s (le_idempotencyKey e) \<noteq> None" "post c e s = s"
  | "le_amountCents e \<noteq> 0" "entryByKey s (le_idempotencyKey e) = None"
    "post c e s = addToBalance c e (insertEntry c e s)"
  by (cases "le_amountCents e = 0 \<or> entryByKey s (le_idempotencyKey e) \<noteq> None")
     (auto simp: postEntry_def)

lemma addToBalance_simps [simp]:
  "ledgerEntries (addToBalance c e s) = ledgerEntries s"
  by (simp add: addToBalance_def split: option.split)

lemma insertEntry_simps [simp]:
  "ledgerEntries (insertEntry c e s) = db_insert (ledgerEntries s) (e\<lparr>did := nextId s, ctime := now c\<rparr>)"
  "creatorBalances (insertEntry c e s) = creatorBalances s"
  "nextId (insertEntry c e s) = Suc (nextId s)"
  by (simp_all add: insertEntry_def)

lemma ledger_sum_insert:
  "ledger_sum (insertEntry c e s) creator cur = ledger_sum s creator cur
     + (if le_creatorId e = creator \<and> le_currency e = cur then le_amountCents e else 0)"
  by (simp add: ledger_sum_def entries_of_def sum_db_insert)

lemma balance_addToBalance:
  assumes "wf_table n (creatorBalances s)"
  shows "balance_cents (addToBalance c e s) creator cur = balance_cents s creator cur
     + (if le_creatorId e = creator \<and> le_currency e = cur then le_amountCents e else 0)"
proof (cases "balanceFor s (le_creatorId e) (le_currency e)")
  case None
  then show ?thesis
    by (auto simp: balance_cents_def addToBalance_def balanceFor_def first_by_insert
        split: option.split)
next
  case (Some b)
  have b: "b \<in> set (creatorBalances s)" "cb_creatorId b = le_creatorId e" "cb_currency b = le_currency e"
    using Some by (auto simp: balanceFor_def dest: first_by_SomeD)
  have other: "did b' \<noteq> did b"
    if "balanceFor s creator cur = Some b'" "\<not> (le_creatorId e = creator \<and> le_currency e = cur)" for b'
    using that b wf_table_inj [OF assms, of b' b] by (auto simp: balanceFor_def dest!: first_by_SomeD)
  show ?thesis
    using Some b other
    by (auto simp: balance_cents_def addToBalance_def balanceFor_def first_by_patch split: option.split)
qed

lemma post_totals:
  assumes "wf_table (nextId s) (creatorBalances s)"
    and "balance_cents s creator cur = ledger_sum s creator cur"
  shows "balance_cents (post c e s) creator cur = ledger_sum (post c e s) creator cur"
proof (cases rule: post_cases [of e s c])
  case 1
  then show ?thesis using assms by simp
next
  case 2
  have "ledger_sum (post c e s) creator cur = ledger_sum (insertEntry c e s) creator cur"
    by (simp add: 2(3) ledger_sum_def entries_of_def)
  moreover have "balance_cents (insertEntry c e s) creator cur = balance_cents s creator cur"
    by (simp add: balance_cents_def balanceFor_def)
  ultimately show ?thesis
    using assms balance_addToBalance [of "nextId s" "insertEntry c e s" c e creator cur]
    by (simp add: 2(3) ledger_sum_insert)
qed

lemma post_keys:
  "set (ledgerEntries (post c e s)) =
     (if le_amountCents e = 0 \<or> entryByKey s (le_idempotencyKey e) \<noteq> None then set (ledgerEntries s)
      else insert (e\<lparr>did := nextId s, ctime := now c\<rparr>) (set (ledgerEntries s)))"
  by (cases rule: post_cases [of e s c]) auto

lemma addToBalance_rows:
  assumes "distinct (map (\<lambda>b. (cb_creatorId b, cb_currency b)) (creatorBalances s))"
  shows "distinct (map (\<lambda>b. (cb_creatorId b, cb_currency b)) (creatorBalances (addToBalance c e s)))"
  using assms
  by (auto simp: addToBalance_def map_db_patch balanceFor_def first_by_None db_insert_def
      split: option.split)

lemma post_ledger_ok:
  assumes "wf_table (nextId s) (creatorBalances s)" "ledger_ok s"
  shows "ledger_ok (post c e s)"
proof -
  have "distinct (map le_idempotencyKey (ledgerEntries (post c e s)))"
    using assms(2)
    by (cases rule: post_cases [of e s c])
       (auto simp: ledger_ok_def entryByKey_def first_by_None db_insert_def)
  moreover have "distinct (map (\<lambda>b. (cb_creatorId b, cb_currency b)) (creatorBalances (post c e s)))"
    using assms(2)
    by (cases rule: post_cases [of e s c]) (simp_all add: ledger_ok_def addToBalance_rows)
  ultimately show ?thesis
    using assms post_totals [OF assms(1)] by (simp add: ledger_ok_def)
qed

lemma addToBalance_wf:
  assumes "wf_table (nextId s) (creatorBalances s)"
  shows "wf_table (nextId (addToBalance c e s)) (creatorBalances (addToBalance c e s))"
proof (cases "balanceFor s (le_creatorId e) (le_currency e)")
  case None
  then show ?thesis using assms by (simp add: addToBalance_def tbl.wf_ins)
next
  case (Some b)
  then show ?thesis using assms by (simp add: addToBalance_def tbl.wf_patch)
qed

lemma addToBalance_nextId: "nextId s \<le> nextId (addToBalance c e s)"
  by (simp add: addToBalance_def split: option.split)

lemma post_nextId: "nextId s \<le> nextId (post c e s)"
  using addToBalance_nextId [of "insertEntry c e s" c e]
  by (cases rule: post_cases [of e s c]) simp_all

lemma post_wf_entries:
  assumes "wf_table (nextId s) (ledgerEntries s)"
  shows "wf_table (nextId (post c e s)) (ledgerEntries (post c e s))"
proof (cases rule: post_cases [of e s c])
  case 1
  then show ?thesis using assms by simp
next
  case 2
  have "wf_table (Suc (nextId s)) (db_insert (ledgerEntries s) (e\<lparr>did := nextId s, ctime := now c\<rparr>))"
    using assms by (rule tbl.wf_ins) simp
  then show ?thesis
    using addToBalance_nextId [of "insertEntry c e s" c e] by (simp add: 2(3) wf_table_mono)
qed

lemma post_wf_balances:
  assumes "wf_table (nextId s) (creatorBalances s)"
  shows "wf_table (nextId (post c e s)) (creatorBalances (post c e s))"
proof (cases rule: post_cases [of e s c])
  case 1
  then show ?thesis using assms by simp
next
  case 2
  show ?thesis
    unfolding 2(3) by (rule addToBalance_wf) (simp add: assms wf_table_Suc)
qed

lemma balanceAt_sums:
  assumes "ledger_ok s"
  shows "bs_totalCents (balanceAt s creator cur t) = ledger_sum s creator cur"
    and "bs_pendingCents (balanceAt s creator cur t)
           = sum_list (map le_amountCents (filter (\<lambda>e. le_effectiveAt e > t) (entries_of s creator cur)))"
    and "bs_availableCents (balanceAt s creator cur t)
           = sum_list (map le_amountCents (filter (\<lambda>e. le_effectiveAt e \<le> t) (entries_of s creator cur)))"
proof -
  show total: "bs_totalCents (balanceAt s creator cur t) = ledger_sum s creator cur"
    using assms by (simp add: balanceAt_def Let_def ledger_ok_def balance_cents_def)
  show pending: "bs_pendingCents (balanceAt s creator cur t)
      = sum_list (map le_amountCents (filter (\<lambda>e. le_effectiveAt e > t) (entries_of s creator cur)))"
    by (simp add: balanceAt_def Let_def entries_of_def conj_ac)
  have "bs_availableCents (balanceAt s creator cur t)
      = bs_totalCents (balanceAt s creator cur t) - bs_pendingCents (balanceAt s creator cur t)"
    by (simp add: balanceAt_def Let_def)
  then show "bs_availableCents (balanceAt s creator cur t)
      = sum_list (map le_amountCents (filter (\<lambda>e. le_effectiveAt e \<le> t) (entries_of s creator cur)))"
    using sum_list_filter_add [of le_amountCents "\<lambda>e. le_effectiveAt e > t" "entries_of s creator cur"]
    unfolding total pending ledger_sum_def by (simp add: not_less)
qed

section \<open>Replaying postings\<close>

text \<open>
  Actions are retried and webhooks redelivered, so the same posting can reach the ledger again.
  What makes that harmless is a contract of three laws, stated and used apart from the tables.
\<close>

locale idempotent_posting =
  fixes put :: "'e \<Rightarrow> 's \<Rightarrow> 's"
    and posted :: "'s \<Rightarrow> 'k set"
    and key :: "'e \<Rightarrow> 'k"
    and void :: "'e \<Rightarrow> bool"
  assumes put_void: "void e \<Longrightarrow> put e s = s"
    and put_seen: "key e \<in> posted s \<Longrightarrow> put e s = s"
    and put_new: "\<not> void e \<Longrightarrow> posted (put e s) = insert (key e) (posted s)"
begin

lemma posted_put_mono: "posted s \<subseteq> posted (put e s)"
  by (cases "void e") (auto simp: put_void put_new)

lemma posted_fold_mono: "posted s \<subseteq> posted (fold put es s)"
proof (induction es arbitrary: s)
  case (Cons e es)
  then show ?case using posted_put_mono [of s e] by fastforce
qed simp

lemma posted_fold: "e \<in> set es \<Longrightarrow> \<not> void e \<Longrightarrow> key e \<in> posted (fold put es s)"
proof (induction es arbitrary: s)
  case (Cons x es)
  show ?case
  proof (cases "e = x")
    case True
    then show ?thesis using put_new [of x s] posted_fold_mono [of "put x s" es] Cons.prems(2) by auto
  next
    case False
    then show ?thesis using Cons by simp
  qed
qed simp

lemma fold_put_seen: "(\<forall>e\<in>set es. void e \<or> key e \<in> posted s) \<Longrightarrow> fold put es s = s"
  by (induction es) (auto simp: put_void put_seen)

lemma replay:
  assumes "\<forall>e'\<in>set es'. void e' \<or> (\<exists>e\<in>set es. \<not> void e \<and> key e = key e')"
  shows "fold put es' (fold put es s) = fold put es s"
  using assms posted_fold [of _ es s] by (intro fold_put_seen) metis

end

definition posted_keys :: "db \<Rightarrow> ledger_key set" where
  "posted_keys s = le_idempotencyKey ` set (ledgerEntries s)"

lemma entryByKey_None_iff: "entryByKey s k = None \<longleftrightarrow> k \<notin> posted_keys s"
  by (auto simp: entryByKey_def posted_keys_def first_by_None)

interpretation lp: idempotent_posting "\<lambda>(c, e). post c e" posted_keys "\<lambda>(c, e). le_idempotencyKey e"
  "\<lambda>(c, e). le_amountCents e = 0"
proof (unfold_locales, goal_cases)
  case (1 e s)
  then show ?case by (cases e) (simp add: postEntry_def)
next
  case (2 e s)
  then show ?case by (cases e) (auto simp: postEntry_def entryByKey_None_iff)
next
  case (3 e s)
  then show ?case
    by (cases e) (auto simp: post_keys posted_keys_def entryByKey_None_iff [unfolded posted_keys_def])
qed

section \<open>Refunds never take back more than was earned\<close>

definition earned_cents :: "db \<Rightarrow> id \<Rightarrow> int" where
  "earned_cents s attemptId = (case earningFor s attemptId of Some e \<Rightarrow> le_amountCents e | None \<Rightarrow> 0)"

definition reversed_cents :: "db \<Rightarrow> id \<Rightarrow> int" where
  "reversed_cents s attemptId = - sum_list (map le_amountCents
     (filter (\<lambda>e. le_paymentAttemptId e = Some attemptId \<and> le_kind e = REFUND_REVERSAL) (ledgerEntries s)))"

definition reversals_ok :: "db \<Rightarrow> bool" where
  "reversals_ok s \<longleftrightarrow> (\<forall>a. reversed_cents s a \<le> max 0 (earned_cents s a))"

lemma earningFor_post:
  "earningFor (post c e s) a = (case earningFor s a of Some x \<Rightarrow> Some x
     | None \<Rightarrow> if ledgerEntries (post c e s) \<noteq> ledgerEntries s \<and> le_paymentAttemptId e = Some a
                 \<and> le_kind e = EARNING then Some (e\<lparr>did := nextId s, ctime := now c\<rparr>) else None)"
  by (cases rule: post_cases [of e s c])
     (auto simp: earningFor_def first_by_insert split: option.split)

lemma reversed_post:
  "reversed_cents (post c e s) a = reversed_cents s a -
     (if ledgerEntries (post c e s) \<noteq> ledgerEntries s \<and> le_paymentAttemptId e = Some a
         \<and> le_kind e = REFUND_REVERSAL then le_amountCents e else 0)"
  by (cases rule: post_cases [of e s c]) (auto simp: reversed_cents_def db_insert_def)

lemma post_reversals_ok:
  assumes "reversals_ok s" "le_kind e \<noteq> REFUND_REVERSAL"
  shows "reversals_ok (post c e s)"
  unfolding reversals_ok_def
proof
  fix a
  have "reversed_cents s a \<le> max 0 (earned_cents s a)"
    using assms(1) by (simp add: reversals_ok_def)
  then show "reversed_cents (post c e s) a \<le> max 0 (earned_cents (post c e s) a)"
    using assms(2) by (auto simp: reversed_post earned_cents_def earningFor_post split: option.splits)
qed

lemma creditEarning_reversals_ok: "reversals_ok s \<Longrightarrow> reversals_ok (creditEarning c a i t s)"
  by (simp add: creditEarning_def post_reversals_ok)

lemma adjustForDispute_reversals_ok: "reversals_ok s \<Longrightarrow> reversals_ok (adjustForDispute c d s)"
  by (auto simp: adjustForDispute_def disputeEntry_def post_reversals_ok split: option.split)

lemma reversedByOthers_fresh:
  assumes "entryByKey s (RefundKey (did r)) = None"
  shows "reversedByOthers s r = reversed_cents s (rf_paymentAttemptId r)"
proof -
  have "filter (\<lambda>e. le_idempotencyKey e \<noteq> RefundKey (did r)) (filter P (ledgerEntries s))
      = filter P (ledgerEntries s)" for P
    using assms by (auto simp: entryByKey_def first_by_None intro!: filter_cong)
  then show ?thesis by (simp only: reversedByOthers_def reversed_cents_def)
qed

lemma reverseForRefund_reversals_ok:
  assumes "reversals_ok s"
  shows "reversals_ok (reverseForRefund c r s)"
proof (cases "earningFor s (rf_paymentAttemptId r)")
  case None
  then show ?thesis using assms by (simp add: reverseForRefund_def)
next
  case (Some earning)
  let ?amount = "min (refundShare s r earning) (le_amountCents earning - reversedByOthers s r)"
  show ?thesis
  proof (cases "?amount \<le> 0")
    case True
    then show ?thesis using assms Some by (simp add: reverseForRefund_def)
  next
    case False
    then obtain e where e: "reverseForRefund c r s = post c e s" "le_amountCents e = - ?amount"
      "le_kind e = REFUND_REVERSAL" "le_paymentAttemptId e = Some (rf_paymentAttemptId r)"
      "le_idempotencyKey e = RefundKey (did r)"
      using Some by (auto simp: reverseForRefund_def Let_def)
    show ?thesis
      unfolding reversals_ok_def e(1)
    proof
      fix a
      have old: "reversed_cents s a \<le> max 0 (earned_cents s a)"
        using assms by (simp add: reversals_ok_def)
      have earned: "earned_cents (post c e s) a = earned_cents s a"
        using e(3) by (simp add: earned_cents_def earningFor_post split: option.split)
      show "reversed_cents (post c e s) a \<le> max 0 (earned_cents (post c e s) a)"
      proof (cases "ledgerEntries (post c e s) \<noteq> ledgerEntries s \<and> a = rf_paymentAttemptId r")
        case True
        then have "entryByKey s (RefundKey (did r)) = None"
          using e(5) by (cases rule: post_cases [of e s c]) auto
        then have "?amount \<le> earned_cents s a - reversed_cents s a"
          using True Some by (simp add: reversedByOthers_fresh earned_cents_def)
        then show ?thesis using True e(2-4) earned by (simp add: reversed_post)
      next
        case False
        then show ?thesis using old e(4) by (auto simp: reversed_post earned)
      qed
    qed
  qed
qed

section \<open>A resolved dispute gives back exactly what it held\<close>

definition disputes_ok :: "db \<Rightarrow> bool" where
  "disputes_ok s \<longleftrightarrow> (\<forall>d release. entryByKey s (DisputeReleaseKey d) = Some release \<longrightarrow>
     (\<exists>debit. entryByKey s (DisputeDebitKey d) = Some debit
        \<and> le_amountCents release = - le_amountCents debit))"

lemma entryByKey_post:
  "entryByKey (post c e s) k = (case entryByKey s k of Some x \<Rightarrow> Some x
     | None \<Rightarrow> if le_amountCents e \<noteq> 0 \<and> le_idempotencyKey e = k
               then Some (e\<lparr>did := nextId s, ctime := now c\<rparr>) else None)"
  by (cases rule: post_cases [of e s c])
     (auto simp: entryByKey_def first_by_insert split: option.split)

lemma post_disputes_ok:
  assumes "disputes_ok s" "\<And>d. le_idempotencyKey e \<noteq> DisputeReleaseKey d"
  shows "disputes_ok (post c e s)"
  unfolding disputes_ok_def
proof (intro allI impI)
  fix d release
  assume "entryByKey (post c e s) (DisputeReleaseKey d) = Some release"
  then have "entryByKey s (DisputeReleaseKey d) = Some release"
    using assms(2) by (simp add: entryByKey_post split: option.splits)
  then obtain debit where "entryByKey s (DisputeDebitKey d) = Some debit"
    "le_amountCents release = - le_amountCents debit"
    using assms(1) by (auto simp: disputes_ok_def)
  then show "\<exists>debit. entryByKey (post c e s) (DisputeDebitKey d) = Some debit
      \<and> le_amountCents release = - le_amountCents debit"
    by (simp add: entryByKey_post)
qed

lemma adjustForDispute_disputes_ok:
  assumes "disputes_ok s"
  shows "disputes_ok (adjustForDispute c d s)"
proof -
  have "disputes_ok (post c e s)"
    if "entryByKey s (DisputeDebitKey x) = Some debit" "le_amountCents e = - le_amountCents debit"
      "le_idempotencyKey e = DisputeReleaseKey x" for e x debit
  proof (cases "entryByKey s (DisputeReleaseKey x)")
    case None
    show ?thesis
      unfolding disputes_ok_def
    proof (intro allI impI)
      fix d release
      assume *: "entryByKey (post c e s) (DisputeReleaseKey d) = Some release"
      show "\<exists>debit. entryByKey (post c e s) (DisputeDebitKey d) = Some debit
          \<and> le_amountCents release = - le_amountCents debit"
      proof (cases "d = x")
        case True
        then show ?thesis using * None that by (auto simp: entryByKey_post split: if_splits)
      next
        case False
        then have "entryByKey s (DisputeReleaseKey d) = Some release"
          using * that(3) by (simp add: entryByKey_post split: option.splits)
        then obtain debit where "entryByKey s (DisputeDebitKey d) = Some debit"
          "le_amountCents release = - le_amountCents debit"
          using assms by (auto simp: disputes_ok_def)
        then show ?thesis by (simp add: entryByKey_post)
      qed
    qed
  next
    case (Some r)
    then have "post c e s = s" using that(3) by (simp add: postEntry_def)
    then show ?thesis using assms by simp
  qed
  then show ?thesis
    using assms by (auto simp: adjustForDispute_def disputeEntry_def post_disputes_ok split: option.split)
qed

end
