(* ===== verification/Payments_Lib.thy ===== *)
theory Payments_Lib
  imports Ledger
begin

text \<open>
  Payment state changes shared by calls, the queue, the Stripe actions and the webhook,
  \<open>convex/lib/payments.ts\<close>.  Each function runs inside one mutation.  A document argument is
  the value its caller read, which may be older than the row it names; the model passes it along in
  the same way.
\<close>

definition scheduleCancel :: "ctx \<Rightarrow> attempt_doc \<Rightarrow> string \<Rightarrow> db \<Rightarrow> db" where
  "scheduleCancel ctx attempt reason s =
     (if truthy (pa_stripePaymentIntentId attempt)
         \<and> (pa_status attempt = Pay_CREATED \<or> pa_status attempt = Pay_AUTHORIZED)
      then runAfter ctx 0 (PaymentsCancelIntent (did attempt) reason) s
      else s)"

definition refundForAttempt :: "db \<Rightarrow> id \<Rightarrow> refund_doc option" where
  "refundForAttempt s attemptId = first_by (\<lambda>r. rf_paymentAttemptId r = attemptId) (paymentRefunds s)"

definition requestRefund :: "ctx \<Rightarrow> attempt_doc \<Rightarrow> id \<Rightarrow> string \<Rightarrow> db \<Rightarrow> db" where
  "requestRefund ctx attempt callId reason s =
     (case pa_stripePaymentIntentId attempt of
        None \<Rightarrow> s
      | Some intentId \<Rightarrow>
          if intentId = [] \<or> pa_status attempt \<noteq> Pay_CAPTURED then s
          else if refundForAttempt s (did attempt) \<noteq> None then s
          else (let refundId = nextId s
                in runAfter ctx 0 (RefundsRun refundId)
                     (bumpId (paymentRefunds_update (\<lambda>t. db_insert t
                       \<lparr>did = refundId, ctime = now ctx, rf_paymentAttemptId = did attempt,
                        rf_callId = callId, rf_stripePaymentIntentId = intentId,
                        rf_stripeRefundId = None, rf_amountCents = pa_amountCents attempt,
                        rf_currency = pa_currency attempt, rf_reason = reason,
                        rf_status = Ref_REQUESTED, rf_attempts = 0, rf_failureCode = None,
                        rf_nextAttemptAt = now ctx, rf_processedAt = None\<rparr>) s))))"

definition callForAttempt :: "db \<Rightarrow> id \<Rightarrow> call_doc option" where
  "callForAttempt s attemptId = first_by (\<lambda>c. c_paymentAttemptId c = Some attemptId) (calls s)"

definition showIsLive :: "db \<Rightarrow> id \<Rightarrow> bool" where
  "showIsLive s showId = (case db_get (shows_tbl s) showId of
     Some sh \<Rightarrow> sh_status sh = Show_LIVE | None \<Rightarrow> False)"

text \<open>The first statement of \<open>recordCaptured\<close>, then the rest over the attempt as re-read.\<close>

definition markCaptured :: "ctx \<Rightarrow> attempt_doc \<Rightarrow> db \<Rightarrow> db" where
  "markCaptured ctx attempt s =
     (if pa_status attempt \<noteq> Pay_CAPTURED
      then patchAttempt (did attempt) (\<lambda>a. a\<lparr>pa_status := Pay_CAPTURED,
             pa_capturedAt := Some (case pa_capturedAt attempt of Some t \<Rightarrow> t | None \<Rightarrow> now ctx)\<rparr>) s
      else s)"

definition failPendingCall :: "ctx \<Rightarrow> call_doc \<Rightarrow> db \<Rightarrow> db" where
  "failPendingCall ctx call s =
     (if c_status call = Call_PAYMENT_PENDING
      then patchEntry (c_queueEntryId call) (\<lambda>e. e\<lparr>q_status := Q_ENDED\<rparr>)
             (patchCall (did call) (\<lambda>c. c\<lparr>c_status := Call_FAILED, c_endedAt := Some (now ctx)\<rparr>) s)
      else s)"

definition recordCaptured :: "ctx \<Rightarrow> attempt_doc \<Rightarrow> db \<Rightarrow> db" where
  "recordCaptured ctx attempt s0 =
     (let s = markCaptured ctx attempt s0;
          captured = (case db_get (paymentAttempts s) (did attempt) of Some a \<Rightarrow> a | None \<Rightarrow> attempt)
      in case callForAttempt s (did attempt) of
           None \<Rightarrow> s
         | Some call \<Rightarrow>
             (let showLive = showIsLive s (c_showId call)
              in if c_status call = Call_PAYMENT_PENDING \<and> showLive
                 then patchCall (did call) (\<lambda>c. c\<lparr>c_status := Call_CREATED\<rparr>) s
                 else if c_startedAt call = None \<and> \<not> showLive
                 then requestRefund ctx captured (did call) ''show_ended_before_call_started''
                        (failPendingCall ctx call s)
                 else s))"

definition waitingOnPayment :: "queue_doc \<Rightarrow> call_doc option \<Rightarrow> bool" where
  "waitingOnPayment entry call \<longleftrightarrow> q_status entry = Q_WAITING \<or>
     (q_status entry = Q_SELECTED \<and>
        (case call of Some c \<Rightarrow> c_status c = Call_PAYMENT_PENDING | None \<Rightarrow> False))"

definition releaseEntry :: "ctx \<Rightarrow> attempt_doc \<Rightarrow> call_doc option \<Rightarrow> db \<Rightarrow> db" where
  "releaseEntry ctx attempt call s =
     (case pa_queueEntryId attempt of
        None \<Rightarrow> s
      | Some entryId \<Rightarrow>
          (case db_get (queueEntries s) entryId of
             None \<Rightarrow> s
           | Some entry \<Rightarrow>
               if waitingOnPayment entry call
               then patchEntry entryId (\<lambda>e. e\<lparr>q_status := Q_LEFT, q_leftAt := Some (now ctx)\<rparr>) s
               else s))"

definition recordNotCaptured ::
    "ctx \<Rightarrow> attempt_doc \<Rightarrow> payment_status \<Rightarrow> string option \<Rightarrow> db \<Rightarrow> db" where
  "recordNotCaptured ctx attempt status failureCode s0 =
     (if pa_status attempt = Pay_CAPTURED then s0
      else (let s = patchAttempt (did attempt) (\<lambda>a. a\<lparr>pa_status := status,
                      pa_failureCode := failureCode,
                      pa_canceledAt := (if status = Pay_CANCELED
                        then Some (case pa_canceledAt attempt of Some t \<Rightarrow> t | None \<Rightarrow> now ctx)
                        else pa_canceledAt a)\<rparr>) s0;
                call = callForAttempt s (did attempt);
                s' = (case call of
                        Some c \<Rightarrow> if c_status c = Call_PAYMENT_PENDING
                          then patchCall (did c) (\<lambda>d. d\<lparr>c_status := Call_FAILED,
                                 c_endedAt := Some (now ctx)\<rparr>) s
                          else s
                      | None \<Rightarrow> s)
            in releaseEntry ctx attempt call s'))"

end
