(* ===== verification/Auth.thy ===== *)
theory Auth
  imports Schema
begin

text \<open>
  Who is calling, \<open>convex/lib/auth.ts\<close>.  \<open>getAuthUserId\<close> belongs to
  \<open>@convex-dev/auth\<close>; what it returns is the field \<open>authUserId\<close> of the context.
\<close>

definition requireUserId :: "ctx \<Rightarrow> error_code + id" where
  "requireUserId ctx = (case authUserId ctx of None \<Rightarrow> Inl UNAUTHENTICATED | Some i \<Rightarrow> Inr i)"

text \<open>\<open>!user || user.isAnonymous || !user.username\<close>: an empty username is falsy too.\<close>

definition is_creator :: "user_doc \<Rightarrow> bool" where
  "is_creator u \<longleftrightarrow> u_isAnonymous u \<noteq> Some True \<and> u_username u \<noteq> None \<and> u_username u \<noteq> Some []"

definition requireCreatorId :: "ctx \<Rightarrow> db \<Rightarrow> error_code + id" where
  "requireCreatorId ctx s = bindE (requireUserId ctx) (\<lambda>userId.
     case db_get (users s) userId of
       None \<Rightarrow> Inl UNAUTHENTICATED
     | Some user \<Rightarrow> if is_creator user then Inr userId else Inl UNAUTHENTICATED)"

lemma requireUserId_Inr [simp]: "requireUserId ctx = Inr i \<longleftrightarrow> authUserId ctx = Some i"
  by (simp add: requireUserId_def split: option.split)

lemma requireCreatorId_Inr [simp]:
  "requireCreatorId ctx s = Inr i \<longleftrightarrow>
     authUserId ctx = Some i \<and> (\<exists>u. db_get (users s) i = Some u \<and> is_creator u)"
  by (auto simp: requireCreatorId_def split: option.splits if_splits)

lemma requireCreatorId_Inl:
  "requireCreatorId ctx s = Inl e \<Longrightarrow> e = UNAUTHENTICATED"
  by (auto simp: requireCreatorId_def requireUserId_def bindE_eq_Inl split: option.splits if_splits)

end
