(* ===== verification/Calls_Lib.thy ===== *)
theory Calls_Lib
  imports Payments_Lib Auth
begin

text \<open>
  The call lifecycle shared by \<open>calls.ts\<close>, \<open>presence.ts\<close>, \<open>signals.ts\<close> and
  \<open>shows.ts\<close>: \<open>convex/lib/calls.ts\<close>.
\<close>

definition ACTIVE_CALL_STATUSES :: "call_status list" where
  "ACTIVE_CALL_STATUSES = [Call_PAYMENT_PENDING, Call_CREATED, Call_CONNECTING, Call_LIVE]"

definition CONNECTABLE_STATUSES :: "call_status list" where
  "CONNECTABLE_STATUSES = [Call_CREATED, Call_CONNECTING, Call_LIVE]"

definition PRESENCE_TTL_MS :: int where "PRESENCE_TTL_MS = 30000"

definition DISCONNECT_GRACE_MS :: int where "DISCONNECT_GRACE_MS = 20000"

fun TRANSITIONS :: "call_status \<Rightarrow> call_status list" where
  "TRANSITIONS Call_PAYMENT_PENDING = []"
| "TRANSITIONS Call_CREATED = [Call_CONNECTING, Call_ENDED, Call_FAILED]"
| "TRANSITIONS Call_CONNECTING = [Call_LIVE, Call_ENDED, Call_FAILED]"
| "TRANSITIONS Call_LIVE = [Call_ENDED, Call_FAILED]"
| "TRANSITIONS Call_ENDED = []"
| "TRANSITIONS Call_FAILED = []"

definition canTransition :: "call_status \<Rightarrow> call_status \<Rightarrow> bool" where
  "canTransition from to \<longleftrightarrow> to \<in> set (TRANSITIONS from)"

text \<open>The \<open>for\<close> loop over the active statuses, first hit wins.\<close>

fun firstCallWithStatus :: "db \<Rightarrow> id \<Rightarrow> call_status list \<Rightarrow> call_doc option" where
  "firstCallWithStatus s showId [] = None"
| "firstCallWithStatus s showId (status # rest) =
     (case first_by (\<lambda>c. c_showId c = showId \<and> c_status c = status) (calls s) of
        Some call \<Rightarrow> Some call
      | None \<Rightarrow> firstCallWithStatus s showId rest)"

definition activeCallForShow :: "db \<Rightarrow> id \<Rightarrow> call_doc option" where
  "activeCallForShow s showId = firstCallWithStatus s showId ACTIVE_CALL_STATUSES"

definition callForParticipant :: "ctx \<Rightarrow> id \<Rightarrow> db \<Rightarrow> error_code + call_doc \<times> call_role" where
  "callForParticipant ctx callId s = bindE (requireUserId ctx) (\<lambda>userId.
     case db_get (calls s) callId of
       None \<Rightarrow> Inl CALL_NOT_FOUND
     | Some call \<Rightarrow> if c_creatorId call = userId then Inr (call, Creator)
                     else if c_viewerId call = userId then Inr (call, Viewer)
                     else Inl CALL_NOT_FOUND)"

section \<open>applyTransition\<close>

definition goesLive :: "call_doc \<Rightarrow> call_status \<Rightarrow> bool" where
  "goesLive call target \<longleftrightarrow> target = Call_LIVE \<and> c_startedAt call = None"

definition finishes :: "call_status \<Rightarrow> bool" where
  "finishes target \<longleftrightarrow> target = Call_ENDED \<or> target = Call_FAILED"

definition expiryOf :: "ctx \<Rightarrow> call_doc \<Rightarrow> int" where
  "expiryOf ctx call = now ctx + c_callDurationSeconds call * 1000"

text \<open>The object \<open>patch\<close> that the code assembles and applies to the call.\<close>

definition callPatch :: "ctx \<Rightarrow> call_doc \<Rightarrow> call_status \<Rightarrow> call_doc \<Rightarrow> call_doc" where
  "callPatch ctx call target c = c\<lparr>c_status := target,
     c_startedAt := (if goesLive call target then Some (now ctx) else c_startedAt c),
     c_expiresAt := (if goesLive call target then Some (expiryOf ctx call) else c_expiresAt c),
     c_endedAt := (if finishes target then Some (now ctx) else c_endedAt c)\<rparr>"

definition scheduleExpiry :: "ctx \<Rightarrow> call_doc \<Rightarrow> call_status \<Rightarrow> db \<Rightarrow> db" where
  "scheduleExpiry ctx call target s =
     (if goesLive call target then runAt (expiryOf ctx call) (CallsExpire (did call)) s else s)"

definition attemptOf :: "db \<Rightarrow> call_doc \<Rightarrow> attempt_doc option" where
  "attemptOf s call = (case c_paymentAttemptId call of
     Some a \<Rightarrow> db_get (paymentAttempts s) a | None \<Rightarrow> None)"

definition creditIfLive :: "ctx \<Rightarrow> call_doc \<Rightarrow> call_status \<Rightarrow> db \<Rightarrow> db" where
  "creditIfLive ctx call target s =
     (if goesLive call target
      then (case attemptOf s call of
              Some attempt \<Rightarrow> creditEarning ctx attempt (did call) (now ctx) s
            | None \<Rightarrow> s)
      else s)"

definition entryStatusFor :: "call_status \<Rightarrow> queue_status" where
  "entryStatusFor target = (if target = Call_CONNECTING then Q_CONNECTING
     else if target = Call_LIVE then Q_LIVE else Q_ENDED)"

definition refundIfNeverLive :: "ctx \<Rightarrow> call_doc \<Rightarrow> call_status \<Rightarrow> db \<Rightarrow> db" where
  "refundIfNeverLive ctx call target s =
     (if c_startedAt call = None
      then (case attemptOf s call of
              Some attempt \<Rightarrow> requestRefund ctx attempt (did call)
                (if target = Call_FAILED then ''call_failed_before_live''
                 else ''call_ended_before_live'') s
            | None \<Rightarrow> s)
      else s)"

definition dropPresence :: "id \<Rightarrow> db \<Rightarrow> db" where
  "dropPresence callId s = callPresence_update (filter (\<lambda>p. pr_callId p \<noteq> callId)) s"

definition cleanUpFinished :: "ctx \<Rightarrow> call_doc \<Rightarrow> call_status \<Rightarrow> db \<Rightarrow> db" where
  "cleanUpFinished ctx call target s =
     (if finishes target
      then dropPresence (did call)
             (runAfter ctx 0 (SignalsPurge (did call)) (refundIfNeverLive ctx call target s))
      else s)"

definition applyTransition :: "ctx \<Rightarrow> call_doc \<Rightarrow> call_status \<Rightarrow> db \<Rightarrow> error_code + call_doc \<times> db" where
  "applyTransition ctx call target s0 =
     (if c_status call = target then Inr (call, s0)
      else if \<not> canTransition (c_status call) target then Inl INVALID_CALL_STATE
      else (let s1 = creditIfLive ctx call target (scheduleExpiry ctx call target s0);
                s2 = patchEntry (c_queueEntryId call)
                       (\<lambda>e. e\<lparr>q_status := entryStatusFor target\<rparr>)
                       (patchCall (did call) (callPatch ctx call target) s1);
                s3 = cleanUpFinished ctx call target s2
            in Inr (case db_get (calls s3) (did call) of Some c \<Rightarrow> c | None \<Rightarrow> call, s3)))"

section \<open>The caller details a creator sees\<close>

record caller_view =
  cw_id :: id
  cw_displayName :: string
  cw_topic :: string
  cw_tierName :: string
  cw_priorityRank :: int
  cw_callDurationSeconds :: int
  cw_priceCents :: int

record call_view =
  vw_id :: id
  vw_showId :: id
  vw_queueEntryId :: id
  vw_status :: call_status
  vw_selectionMode :: selection_mode
  vw_callDurationSeconds :: int
  vw_startedAt :: "int option"
  vw_endedAt :: "int option"
  vw_expiresAt :: "int option"
  vw_createdAt :: int
  vw_creatorDisconnectedAt :: "int option"
  vw_viewerDisconnectedAt :: "int option"
  vw_caller :: "caller_view option"

definition presenceDisconnectedAt :: "db \<Rightarrow> id \<Rightarrow> call_role \<Rightarrow> int option" where
  "presenceDisconnectedAt s callId role =
     (case first_by (\<lambda>p. pr_role p = role) (filter (\<lambda>p. pr_callId p = callId) (callPresence s)) of
        Some row \<Rightarrow> pr_disconnectedAt row | None \<Rightarrow> None)"

definition withCaller :: "db \<Rightarrow> call_doc \<Rightarrow> call_view" where
  "withCaller s call =
     \<lparr>vw_id = did call, vw_showId = c_showId call, vw_queueEntryId = c_queueEntryId call,
      vw_status = c_status call, vw_selectionMode = c_selectionMode call,
      vw_callDurationSeconds = c_callDurationSeconds call, vw_startedAt = c_startedAt call,
      vw_endedAt = c_endedAt call, vw_expiresAt = c_expiresAt call, vw_createdAt = ctime call,
      vw_creatorDisconnectedAt = presenceDisconnectedAt s (did call) Creator,
      vw_viewerDisconnectedAt = presenceDisconnectedAt s (did call) Viewer,
      vw_caller = map_option (\<lambda>e. \<lparr>cw_id = did e, cw_displayName = q_displayName e,
         cw_topic = q_topic e, cw_tierName = q_tierName e, cw_priorityRank = q_priorityRank e,
         cw_callDurationSeconds = q_callDurationSeconds e, cw_priceCents = q_tierPriceCents e\<rparr>)
         (db_get (queueEntries s) (c_queueEntryId call))\<rparr>"

end
