(* ===== verification/Social_Lib.thy ===== *)
theory Social_Lib
  imports Auth
begin

text \<open>
  Social helpers of \<open>convex/lib/social.ts\<close> with the entry point
  \<open>queueLiveAlert\<close> of \<open>convex/liveAlerts.ts\<close> and the topics of
  \<open>convex/lib/topics.ts\<close>: profiles, the projection of a show onto its creator's profile, the
  public view, and the fixed-window rate limit.  \<open>ctx.storage.getUrl\<close> is Convex's file storage
  and is a parameter of the functions that read it.
\<close>

section \<open>Topics\<close>

definition TOPICS :: "string list" where
  "TOPICS = [''Advice'', ''Music'', ''Gaming'', ''Comedy'', ''Sports'', ''Fitness'', ''Wellness'',
     ''Relationships'', ''Money'', ''Tech'', ''Art'', ''Fashion'']"

definition MAX_TOPICS :: nat where "MAX_TOPICS = 3"

definition isTopic :: "string \<Rightarrow> bool" where
  "isTopic v \<longleftrightarrow> v \<in> set TOPICS"

section \<open>Profiles\<close>

fun join_with :: "string \<Rightarrow> string list \<Rightarrow> string" where
  "join_with sep [] = []"
| "join_with sep [x] = x"
| "join_with sep (x # y # xs) = x @ sep @ join_with sep (y # xs)"

definition searchText :: "string \<Rightarrow> string \<Rightarrow> string \<Rightarrow> string list \<Rightarrow> string" where
  "searchText username displayName bio topics =
     join_with '' '' (username # displayName # bio # topics)"

definition createProfile :: "ctx \<Rightarrow> id \<Rightarrow> string \<Rightarrow> db \<Rightarrow> db" where
  "createProfile ctx userId username s =
     bumpId (profiles_update (\<lambda>t. db_insert t
       \<lparr>did = nextId s, ctime = now ctx, p_userId = userId, p_username = username,
        p_displayName = username, p_bio = [], p_avatarStorageId = None, p_avatarUrl = [],
        p_coverUrl = [], p_published = False, p_followerCount = 0, p_isLive = False,
        p_liveShowId = None, p_liveStartedAt = None, p_nextHotlineAt = None,
        p_lastLiveAlertAt = None, p_topics = None,
        p_searchText = searchText username username [] []\<rparr>) s)"

definition profileForUser :: "db \<Rightarrow> id \<Rightarrow> profile_doc option" where
  "profileForUser s userId = first_by (\<lambda>p. p_userId p = userId) (profiles s)"

definition profileByUsername :: "db \<Rightarrow> string \<Rightarrow> profile_doc option" where
  "profileByUsername s username =
     first_by (\<lambda>p. p_username p = toLowerCase (trim username)) (profiles s)"

section \<open>Shows\<close>

definition onShowCreated :: "ctx \<Rightarrow> id \<Rightarrow> db \<Rightarrow> db" where
  "onShowCreated ctx creatorId s =
     (case profileForUser s creatorId of
        Some profile \<Rightarrow> if \<not> p_published profile
          then patchProfile (did profile) (\<lambda>p. p\<lparr>p_published := True\<rparr>) s else s
      | None \<Rightarrow> s)"

definition onShowScheduled :: "ctx \<Rightarrow> id \<Rightarrow> int option \<Rightarrow> db \<Rightarrow> db" where
  "onShowScheduled ctx creatorId scheduledFor s =
     (case profileForUser s creatorId of
        Some profile \<Rightarrow> patchProfile (did profile) (\<lambda>p. p\<lparr>p_nextHotlineAt := scheduledFor\<rparr>) s
      | None \<Rightarrow> s)"

definition ALERT_COOLDOWN_MS :: int where "ALERT_COOLDOWN_MS = 6 * 60 * 60000"

definition queueLiveAlert :: "ctx \<Rightarrow> show_doc \<Rightarrow> db \<Rightarrow> db" where
  "queueLiveAlert ctx sh s =
     (case profileForUser s (sh_creatorId sh) of
        None \<Rightarrow> s
      | Some profile \<Rightarrow>
          (let recent = (case p_lastLiveAlertAt profile of
                 Some t \<Rightarrow> now ctx - t < ALERT_COOLDOWN_MS | None \<Rightarrow> False)
           in if recent then s
              else runAfter ctx 0 (LiveAlertsCollect (did sh) None 0)
                (patchProfile (did profile) (\<lambda>p. p\<lparr>p_lastLiveAlertAt := Some (now ctx)\<rparr>) s)))"

definition onShowLive :: "ctx \<Rightarrow> show_doc \<Rightarrow> db \<Rightarrow> db" where
  "onShowLive ctx sh s0 =
     (let s = (case profileForUser s0 (sh_creatorId sh) of
                 Some profile \<Rightarrow> patchProfile (did profile) (\<lambda>p. p\<lparr>p_published := True,
                   p_isLive := True, p_liveShowId := Some (did sh),
                   p_liveStartedAt := sh_startedAt sh, p_nextHotlineAt := None\<rparr>) s0
               | None \<Rightarrow> s0)
      in case first_by (\<lambda>e. lv_showId e = did sh) (liveEvents s) of
           Some _ \<Rightarrow> s
         | None \<Rightarrow> queueLiveAlert ctx sh (bumpId (liveEvents_update (\<lambda>t. db_insert t
             \<lparr>did = nextId s, ctime = now ctx, lv_creatorId = sh_creatorId sh,
              lv_showId = did sh\<rparr>) s)))"

definition onShowEnded :: "ctx \<Rightarrow> show_doc \<Rightarrow> db \<Rightarrow> db" where
  "onShowEnded ctx sh s =
     (case profileForUser s (sh_creatorId sh) of
        Some profile \<Rightarrow> if p_liveShowId profile = Some (did sh)
          then patchProfile (did profile) (\<lambda>p. p\<lparr>p_isLive := False, p_liveShowId := None,
                 p_liveStartedAt := None\<rparr>) s
          else s
      | None \<Rightarrow> s)"

section \<open>Views\<close>

definition SCHEDULE_GRACE_MS :: int where "SCHEDULE_GRACE_MS = 3 * 60 * 60000"

definition upcoming :: "ctx \<Rightarrow> profile_doc \<Rightarrow> int option" where
  "upcoming ctx profile = (case p_nextHotlineAt profile of
     None \<Rightarrow> None
   | Some t \<Rightarrow> if p_isLive profile then None
       else if t > now ctx - SCHEDULE_GRACE_MS then Some t else None)"

definition avatarUrl :: "(id \<Rightarrow> string option) \<Rightarrow> profile_doc \<Rightarrow> string" where
  "avatarUrl getUrl profile = (case p_avatarStorageId profile of
     Some i \<Rightarrow> (case getUrl i of Some u \<Rightarrow> u | None \<Rightarrow> [])
   | None \<Rightarrow> p_avatarUrl profile)"

definition isFollowing :: "db \<Rightarrow> id \<Rightarrow> id \<Rightarrow> bool" where
  "isFollowing s followerId creatorId \<longleftrightarrow>
     first_by (\<lambda>f. fo_followerId f = followerId \<and> fo_creatorId f = creatorId) (follows s) \<noteq> None"

definition statsForShow :: "db \<Rightarrow> id \<Rightarrow> channel_stat_doc option" where
  "statsForShow s showId = first_by (\<lambda>c. cs_showId c = showId) (channelStats s)"

record public_profile =
  pub_id :: id
  pub_username :: string
  pub_displayName :: string
  pub_bio :: string
  pub_topics :: "string list"
  pub_avatarUrl :: string
  pub_coverUrl :: string
  pub_published :: bool
  pub_followerCount :: int
  pub_isLive :: bool
  pub_liveShowId :: "id option"
  pub_liveStartedAt :: "int option"
  pub_isFollowing :: bool
  pub_channelVisitors :: "int option"
  pub_nextHotlineAt :: "int option"

definition publicProfile :: "(id \<Rightarrow> string option) \<Rightarrow> ctx \<Rightarrow> db \<Rightarrow> profile_doc \<Rightarrow> id option \<Rightarrow> public_profile" where
  "publicProfile getUrl ctx s profile viewerId =
     (let following = (case viewerId of Some v \<Rightarrow> isFollowing s v (p_userId profile) | None \<Rightarrow> False);
          stats = (if p_isLive profile
                   then (case p_liveShowId profile of Some i \<Rightarrow> statsForShow s i | None \<Rightarrow> None)
                   else None)
      in \<lparr>pub_id = p_userId profile, pub_username = p_username profile,
          pub_displayName = p_displayName profile, pub_bio = p_bio profile,
          pub_topics = (case p_topics profile of Some t \<Rightarrow> t | None \<Rightarrow> []),
          pub_avatarUrl = avatarUrl getUrl profile, pub_coverUrl = p_coverUrl profile,
          pub_published = p_published profile, pub_followerCount = p_followerCount profile,
          pub_isLive = p_isLive profile, pub_liveShowId = p_liveShowId profile,
          pub_liveStartedAt = p_liveStartedAt profile, pub_isFollowing = following,
          pub_channelVisitors = (if p_isLive profile
            then Some (case stats of Some c \<Rightarrow> cs_visitors c | None \<Rightarrow> 0) else None),
          pub_nextHotlineAt = upcoming ctx profile\<rparr>)"

section \<open>Rate limits\<close>

definition rateLimit :: "ctx \<Rightarrow> rate_key \<Rightarrow> int \<Rightarrow> int \<Rightarrow> db \<Rightarrow> error_code + db" where
  "rateLimit ctx key perWindow windowMs s =
     (let windowStart = now ctx - now ctx mod windowMs
      in case first_by (\<lambda>r. rl_key r = key) (rateLimits s) of
           None \<Rightarrow> Inr (bumpId (rateLimits_update (\<lambda>t. db_insert t
             \<lparr>did = nextId s, ctime = now ctx, rl_key = key, rl_windowStart = windowStart,
              rl_count = 1\<rparr>) s))
         | Some row \<Rightarrow>
             if rl_windowStart row \<noteq> windowStart
             then Inr (rateLimits_update (\<lambda>t. db_patch t (did row)
                    (\<lambda>r. r\<lparr>rl_windowStart := windowStart, rl_count := 1\<rparr>)) s)
             else if rl_count row \<ge> perWindow then Inl RATE_LIMITED
             else Inr (rateLimits_update (\<lambda>t. db_patch t (did row)
                    (\<lambda>r. r\<lparr>rl_count := rl_count row + 1\<rparr>)) s))"

end
