(* ===== verification/Fees.thy ===== *)
theory Fees
  imports Schema
begin

text \<open>
  The pricing of a paid call and the classification of Stripe errors,
  \<open>convex/lib/stripe.ts\<close>.  \<open>Math.floor\<close> of a quotient of integers is
  \<open>div\<close>.  The theorems account for every cent: what the creator earns and what Bling keeps add
  up to the price, the card fee is shared with the odd cent on Bling's side, and every price that
  \<open>tiers.replace\<close> admits leaves the creator a positive share at both platform rates.
\<close>

definition STANDARD_PLATFORM_FEE_BPS :: int where "STANDARD_PLATFORM_FEE_BPS = 2000"

definition BETA_PLATFORM_FEE_BPS :: int where "BETA_PLATFORM_FEE_BPS = 1000"

definition SIGNUP_PLATFORM_FEE_BPS :: int where "SIGNUP_PLATFORM_FEE_BPS = BETA_PLATFORM_FEE_BPS"

definition creatorFeeBps :: "user_doc option \<Rightarrow> int" where
  "creatorFeeBps creator = (case creator of
       Some u \<Rightarrow> (case u_platformFeeBps u of Some b \<Rightarrow> b | None \<Rightarrow> BETA_PLATFORM_FEE_BPS)
     | None \<Rightarrow> BETA_PLATFORM_FEE_BPS)"

definition BASIC_CARD_FEE_BPS :: int where "BASIC_CARD_FEE_BPS = 290"

definition BASIC_CARD_FIXED_FEE_CENTS :: int where "BASIC_CARD_FIXED_FEE_CENTS = 30"

definition CREATOR_PROCESSING_FEE_SHARE_BPS :: int where "CREATOR_PROCESSING_FEE_SHARE_BPS = 5000"

record fees =
  fee_platformFeeBps :: int
  fee_platformFeeCents :: int
  fee_basicCardFeeCents :: int
  fee_creatorProcessingFeeCents :: int

definition paymentFees :: "int \<Rightarrow> int \<Rightarrow> fees" where
  "paymentFees amountCents platformFeeBps =
     (let basicCardFeeCents = (amountCents * BASIC_CARD_FEE_BPS + 5000) div 10000
                                + BASIC_CARD_FIXED_FEE_CENTS;
          creatorProcessingFeeCents =
            (basicCardFeeCents * CREATOR_PROCESSING_FEE_SHARE_BPS) div 10000;
          creatorShareBps = 10000 - platformFeeBps;
          platformFeeCents = amountCents - (amountCents * creatorShareBps) div 10000
                               + creatorProcessingFeeCents
      in \<lparr>fee_platformFeeBps = platformFeeBps, fee_platformFeeCents = platformFeeCents,
          fee_basicCardFeeCents = basicCardFeeCents,
          fee_creatorProcessingFeeCents = creatorProcessingFeeCents\<rparr>)"

lemmas fee_defs = paymentFees_def Let_def BASIC_CARD_FEE_BPS_def BASIC_CARD_FIXED_FEE_CENTS_def
  CREATOR_PROCESSING_FEE_SHARE_BPS_def STANDARD_PLATFORM_FEE_BPS_def BETA_PLATFORM_FEE_BPS_def

text \<open>An error thrown by the Stripe SDK: its \<open>type\<close> and HTTP status, or not an \<open>Error\<close> at all.\<close>

datatype stripe_error = NotAnError | StripeError "string option" "int option"

definition isTransientStripeError :: "stripe_error \<Rightarrow> bool" where
  "isTransientStripeError e = (case e of
       NotAnError \<Rightarrow> False
     | StripeError ty statusCode \<Rightarrow>
         ty = Some ''StripeConnectionError'' \<or> ty = Some ''StripeRateLimitError'' \<or>
         ty = Some ''StripeAPIError'' \<or>
         (case statusCode of Some c \<Rightarrow> c \<ge> 500 | None \<Rightarrow> False))"

section \<open>Where every cent goes\<close>

lemma creatorProcessingFee_half:
  "fee_creatorProcessingFeeCents (paymentFees a b) = fee_basicCardFeeCents (paymentFees a b) div 2"
  by (simp add: fee_defs)

lemma paymentFees_creator:
  "a - fee_platformFeeCents (paymentFees a b)
     = (a * (10000 - b)) div 10000 - fee_creatorProcessingFeeCents (paymentFees a b)"
  by (simp add: fee_defs)

lemma scaled_bounds:
  fixes a b :: int
  assumes "0 \<le> a" "0 \<le> b" "b \<le> 10000"
  shows "0 \<le> (a * (10000 - b)) div 10000" "(a * (10000 - b)) div 10000 \<le> a"
proof -
  show "0 \<le> (a * (10000 - b)) div 10000"
    using assms by (simp add: pos_imp_zdiv_nonneg_iff)
  have "a * (10000 - b) \<le> a * 10000"
    using assms by (intro mult_left_mono) simp_all
  then have "(a * (10000 - b)) div 10000 \<le> (a * 10000) div 10000"
    by (rule zdiv_mono1) simp
  then show "(a * (10000 - b)) div 10000 \<le> a" by simp
qed

lemma paymentFees_sound:
  assumes "50 \<le> price" "price \<le> 1000000" "0 \<le> bps" "bps \<le> STANDARD_PLATFORM_FEE_BPS"
  defines "f \<equiv> paymentFees price bps"
  defines "creator \<equiv> price - fee_platformFeeCents f"
  shows "creator = (price * (10000 - bps)) div 10000 - fee_creatorProcessingFeeCents f"
    and "0 < creator" and "creator < price" and "0 < fee_platformFeeCents f"
    and "fee_basicCardFeeCents f - fee_creatorProcessingFeeCents f - fee_creatorProcessingFeeCents f \<in> {0, 1}"
    and "fee_platformFeeBps f = bps"
proof -
  let ?share = "(price * (10000 - bps)) div 10000"
  have "price * 8000 \<le> price * (10000 - bps)"
    using assms(1,4) by (intro mult_left_mono) (simp_all add: STANDARD_PLATFORM_FEE_BPS_def)
  then have low: "(price * 8000) div 10000 \<le> ?share" by (rule zdiv_mono1) simp
  have high: "?share \<le> price"
    using scaled_bounds [of price bps] assms(1,3,4) by (simp add: STANDARD_PLATFORM_FEE_BPS_def)
  show eq: "creator = ?share - fee_creatorProcessingFeeCents f"
    unfolding creator_def f_def by (rule paymentFees_creator)
  have proc: "0 < fee_creatorProcessingFeeCents f"
    using assms(1) unfolding f_def by (simp add: fee_defs)
  have "fee_creatorProcessingFeeCents f < (price * 8000) div 10000"
    using assms(1,2) unfolding f_def by (simp add: fee_defs)
  then show "0 < creator" using low eq by simp
  show "creator < price" using high proc eq by simp
  then show "0 < fee_platformFeeCents f" by (simp add: creator_def)
  show "fee_basicCardFeeCents f - fee_creatorProcessingFeeCents f - fee_creatorProcessingFeeCents f \<in> {0, 1}"
    unfolding f_def by (simp add: creatorProcessingFee_half) presburger
  show "fee_platformFeeBps f = bps" by (simp add: f_def fee_defs)
qed

text \<open>
  C22. For every price a tier can carry (\<open>tiers.replace\<close> admits 50 to 1,000,000 cents) and
  every platform rate up to the standard one, the snapshot that \<open>paymentFees\<close> takes is sound:
  the creator's share and Bling's fee add up to the price, both are positive, the creator pays half
  of the basic card fee rounded down, and Bling absorbs the other half with the odd cent.
\<close>

theorem paymentFees_accounts_for_every_cent:
  assumes "50 \<le> price" "price \<le> 1000000" "0 \<le> bps" "bps \<le> STANDARD_PLATFORM_FEE_BPS"
  shows "price - fee_platformFeeCents (paymentFees price bps)
           = (price * (10000 - bps)) div 10000 - fee_creatorProcessingFeeCents (paymentFees price bps)
       \<and> 0 < price - fee_platformFeeCents (paymentFees price bps)
       \<and> 0 < fee_platformFeeCents (paymentFees price bps)
       \<and> fee_basicCardFeeCents (paymentFees price bps)
             - 2 * fee_creatorProcessingFeeCents (paymentFees price bps) \<in> {0, 1}
       \<and> fee_platformFeeBps (paymentFees price bps) = bps"
  using paymentFees_sound [OF assms] by auto

theorem paymentFees_accounts_witness:
  "0 < (500 :: int) - fee_platformFeeCents (paymentFees 500 BETA_PLATFORM_FEE_BPS)
     \<and> (500 :: int) - fee_platformFeeCents (paymentFees 500 BETA_PLATFORM_FEE_BPS) = 428"
  using paymentFees_accounts_for_every_cent [of 500 BETA_PLATFORM_FEE_BPS] by (simp add: fee_defs)

end
