(* ===== verification/Payout_Accounts.thy ===== *)
theory Payout_Accounts
  imports Auth Fees
begin

text \<open>
  Connect accounts, the first half of \<open>convex/payouts.ts\<close>: the deployment's payout
  configuration, what makes a creator ready to be paid, and the projection of a Stripe Accounts v2
  object and its bank accounts onto the row Bling stores.  The Stripe objects are data here; the
  calls that fetch them are the parameters of the actions that make them.
\<close>

section \<open>Configuration\<close>

record payout_config =
  cfg_enabled :: bool
  cfg_payoutDay :: int
  cfg_minimumCents :: int
  cfg_currency :: string
  cfg_country :: string

definition env_int :: "env_num \<Rightarrow> int \<Rightarrow> (int \<Rightarrow> bool) \<Rightarrow> int" where
  "env_int v dflt ok = (case v of IntNum i \<Rightarrow> if ok i then i else dflt
     | Unset \<Rightarrow> dflt | NotNumber \<Rightarrow> dflt)"

definition upper_char :: "char \<Rightarrow> char" where
  "upper_char c = (let n = (of_char c :: nat) in if 97 \<le> n \<and> n \<le> 122 then char_of (n - 32) else c)"

definition config :: "env \<Rightarrow> payout_config" where
  "config e =
     \<lparr>cfg_enabled = (toLowerCase (case CREATOR_PAYOUTS_ENABLED e of Some v \<Rightarrow> v | None \<Rightarrow> []) = ''true''),
      cfg_payoutDay = env_int (CREATOR_PAYOUT_DAY e) 1 (\<lambda>d. 1 \<le> d \<and> d \<le> 28),
      cfg_minimumCents = env_int (CREATOR_PAYOUT_MINIMUM_CENTS e) 2500 (\<lambda>m. m > 0),
      cfg_currency = toLowerCase (case CREATOR_PAYOUT_CURRENCY e of Some v \<Rightarrow> v | None \<Rightarrow> ''usd''),
      cfg_country = map upper_char (case STRIPE_CONNECT_COUNTRY e of Some v \<Rightarrow> v | None \<Rightarrow> ''US'')\<rparr>"

section \<open>Readiness\<close>

definition accountReady :: "account_doc option \<Rightarrow> bool" where
  "accountReady account = (case account of
     None \<Rightarrow> False
   | Some a \<Rightarrow> ac_stripeAccountId a \<noteq> [] \<and> ac_transfersStatus a = ''active'' \<and>
       ac_bankPayoutsStatus a = ''active'' \<and> ac_externalAccountPresent a \<and> ac_detailsSubmitted a)"

definition accountForCreator :: "db \<Rightarrow> id \<Rightarrow> account_doc option" where
  "accountForCreator s creatorId = first_by (\<lambda>a. ac_creatorId a = creatorId) (payoutAccounts s)"

section \<open>Projecting a Stripe account\<close>

record requirement_entry =
  re_awaiting_action_from :: string
  re_description :: string
  re_deadline :: "string option"

record v2_account =
  va_id :: string
  va_transfersStatus :: "string option"
  va_payoutsStatus :: "string option"
  va_requirements :: "requirement_entry list"

record bank_account =
  ba_deleted :: bool
  ba_status :: string
  ba_default_for_currency :: bool
  ba_bank_name :: "string option"
  ba_last4 :: string
  ba_currency :: string

definition userEntries :: "v2_account \<Rightarrow> requirement_entry list" where
  "userEntries account = filter (\<lambda>e. re_awaiting_action_from e = ''user'') (va_requirements account)"

definition blocking :: "requirement_entry \<Rightarrow> bool" where
  "blocking e = (case re_deadline e of
     None \<Rightarrow> True | Some d \<Rightarrow> d = [] \<or> d = ''currently_due'' \<or> d = ''past_due'')"

definition usableBank :: "bank_account \<Rightarrow> bool" where
  "usableBank b \<longleftrightarrow> \<not> ba_deleted b \<and> ba_status b \<notin>
     {''errored'', ''verification_failed'', ''tokenized_account_number_deactivated''}"

definition chosenBank :: "bank_account list \<Rightarrow> bank_account option" where
  "chosenBank banks = (let usable = filter usableBank banks
     in case List.find ba_default_for_currency usable of
          Some b \<Rightarrow> Some b | None \<Rightarrow> head_opt usable)"

definition projectAccount :: "v2_account \<Rightarrow> bank_account list \<Rightarrow> account_doc" where
  "projectAccount account banks =
     (let entries = userEntries account; bank = chosenBank banks
      in \<lparr>did = 0, ctime = 0, ac_creatorId = 0, ac_stripeAccountId = va_id account,
          ac_transfersStatus = (case va_transfersStatus account of Some v \<Rightarrow> v | None \<Rightarrow> []),
          ac_bankPayoutsStatus = (case va_payoutsStatus account of Some v \<Rightarrow> v | None \<Rightarrow> []),
          ac_externalAccountPresent = (bank \<noteq> None),
          ac_externalAccountBankName = (case bank of Some b \<Rightarrow> ba_bank_name b | None \<Rightarrow> None),
          ac_externalAccountLast4 = map_option ba_last4 bank,
          ac_externalAccountCurrency = map_option ba_currency bank,
          ac_detailsSubmitted = (\<not> list_ex blocking entries),
          ac_requirementsDue = filter (\<lambda>d. d \<noteq> []) (map re_description entries)\<rparr>)"

section \<open>Saving and showing the account\<close>

text \<open>A creator keeps their first account: a row with another Stripe id is never adopted.\<close>

definition saveAccount :: "ctx \<Rightarrow> id \<Rightarrow> account_doc \<Rightarrow> db \<Rightarrow> db" where
  "saveAccount ctx creatorId account s =
     (case accountForCreator s creatorId of
        None \<Rightarrow> bumpId (payoutAccounts_update (\<lambda>t. db_insert t
          (account\<lparr>did := nextId s, ctime := now ctx, ac_creatorId := creatorId\<rparr>)) s)
      | Some existing \<Rightarrow>
          if ac_stripeAccountId existing \<noteq> ac_stripeAccountId account then s
          else payoutAccounts_update (\<lambda>t. db_patch t (did existing) (\<lambda>old.
            account\<lparr>did := did old, ctime := ctime old, ac_creatorId := creatorId\<rparr>)) s)"

record payout_status =
  ps_connected :: bool
  ps_transfersStatus :: string
  ps_bankPayoutsStatus :: string
  ps_externalAccountPresent :: bool
  ps_externalAccountBankName :: "string option"
  ps_externalAccountLast4 :: "string option"
  ps_externalAccountCurrency :: "string option"
  ps_payoutsEnabled :: bool
  ps_detailsSubmitted :: bool
  ps_ready :: bool
  ps_requirementsDue :: "string list"
  ps_platformFeePercent :: rat
  ps_creatorProcessingFeePercent :: int

definition statusFor :: "account_doc option \<Rightarrow> int \<Rightarrow> payout_status" where
  "statusFor account platformFeeBps =
     \<lparr>ps_connected = (account \<noteq> None),
      ps_transfersStatus = (case account of Some a \<Rightarrow> ac_transfersStatus a | None \<Rightarrow> []),
      ps_bankPayoutsStatus = (case account of Some a \<Rightarrow> ac_bankPayoutsStatus a | None \<Rightarrow> []),
      ps_externalAccountPresent = (case account of Some a \<Rightarrow> ac_externalAccountPresent a | None \<Rightarrow> False),
      ps_externalAccountBankName = (case account of Some a \<Rightarrow> ac_externalAccountBankName a | None \<Rightarrow> None),
      ps_externalAccountLast4 = (case account of Some a \<Rightarrow> ac_externalAccountLast4 a | None \<Rightarrow> None),
      ps_externalAccountCurrency = (case account of Some a \<Rightarrow> ac_externalAccountCurrency a | None \<Rightarrow> None),
      ps_payoutsEnabled = (case account of Some a \<Rightarrow> ac_bankPayoutsStatus a = ''active'' | None \<Rightarrow> False),
      ps_detailsSubmitted = (case account of Some a \<Rightarrow> ac_detailsSubmitted a | None \<Rightarrow> False),
      ps_ready = accountReady account,
      ps_requirementsDue = (case account of Some a \<Rightarrow> ac_requirementsDue a | None \<Rightarrow> []),
      ps_platformFeePercent = of_int platformFeeBps / 100,
      ps_creatorProcessingFeePercent = 50\<rparr>"

record creator_row =
  cr_creatorId :: id
  cr_email :: string
  cr_platformFeeBps :: int
  cr_account :: "account_doc option"

definition payouts_creator :: "ctx \<Rightarrow> db \<Rightarrow> error_code + creator_row" where
  "payouts_creator ctx s = bindE (requireCreatorId ctx s) (\<lambda>creatorId.
     let user = db_get (users s) creatorId
     in Inr \<lparr>cr_creatorId = creatorId,
         cr_email = (case user of Some u \<Rightarrow> (case u_email u of Some e \<Rightarrow> e | None \<Rightarrow> []) | None \<Rightarrow> []),
         cr_platformFeeBps = creatorFeeBps user,
         cr_account = accountForCreator s creatorId\<rparr>)"

definition payouts_current :: "ctx \<Rightarrow> db \<Rightarrow> error_code + payout_status" where
  "payouts_current ctx s = bindE (requireCreatorId ctx s) (\<lambda>creatorId.
     Inr (statusFor (accountForCreator s creatorId) (creatorFeeBps (db_get (users s) creatorId))))"

definition creatorForAccount :: "db \<Rightarrow> string \<Rightarrow> id option" where
  "creatorForAccount s stripeAccountId =
     map_option ac_creatorId (first_by (\<lambda>a. ac_stripeAccountId a = stripeAccountId) (payoutAccounts s))"

end
