(* ===== verification/Shows.thy ===== *)
theory Shows
  imports Calls_Lib Social_Lib Payout_Accounts
begin

text \<open>
  The show lifecycle CREATED, LIVE, ENDED of \<open>convex/shows.ts\<close>.  Ending a show closes its
  queue in batches: \<open>closeQueue\<close> reschedules itself while a full batch was closed.
\<close>

definition CLOSE_BATCH :: nat where "CLOSE_BATCH = 200"

definition ACTIVE_ENTRY_STATUSES :: "queue_status list" where
  "ACTIVE_ENTRY_STATUSES = [Q_WAITING, Q_SELECTED, Q_CONNECTING, Q_LIVE]"

definition showForCreator :: "db \<Rightarrow> id \<Rightarrow> id \<Rightarrow> error_code + show_doc" where
  "showForCreator s showId creatorId = (case db_get (shows_tbl s) showId of
     None \<Rightarrow> Inl SHOW_NOT_FOUND
   | Some sh \<Rightarrow> if sh_creatorId sh \<noteq> creatorId then Inl SHOW_NOT_FOUND else Inr sh)"

definition liveShowOf :: "db \<Rightarrow> id \<Rightarrow> show_doc option" where
  "liveShowOf s creatorId =
     first_by (\<lambda>sh. sh_creatorId sh = creatorId \<and> sh_status sh = Show_LIVE) (shows_tbl s)"

definition shows_current :: "ctx \<Rightarrow> db \<Rightarrow> error_code + show_doc option" where
  "shows_current ctx s = bindE (requireCreatorId ctx s) (\<lambda>creatorId.
     case liveShowOf s creatorId of
       Some live \<Rightarrow> Inr (Some live)
     | None \<Rightarrow> Inr (head_opt (query_desc
         (\<lambda>sh. sh_creatorId sh = creatorId \<and> sh_status sh = Show_CREATED) (\<lambda>_. 0::nat) (shows_tbl s))))"

definition shows_create :: "ctx \<Rightarrow> db \<Rightarrow> error_code + id \<times> db" where
  "shows_create ctx s = bindE (requireCreatorId ctx s) (\<lambda>creatorId.
     let showId = nextId s;
         s1 = bumpId (shows_tbl_update (\<lambda>t. db_insert t
                \<lparr>did = showId, ctime = now ctx, sh_creatorId = creatorId,
                 sh_status = Show_CREATED, sh_startedAt = None, sh_endedAt = None,
                 sh_scheduledFor = None\<rparr>) s);
         s2 = bumpId (showTiers_update (\<lambda>t. db_insert t
                \<lparr>did = nextId s1, ctime = now ctx, ti_showId = showId, ti_name = ''Standard'',
                 ti_priorityRank = 0, ti_callDurationSeconds = 300, ti_priceCents = 0,
                 ti_enabled = True\<rparr>) s1)
     in Inr (showId, onShowCreated ctx creatorId s2))"

definition SCHEDULE_MIN_LEAD_MS :: int where "SCHEDULE_MIN_LEAD_MS = 5 * 60000"

definition SCHEDULE_MAX_LEAD_MS :: int where "SCHEDULE_MAX_LEAD_MS = 60 * 24 * 60 * 60000"

definition leadOk :: "ctx \<Rightarrow> int option \<Rightarrow> bool" where
  "leadOk ctx scheduledFor = (case scheduledFor of
     None \<Rightarrow> True
   | Some t \<Rightarrow> \<not> (t - now ctx < SCHEDULE_MIN_LEAD_MS \<or> t - now ctx > SCHEDULE_MAX_LEAD_MS))"

definition shows_schedule :: "ctx \<Rightarrow> id \<Rightarrow> int option \<Rightarrow> db \<Rightarrow> error_code + show_doc \<times> db" where
  "shows_schedule ctx showId scheduledFor s = bindE (requireCreatorId ctx s) (\<lambda>creatorId.
     bindE (showForCreator s showId creatorId) (\<lambda>sh.
       if sh_status sh \<noteq> Show_CREATED then Inl INVALID_SHOW_STATE
       else if \<not> leadOk ctx scheduledFor then Inl VALIDATION_FAILED
       else (let s' = onShowScheduled ctx creatorId scheduledFor
                    (patchShow showId (\<lambda>d. d\<lparr>sh_scheduledFor := scheduledFor\<rparr>) s)
             in Inr (case db_get (shows_tbl s') showId of Some d \<Rightarrow> d | None \<Rightarrow> sh, s'))))"

definition enabledTiers :: "db \<Rightarrow> id \<Rightarrow> tier_doc list" where
  "enabledTiers s showId = filter ti_enabled
     (query_asc (\<lambda>t. ti_showId t = showId) ti_priorityRank (showTiers s))"

definition shows_start :: "ctx \<Rightarrow> id \<Rightarrow> db \<Rightarrow> error_code + show_doc \<times> db" where
  "shows_start ctx showId s = bindE (requireCreatorId ctx s) (\<lambda>creatorId.
     bindE (showForCreator s showId creatorId) (\<lambda>sh.
       if sh_status sh = Show_LIVE then Inr (sh, s)
       else if sh_status sh \<noteq> Show_CREATED then Inl INVALID_SHOW_STATE
       else (let enabled = enabledTiers s showId
             in if enabled = [] then Inl INVALID_TIER_CONFIGURATION
                else if list_ex (\<lambda>t. ti_priceCents t > 0) enabled
                        \<and> \<not> accountReady (accountForCreator s creatorId)
                then Inl PAYOUT_SETUP_REQUIRED
                else if liveShowOf s creatorId \<noteq> None then Inl ACTIVE_SHOW_EXISTS
                else (let s1 = patchShow showId (\<lambda>d. d\<lparr>sh_status := Show_LIVE,
                               sh_startedAt := Some (now ctx)\<rparr>) s;
                          live = (case db_get (shows_tbl s1) showId of Some d \<Rightarrow> d | None \<Rightarrow> sh)
                      in Inr (live, onShowLive ctx live s1)))))"

definition endOpenCall :: "ctx \<Rightarrow> id \<Rightarrow> db \<Rightarrow> error_code + db" where
  "endOpenCall ctx showId s = (case activeCallForShow s showId of
     Some call \<Rightarrow> if c_status call \<in> set CONNECTABLE_STATUSES
       then bindE (applyTransition ctx call Call_ENDED s) (\<lambda>(_, s'). Inr s')
       else Inr s
   | None \<Rightarrow> Inr s)"

definition shows_end :: "ctx \<Rightarrow> id \<Rightarrow> db \<Rightarrow> error_code + show_doc \<times> db" where
  "shows_end ctx showId s = bindE (requireCreatorId ctx s) (\<lambda>creatorId.
     bindE (showForCreator s showId creatorId) (\<lambda>sh.
       if sh_status sh = Show_ENDED then Inr (sh, s)
       else if sh_status sh \<noteq> Show_LIVE then Inl INVALID_SHOW_STATE
       else bindE (endOpenCall ctx showId (onShowEnded ctx sh
                (patchShow showId (\<lambda>d. d\<lparr>sh_status := Show_ENDED,
                   sh_endedAt := Some (now ctx)\<rparr>) s)))
              (\<lambda>s1. let s2 = runAfter ctx 0 (ShowsCloseQueue showId) s1
                     in Inr (case db_get (shows_tbl s2) showId of Some d \<Rightarrow> d | None \<Rightarrow> sh, s2))))"

section \<open>Closing the queue\<close>

definition closeEntry :: "ctx \<Rightarrow> queue_status \<Rightarrow> queue_doc \<Rightarrow> db \<Rightarrow> db" where
  "closeEntry ctx status entry s0 =
     (let s = patchEntry (did entry) (\<lambda>e. e\<lparr>q_status := Q_ENDED, q_leftAt := Some (now ctx)\<rparr>) s0
      in if status = Q_WAITING
         then (case q_paymentAttemptId entry of
                 None \<Rightarrow> s
               | Some a \<Rightarrow> (case db_get (paymentAttempts s) a of
                   Some attempt \<Rightarrow> scheduleCancel ctx attempt ''show_ended'' s
                 | None \<Rightarrow> s))
         else s)"

definition entriesWithStatus :: "db \<Rightarrow> id \<Rightarrow> queue_status \<Rightarrow> queue_doc list" where
  "entriesWithStatus s showId status =
     query_asc (\<lambda>e. q_showId e = showId \<and> q_status e = status)
       (\<lambda>e. (q_priorityRank e, q_joinedAt e)) (queueEntries s)"

fun closeStatuses :: "ctx \<Rightarrow> id \<Rightarrow> nat \<Rightarrow> queue_status list \<Rightarrow> nat \<Rightarrow> db \<Rightarrow> nat \<times> db" where
  "closeStatuses ctx showId limit [] n_closed s = (n_closed, s)"
| "closeStatuses ctx showId limit (status # rest) n_closed s =
     (if n_closed \<ge> limit then (n_closed, s)
      else (let entries = take (limit - n_closed) (entriesWithStatus s showId status)
            in closeStatuses ctx showId limit rest (n_closed + length entries)
                 (fold (closeEntry ctx status) entries s)))"

definition closeEntries :: "ctx \<Rightarrow> id \<Rightarrow> nat \<Rightarrow> db \<Rightarrow> nat \<times> db" where
  "closeEntries ctx showId limit s = closeStatuses ctx showId limit ACTIVE_ENTRY_STATUSES 0 s"

definition closeQueue :: "ctx \<Rightarrow> id \<Rightarrow> db \<Rightarrow> db" where
  "closeQueue ctx showId s =
     (let (n_closed, s') = closeEntries ctx showId CLOSE_BATCH s
      in if n_closed = CLOSE_BATCH then runAfter ctx 0 (ShowsCloseQueue showId) s' else s')"

definition liveByUsername :: "db \<Rightarrow> string \<Rightarrow> (id \<times> show_status \<times> int option) option" where
  "liveByUsername s username =
     (case first_by (\<lambda>u. u_username u = Some (toLowerCase (trim username))) (users s) of
        None \<Rightarrow> None
      | Some creator \<Rightarrow> map_option (\<lambda>sh. (did sh, sh_status sh, sh_startedAt sh))
          (liveShowOf s (did creator)))"

end
