(* ===== verification/Tiers.thy ===== *)
theory Tiers
  imports Shows
begin

text \<open>
  Tier configuration, \<open>convex/tiers.ts\<close>.  The arguments are JavaScript numbers, so the input
  is rational and \<open>Number.isInteger\<close> is a check of the model.
\<close>

definition MAX_TIERS :: nat where "MAX_TIERS = 5"

record tier_input =
  tin_name :: string
  tin_callDurationSeconds :: rat
  tin_priceCents :: rat
  tin_enabled :: bool

record public_tier =
  pt_id :: id
  pt_name :: string
  pt_priorityRank :: int
  pt_callDurationSeconds :: int
  pt_priceCents :: int

definition publicTier :: "tier_doc \<Rightarrow> public_tier" where
  "publicTier tier = \<lparr>pt_id = did tier, pt_name = ti_name tier,
     pt_priorityRank = ti_priorityRank tier, pt_callDurationSeconds = ti_callDurationSeconds tier,
     pt_priceCents = ti_priceCents tier\<rparr>"

definition tiersOf :: "db \<Rightarrow> id \<Rightarrow> tier_doc list" where
  "tiersOf s showId = query_desc (\<lambda>t. ti_showId t = showId) ti_priorityRank (showTiers s)"

definition tiers_forCreator :: "ctx \<Rightarrow> id \<Rightarrow> db \<Rightarrow> error_code + tier_doc list" where
  "tiers_forCreator ctx showId s = bindE (requireCreatorId ctx s) (\<lambda>creatorId.
     bindE (showForCreator s showId creatorId) (\<lambda>_. Inr (tiersOf s showId)))"

definition tiers_forLiveShow :: "id \<Rightarrow> db \<Rightarrow> public_tier list" where
  "tiers_forLiveShow showId s =
     (if showIsLive s showId then map publicTier (filter ti_enabled (tiersOf s showId)) else [])"

definition isInteger :: "rat \<Rightarrow> bool" where
  "isInteger x \<longleftrightarrow> snd (quotient_of x) = 1"

definition validTier :: "tier_input \<Rightarrow> bool" where
  "validTier tier \<longleftrightarrow> (let name = trim (tin_name tier) in
     1 \<le> length name \<and> length name \<le> 40 \<and>
     isInteger (tin_callDurationSeconds tier) \<and> tin_callDurationSeconds tier \<ge> 30 \<and>
     tin_callDurationSeconds tier \<le> 3600 \<and>
     isInteger (tin_priceCents tier) \<and>
     (tin_priceCents tier = 0 \<or> (tin_priceCents tier \<ge> 50 \<and> tin_priceCents tier \<le> 1000000)))"

text \<open>The normalised tier, before Convex gives it an id.\<close>

definition tierRow :: "id \<Rightarrow> nat \<Rightarrow> nat \<Rightarrow> tier_input \<Rightarrow> tier_doc" where
  "tierRow showId n index tier =
     \<lparr>did = 0, ctime = 0, ti_showId = showId, ti_name = trim (tin_name tier),
      ti_priorityRank = (int n - int index) * 100,
      ti_callDurationSeconds = floor (tin_callDurationSeconds tier),
      ti_priceCents = floor (tin_priceCents tier), ti_enabled = tin_enabled tier\<rparr>"

fun normalizeTiers :: "id \<Rightarrow> nat \<Rightarrow> nat \<Rightarrow> string list \<Rightarrow> tier_input list \<Rightarrow> error_code + tier_doc list" where
  "normalizeTiers showId n index seen [] = Inr []"
| "normalizeTiers showId n index seen (tier # rest) =
     (let key = toLowerCase (trim (tin_name tier))
      in if \<not> validTier tier \<or> key \<in> set seen then Inl INVALID_TIER_CONFIGURATION
         else bindE (normalizeTiers showId n (Suc index) (key # seen) rest)
                (\<lambda>rows. Inr (tierRow showId n index tier # rows)))"

definition insertTier :: "ctx \<Rightarrow> tier_doc \<Rightarrow> db \<Rightarrow> db" where
  "insertTier ctx row s = bumpId (showTiers_update (\<lambda>t. db_insert t
     (row\<lparr>did := nextId s, ctime := now ctx\<rparr>)) s)"

definition deleteTier :: "tier_doc \<Rightarrow> db \<Rightarrow> db" where
  "deleteTier tier s = showTiers_update (\<lambda>t. db_delete t (did tier)) s"

definition tiers_replace :: "ctx \<Rightarrow> id \<Rightarrow> tier_input list \<Rightarrow> db \<Rightarrow> error_code + tier_doc list \<times> db" where
  "tiers_replace ctx showId tiers s = bindE (requireCreatorId ctx s) (\<lambda>creatorId.
     bindE (showForCreator s showId creatorId) (\<lambda>sh.
       if sh_status sh \<noteq> Show_CREATED then Inl SHOW_NOT_CONFIGURABLE
       else if length tiers < 1 \<or> length tiers > MAX_TIERS then Inl INVALID_TIER_CONFIGURATION
       else bindE (normalizeTiers showId (length tiers) 0 [] tiers) (\<lambda>rows.
         if \<not> list_ex ti_enabled rows then Inl INVALID_TIER_CONFIGURATION
         else (let existing = query_asc (\<lambda>t. ti_showId t = showId) ti_priorityRank (showTiers s);
                   s1 = fold deleteTier existing s;
                   s2 = fold (insertTier ctx) rows s1
               in Inr (tiersOf s2 showId, s2)))))"

end
