(* ===== verification/Queue.thy ===== *)
theory Queue
  imports Tiers
begin

text \<open>
  The caller queue, \<open>convex/queue.ts\<close>: joining a free or a paid tier, leaving, and the lists
  the caller and the creator see.  The action \<open>joinPaid\<close> is in the theory of the payment
  actions; the transaction it ends in, \<open>joinWithPayment\<close>, is here.
\<close>

definition CREATOR_LIST_LIMIT :: nat where "CREATOR_LIST_LIMIT = 200"

definition PAST_CALLS_COUNTED :: nat where "PAST_CALLS_COUNTED = 10"

record public_entry =
  pq_id :: id
  pq_showId :: id
  pq_displayName :: string
  pq_topic :: string
  pq_status :: queue_status
  pq_tierId :: id
  pq_tierName :: string
  pq_priorityRank :: int
  pq_callDurationSeconds :: int
  pq_tierPriceCents :: int
  pq_joinedAt :: int
  pq_selectedAt :: "int option"
  pq_leftAt :: "int option"

definition publicEntry :: "queue_doc \<Rightarrow> public_entry" where
  "publicEntry e = \<lparr>pq_id = did e, pq_showId = q_showId e, pq_displayName = q_displayName e,
     pq_topic = q_topic e, pq_status = q_status e, pq_tierId = q_tierId e,
     pq_tierName = q_tierName e, pq_priorityRank = q_priorityRank e,
     pq_callDurationSeconds = q_callDurationSeconds e, pq_tierPriceCents = q_tierPriceCents e,
     pq_joinedAt = q_joinedAt e, pq_selectedAt = q_selectedAt e, pq_leftAt = q_leftAt e\<rparr>"

record join_args =
  ja_showId :: id
  ja_tierId :: "id option"
  ja_displayName :: string
  ja_topic :: string

definition entryOf :: "db \<Rightarrow> id \<Rightarrow> id \<Rightarrow> queue_doc option" where
  "entryOf s showId viewerId =
     first_by (\<lambda>e. q_showId e = showId \<and> q_viewerId e = viewerId) (queueEntries s)"

text \<open>The tier asked for, or the enabled tier of highest priority.\<close>

definition tierForJoin :: "db \<Rightarrow> join_args \<Rightarrow> tier_doc option" where
  "tierForJoin s args = (case ja_tierId args of
     Some i \<Rightarrow> db_get (showTiers s) i
   | None \<Rightarrow> head_opt (filter ti_enabled (tiersOf s (ja_showId args))))"

definition usableAttempt :: "id \<Rightarrow> join_args \<Rightarrow> tier_doc \<Rightarrow> queue_doc option \<Rightarrow> attempt_doc option \<Rightarrow> bool" where
  "usableAttempt viewerId args tier existing attempt = (case attempt of
     None \<Rightarrow> False
   | Some a \<Rightarrow> pa_payerId a = viewerId \<and> pa_showId a = ja_showId args \<and> pa_tierId a = did tier \<and>
       pa_amountCents a = ti_priceCents tier \<and> pa_status a = Pay_AUTHORIZED \<and>
       (pa_queueEntryId a = None \<or> pa_queueEntryId a = map_option did existing))"

text \<open>The fields of \<open>fields\<close>, written over an entry (a new one or the caller's old one).\<close>

definition joinFields :: "ctx \<Rightarrow> join_args \<Rightarrow> tier_doc \<Rightarrow> attempt_doc option \<Rightarrow> queue_doc \<Rightarrow> queue_doc" where
  "joinFields ctx args tier attempt e = e\<lparr>q_displayName := trim (ja_displayName args),
     q_topic := trim (ja_topic args), q_status := Q_WAITING, q_tierId := did tier,
     q_tierName := ti_name tier, q_priorityRank := ti_priorityRank tier,
     q_callDurationSeconds := ti_callDurationSeconds tier, q_tierPriceCents := ti_priceCents tier,
     q_joinedAt := now ctx, q_paymentAttemptId := map_option did attempt, q_leftAt := None\<rparr>"

definition newEntry :: "ctx \<Rightarrow> id \<Rightarrow> id \<Rightarrow> join_args \<Rightarrow> tier_doc \<Rightarrow> attempt_doc option \<Rightarrow> queue_doc" where
  "newEntry ctx i viewerId args tier attempt =
     joinFields ctx args tier attempt
       \<lparr>did = i, ctime = now ctx, q_showId = ja_showId args, q_viewerId = viewerId,
        q_displayName = [], q_topic = [], q_status = Q_WAITING, q_tierId = 0, q_tierName = [],
        q_priorityRank = 0, q_callDurationSeconds = 0, q_tierPriceCents = 0, q_joinedAt = 0,
        q_selectedAt = None, q_leftAt = None, q_paymentAttemptId = None\<rparr>"

definition attachEntry :: "attempt_doc option \<Rightarrow> id \<Rightarrow> db \<Rightarrow> db" where
  "attachEntry attempt entryId s = (case attempt of
     None \<Rightarrow> s
   | Some a \<Rightarrow> patchAttempt (did a) (\<lambda>d. d\<lparr>pa_queueEntryId := Some entryId\<rparr>) s)"

definition writeEntry :: "ctx \<Rightarrow> id \<Rightarrow> join_args \<Rightarrow> tier_doc \<Rightarrow> queue_doc option \<Rightarrow> attempt_doc option \<Rightarrow> db \<Rightarrow> id \<times> db" where
  "writeEntry ctx viewerId args tier existing attempt s = (case existing of
     Some e \<Rightarrow> (did e, attachEntry attempt (did e)
       (patchEntry (did e) (joinFields ctx args tier attempt) s))
   | None \<Rightarrow> (nextId s, attachEntry attempt (nextId s)
       (bumpId (queueEntries_update
         (\<lambda>t. db_insert t (newEntry ctx (nextId s) viewerId args tier attempt)) s))))"

definition joinQueue :: "ctx \<Rightarrow> id \<Rightarrow> join_args \<Rightarrow> id option \<Rightarrow> db \<Rightarrow> error_code + queue_doc option \<times> db" where
  "joinQueue ctx viewerId args paymentAttemptId s =
     (let displayName = trim (ja_displayName args); topic = trim (ja_topic args)
      in if length displayName < 1 \<or> length displayName > 60 then Inl VALIDATION_FAILED
         else if length topic < 1 \<or> length topic > 280 then Inl VALIDATION_FAILED
         else if \<not> showIsLive s (ja_showId args) then Inl SHOW_NOT_LIVE
         else (case tierForJoin s args of
           None \<Rightarrow> Inl TIER_NOT_FOUND
         | Some tier \<Rightarrow>
             if ti_showId tier \<noteq> ja_showId args \<or> \<not> ti_enabled tier then Inl TIER_NOT_FOUND
             else (let existing = entryOf s (ja_showId args) viewerId
                   in if (case existing of Some e \<Rightarrow> q_status e \<noteq> Q_LEFT | None \<Rightarrow> False)
                      then Inr (existing, s)
                      else (let attempt = (if ti_priceCents tier > 0
                                   then (case paymentAttemptId of
                                           Some i \<Rightarrow> db_get (paymentAttempts s) i | None \<Rightarrow> None)
                                   else None)
                            in if ti_priceCents tier > 0
                                  \<and> \<not> usableAttempt viewerId args tier existing attempt
                               then Inl PAYMENT_REQUIRED
                               else (let (entryId, s') = writeEntry ctx viewerId args tier existing attempt s
                                     in Inr (db_get (queueEntries s') entryId, s'))))))"

definition queue_join :: "ctx \<Rightarrow> join_args \<Rightarrow> db \<Rightarrow> error_code + public_entry option \<times> db" where
  "queue_join ctx args s = bindE (requireUserId ctx) (\<lambda>viewerId.
     bindE (joinQueue ctx viewerId args None s) (\<lambda>(e, s'). Inr (map_option publicEntry e, s')))"

definition joinWithPayment :: "ctx \<Rightarrow> join_args \<Rightarrow> id \<Rightarrow> db \<Rightarrow> error_code + public_entry option \<times> db" where
  "joinWithPayment ctx args paymentAttemptId s = bindE (requireUserId ctx) (\<lambda>viewerId.
     bindE (joinQueue ctx viewerId args (Some paymentAttemptId) s)
       (\<lambda>(e, s'). Inr (map_option publicEntry e, s')))"

definition releaseHold :: "ctx \<Rightarrow> queue_doc \<Rightarrow> string \<Rightarrow> db \<Rightarrow> db" where
  "releaseHold ctx entry reason s = (case q_paymentAttemptId entry of
     None \<Rightarrow> s
   | Some a \<Rightarrow> (case db_get (paymentAttempts s) a of
       Some attempt \<Rightarrow> scheduleCancel ctx attempt reason s | None \<Rightarrow> s))"

definition queue_leave :: "ctx \<Rightarrow> id \<Rightarrow> db \<Rightarrow> error_code + public_entry option \<times> db" where
  "queue_leave ctx showId s = bindE (requireUserId ctx) (\<lambda>viewerId.
     case entryOf s showId viewerId of
       None \<Rightarrow> Inl NOT_IN_QUEUE
     | Some entry \<Rightarrow>
         if q_status entry = Q_LEFT then Inr (Some (publicEntry entry), s)
         else if q_status entry \<noteq> Q_WAITING then Inl INVALID_QUEUE_STATE
         else (let s' = releaseHold ctx entry ''caller_left''
                      (patchEntry (did entry) (\<lambda>e. e\<lparr>q_status := Q_LEFT,
                         q_leftAt := Some (now ctx)\<rparr>) s)
               in Inr (map_option publicEntry (db_get (queueEntries s') (did entry)), s')))"

definition queue_mine :: "ctx \<Rightarrow> id \<Rightarrow> db \<Rightarrow> error_code + public_entry option" where
  "queue_mine ctx showId s = bindE (requireUserId ctx) (\<lambda>viewerId.
     Inr (map_option publicEntry (entryOf s showId viewerId)))"

section \<open>The creator's list\<close>

record insight =
  in_follower :: bool
  in_pastCalls :: nat
  in_note :: string

definition callerInsight :: "db \<Rightarrow> id \<Rightarrow> id \<Rightarrow> insight" where
  "callerInsight s creatorId viewerId =
     \<lparr>in_follower = isFollowing s viewerId creatorId,
      in_pastCalls = length (take PAST_CALLS_COUNTED (filter (\<lambda>c. c_startedAt c \<noteq> None)
        (filter (\<lambda>c. c_creatorId c = creatorId \<and> c_viewerId c = viewerId) (calls s)))),
      in_note = (case first_by (\<lambda>n. n_creatorId n = creatorId \<and> n_viewerId n = viewerId) (callerNotes s) of
        Some n \<Rightarrow> n_note n | None \<Rightarrow> [])\<rparr>"

definition waitingAtRank :: "db \<Rightarrow> id \<Rightarrow> int \<Rightarrow> queue_doc list" where
  "waitingAtRank s showId rank =
     query_asc (\<lambda>e. q_showId e = showId \<and> q_status e = Q_WAITING \<and> q_priorityRank e = rank)
       q_joinedAt (queueEntries s)"

fun collectWaiting :: "db \<Rightarrow> id \<Rightarrow> int list \<Rightarrow> queue_doc list \<Rightarrow> queue_doc list" where
  "collectWaiting s showId [] entries = entries"
| "collectWaiting s showId (rank # ranks) entries =
     (if CREATOR_LIST_LIMIT - length entries \<le> 0 then entries
      else collectWaiting s showId ranks
             (entries @ take (CREATOR_LIST_LIMIT - length entries) (waitingAtRank s showId rank)))"

definition tierRanks :: "db \<Rightarrow> id \<Rightarrow> int list" where
  "tierRanks s showId = js_set (map ti_priorityRank (tiersOf s showId))"

definition queue_waiting :: "ctx \<Rightarrow> id \<Rightarrow> db \<Rightarrow> error_code + (public_entry \<times> insight) list" where
  "queue_waiting ctx showId s = bindE (requireCreatorId ctx s) (\<lambda>creatorId.
     bindE (showForCreator s showId creatorId) (\<lambda>_.
       Inr (map (\<lambda>e. (publicEntry e, callerInsight s creatorId (q_viewerId e)))
         (collectWaiting s showId (tierRanks s showId) []))))"

end
