(* ===== verification/Calls.thy ===== *)
theory Calls
  imports Queue
begin

text \<open>
  Choosing a caller and moving a call forward, \<open>convex/calls.ts\<close>.  \<open>selectRandom\<close> picks
  a random point of the join-time range of the highest tier with anyone waiting and takes the first
  caller at or after it; \<open>Math.random()\<close> is the field \<open>rnd\<close> of the context.
\<close>

definition prepareSelection :: "ctx \<Rightarrow> id \<Rightarrow> db \<Rightarrow> error_code + show_doc" where
  "prepareSelection ctx showId s = bindE (requireCreatorId ctx s) (\<lambda>creatorId.
     bindE (showForCreator s showId creatorId) (\<lambda>sh.
       if sh_status sh \<noteq> Show_LIVE then Inl SHOW_NOT_LIVE
       else if activeCallForShow s showId \<noteq> None then Inl ACTIVE_CALL_EXISTS
       else Inr sh))"

definition newCall :: "ctx \<Rightarrow> id \<Rightarrow> show_doc \<Rightarrow> queue_doc \<Rightarrow> selection_mode \<Rightarrow> attempt_doc option \<Rightarrow> call_doc" where
  "newCall ctx i sh entry mode attempt =
     \<lparr>did = i, ctime = now ctx, c_showId = did sh, c_queueEntryId = did entry,
      c_creatorId = sh_creatorId sh, c_viewerId = q_viewerId entry,
      c_status = (if q_tierPriceCents entry > 0 then Call_PAYMENT_PENDING else Call_CREATED),
      c_selectionMode = mode, c_callDurationSeconds = q_callDurationSeconds entry,
      c_startedAt = None, c_endedAt = None, c_expiresAt = None,
      c_paymentAttemptId = map_option did attempt\<rparr>"

definition startCapture :: "ctx \<Rightarrow> attempt_doc option \<Rightarrow> id \<Rightarrow> db \<Rightarrow> db" where
  "startCapture ctx attempt callId s = (case attempt of
     None \<Rightarrow> s
   | Some a \<Rightarrow> runAfter ctx 0 (PaymentsCapture callId 0)
       (patchAttempt (did a) (\<lambda>d. d\<lparr>pa_status := Pay_CAPTURING\<rparr>) s))"

definition holdOf :: "db \<Rightarrow> queue_doc \<Rightarrow> attempt_doc option" where
  "holdOf s entry = (if q_tierPriceCents entry > 0
     then (case q_paymentAttemptId entry of
             Some a \<Rightarrow> db_get (paymentAttempts s) a | None \<Rightarrow> None)
     else None)"

definition openCall :: "ctx \<Rightarrow> show_doc \<Rightarrow> queue_doc \<Rightarrow> selection_mode \<Rightarrow> attempt_doc option \<Rightarrow> db \<Rightarrow> db" where
  "openCall ctx sh entry mode attempt s =
     startCapture ctx attempt (nextId s)
       (bumpId (calls_update (\<lambda>t. db_insert t (newCall ctx (nextId s) sh entry mode attempt))
         (patchEntry (did entry) (\<lambda>e. e\<lparr>q_status := Q_SELECTED, q_selectedAt := Some (now ctx)\<rparr>) s)))"

definition createCall :: "ctx \<Rightarrow> show_doc \<Rightarrow> queue_doc \<Rightarrow> selection_mode \<Rightarrow> db \<Rightarrow> error_code + call_view option \<times> db" where
  "createCall ctx sh entry mode s =
     (let attempt = holdOf s entry
      in if q_tierPriceCents entry > 0
            \<and> (case attempt of Some a \<Rightarrow> pa_status a \<noteq> Pay_AUTHORIZED | None \<Rightarrow> True)
         then Inl PAYMENT_CAPTURE_FAILED
         else (let s' = openCall ctx sh entry mode attempt s
               in Inr (map_option (withCaller s') (db_get (calls s') (nextId s)), s')))"

definition calls_select :: "ctx \<Rightarrow> id \<Rightarrow> id \<Rightarrow> db \<Rightarrow> error_code + call_view option \<times> db" where
  "calls_select ctx showId entryId s = bindE (prepareSelection ctx showId s) (\<lambda>sh.
     case db_get (queueEntries s) entryId of
       None \<Rightarrow> Inl CALLER_NOT_WAITING
     | Some entry \<Rightarrow>
         if q_showId entry \<noteq> showId \<or> q_status entry \<noteq> Q_WAITING then Inl CALLER_NOT_WAITING
         else createCall ctx sh entry MANUAL s)"

definition pickRandom :: "rat \<Rightarrow> queue_doc list \<Rightarrow> queue_doc option" where
  "pickRandom r waiting = (case waiting of
     [] \<Rightarrow> None
   | first # _ \<Rightarrow>
       (let last' = last waiting;
            pivot = of_int (q_joinedAt first) + r * of_int (q_joinedAt last' - q_joinedAt first)
        in case List.find (\<lambda>e. of_int (q_joinedAt e) \<ge> pivot) waiting of
             Some chosen \<Rightarrow> Some chosen | None \<Rightarrow> Some last'))"

fun firstRankWaiting :: "rat \<Rightarrow> db \<Rightarrow> id \<Rightarrow> int list \<Rightarrow> queue_doc option" where
  "firstRankWaiting r s showId [] = None"
| "firstRankWaiting r s showId (rank # ranks) =
     (case pickRandom r (waitingAtRank s showId rank) of
        Some e \<Rightarrow> Some e | None \<Rightarrow> firstRankWaiting r s showId ranks)"

definition calls_selectRandom :: "ctx \<Rightarrow> id \<Rightarrow> db \<Rightarrow> error_code + call_view option \<times> db" where
  "calls_selectRandom ctx showId s = bindE (prepareSelection ctx showId s) (\<lambda>sh.
     case firstRankWaiting (rnd ctx) s showId (tierRanks s showId) of
       None \<Rightarrow> Inl QUEUE_EMPTY
     | Some entry \<Rightarrow> createCall ctx sh entry RANDOM s)"

definition calls_active :: "ctx \<Rightarrow> id \<Rightarrow> db \<Rightarrow> error_code + call_view option" where
  "calls_active ctx showId s = bindE (requireCreatorId ctx s) (\<lambda>creatorId.
     bindE (showForCreator s showId creatorId) (\<lambda>_.
       Inr (map_option (withCaller s) (activeCallForShow s showId))))"

definition calls_mine :: "ctx \<Rightarrow> id \<Rightarrow> db \<Rightarrow> error_code + call_view option" where
  "calls_mine ctx showId s = bindE (requireUserId ctx) (\<lambda>viewerId.
     Inr (map_option (withCaller s) (List.find (\<lambda>c. c_status c \<noteq> Call_PAYMENT_PENDING)
       (query_desc (\<lambda>c. c_viewerId c = viewerId \<and> c_showId c = showId) (\<lambda>_. 0::nat) (calls s)))))"

text \<open>The statuses a client may ask for, and those each role may set.\<close>

definition allowedTargets :: "call_role \<Rightarrow> call_status list" where
  "allowedTargets role = (case role of
     Creator \<Rightarrow> [Call_CONNECTING, Call_LIVE, Call_ENDED, Call_FAILED]
   | Viewer \<Rightarrow> [Call_LIVE, Call_ENDED, Call_FAILED])"

definition calls_transition :: "ctx \<Rightarrow> id \<Rightarrow> call_status \<Rightarrow> db \<Rightarrow> error_code + call_view \<times> db" where
  "calls_transition ctx callId status s = bindE (callForParticipant ctx callId s) (\<lambda>(call, role).
     if status \<notin> set (allowedTargets role) then Inl INVALID_CALL_STATE
     else bindE (applyTransition ctx call status s) (\<lambda>(c, s'). Inr (withCaller s' c, s')))"

definition calls_expire :: "ctx \<Rightarrow> id \<Rightarrow> db \<Rightarrow> error_code + db" where
  "calls_expire ctx callId s = (case db_get (calls s) callId of
     None \<Rightarrow> Inr s
   | Some call \<Rightarrow>
       if c_status call \<noteq> Call_LIVE
          \<or> (case c_expiresAt call of Some t \<Rightarrow> t | None \<Rightarrow> 0) > now ctx
       then Inr s
       else bindE (applyTransition ctx call Call_ENDED s) (\<lambda>(_, s'). Inr s'))"

end
