(* ===== verification/Tier_Form.thy ===== *)
theory Tier_Form
  imports Tiers Fees
begin

text \<open>
  The studio's tier form: the number formats of \<open>src/components/studio/format.ts\<close>, the schema
  \<open>tierConfigSchema\<close> of \<open>src/lib/schemas.ts\<close>, the conversions of
  \<open>src/components/studio/TierConfiguration.tsx\<close> and the pricing page's \<open>creatorTakeHomeCents\<close>
  of \<open>src/lib/site.ts\<close>.  Numbers are rationals: the form's keystroke masks let only decimals
  with at most two places into the two number fields, and on those the double arithmetic of the source is
  exact after its own rounding.
\<close>

section \<open>Decimals\<close>

definition is_digit :: "char \<Rightarrow> bool" where
  "is_digit c \<longleftrightarrow> (let n = of_char c :: nat in 48 \<le> n \<and> n \<le> 57)"

definition digit_value :: "char \<Rightarrow> nat" where
  "digit_value c = of_char c - 48"

definition digit_char :: "nat \<Rightarrow> char" where
  "digit_char n = char_of (48 + n mod 10)"

text \<open>\<open>String(n)\<close> for a whole number.\<close>

fun decimal :: "nat \<Rightarrow> string" where
  "decimal n = (if n < 10 then [digit_char n] else decimal (n div 10) @ [digit_char n])"

declare decimal.simps [simp del]

definition read_digits :: "string \<Rightarrow> nat" where
  "read_digits cs = foldl (\<lambda>n c. 10 * n + digit_value c) 0 cs"

text \<open>The mask \<open>/^\d*(?:\.\d{0,2})?$/\<close>: the digits before the point and those after it.\<close>

definition decimal_parts :: "string \<Rightarrow> (string \<times> string) option" where
  "decimal_parts value = (case dropWhile is_digit value of
     [] \<Rightarrow> Some (value, [])
   | c # rest \<Rightarrow> if c = CHR ''.'' \<and> list_all is_digit rest \<and> length rest \<le> 2
       then Some (takeWhile is_digit value, rest) else None)"

text \<open>
  \<open>Number(value)\<close> on a string that passes the mask: the empty string is zero, a lone point is
  not a number.
\<close>

definition js_number :: "string \<Rightarrow> rat option" where
  "js_number value = (case decimal_parts value of
     None \<Rightarrow> None
   | Some (whole, fraction) \<Rightarrow>
       if value = ''.'' then None
       else Some (of_nat (read_digits whole) + of_nat (read_digits fraction) / 10 ^ length fraction))"

text \<open>\<open>Math.round\<close>: halves go up.\<close>

definition math_round :: "rat \<Rightarrow> int" where
  "math_round x = floor (x + 1/2)"

section \<open>format.ts\<close>

definition MINIMUM_PAID_TIER_CENTS :: int where "MINIMUM_PAID_TIER_CENTS = 50"

definition DEFAULT_PAID_TIER_CENTS :: int where "DEFAULT_PAID_TIER_CENTS = 500"

text \<open>\<open>toFixed(2)\<close> of a number of hundredths that is not negative.\<close>

definition fixed2 :: "nat \<Rightarrow> string" where
  "fixed2 h = decimal (h div 100) @ ''.'' @ [digit_char (h div 10), digit_char h]"

definition priceInputFromCents :: "int \<Rightarrow> string" where
  "priceInputFromCents cents = fixed2 (nat cents)"

text \<open>\<open>Number(x.toFixed(2)).toString()\<close>: the two places without trailing zeros.\<close>

definition shortest2 :: "nat \<Rightarrow> string" where
  "shortest2 h = decimal (h div 100) @
     (if h mod 100 = 0 then [] else if h mod 10 = 0 then ''.'' @ [digit_char (h div 10)]
      else ''.'' @ [digit_char (h div 10), digit_char h])"

definition durationInputFromSeconds :: "int \<Rightarrow> string" where
  "durationInputFromSeconds seconds = shortest2 (nat (round_div (seconds * 100) 60))"

definition centsFromPriceInput :: "string \<Rightarrow> int option" where
  "centsFromPriceInput value =
     (if decimal_parts value = None then None
      else if value = [] \<or> value = ''.'' then Some 0
      else (case js_number value of
              None \<Rightarrow> None
            | Some dollars \<Rightarrow> if dollars > 10000 then None else Some (math_round (dollars * 100))))"

definition estimatedCreatorEarningsCents :: "int \<Rightarrow> int" where
  "estimatedCreatorEarningsCents amountCents =
     (let basicCardFeeCents = math_round (of_int amountCents * (29/1000)) + 30;
          creatorCardFeeCents = basicCardFeeCents div 2
      in max 0 (floor (of_int amountCents * (8/10 :: rat)) - creatorCardFeeCents))"

section \<open>site.ts\<close>

definition creatorTakeHomeCents :: "int \<Rightarrow> int \<Rightarrow> int" where
  "creatorTakeHomeCents priceCents creatorSharePercent =
     (let cardFeeCents = (priceCents * 290 + 5000) div 10000 + 30
      in (priceCents * creatorSharePercent * 100) div 10000 - cardFeeCents div 2)"

section \<open>The form's values\<close>

record tier_values =
  tv_name :: string
  tv_duration :: string
  tv_paid :: bool
  tv_price :: string
  tv_enabled :: bool

definition tierValuesFromServer :: "tier_doc \<Rightarrow> tier_values" where
  "tierValuesFromServer tier = \<lparr>tv_name = ti_name tier, tv_duration = durationInputFromSeconds (ti_callDurationSeconds tier),
     tv_paid = (ti_priceCents tier > 0), tv_price = priceInputFromCents (ti_priceCents tier), tv_enabled = ti_enabled tier\<rparr>"

text \<open>
  A duration that is not a number would reach the server as \<open>NaN\<close>; the schema lets none
  through, and the model writes zero there.
\<close>

definition tierInputFromValues :: "tier_values \<Rightarrow> tier_input" where
  "tierInputFromValues tier = \<lparr>tin_name = tv_name tier,
     tin_callDurationSeconds = of_int (math_round ((case js_number (tv_duration tier) of Some m \<Rightarrow> m | None \<Rightarrow> 0) * 60)),
     tin_priceCents = (if tv_paid tier then of_int (case centsFromPriceInput (tv_price tier) of Some c \<Rightarrow> c | None \<Rightarrow> 0) else 0),
     tin_enabled = tv_enabled tier\<rparr>"

section \<open>tierSchema and tierConfigSchema\<close>

text \<open>
  What a schema lets through, with the name trimmed as the parse leaves it; the messages shown beside a
  refused field are not modelled.
\<close>

definition nameField :: "string \<Rightarrow> bool" where
  "nameField name \<longleftrightarrow> 1 \<le> length name \<and> length name \<le> 40"

definition durationField :: "string \<Rightarrow> bool" where
  "durationField value \<longleftrightarrow> (case js_number value of
     Some minutes \<Rightarrow> value \<noteq> [] \<and> minutes \<ge> 1/2 \<and> minutes \<le> 60 | None \<Rightarrow> False)"

definition priceRefinement :: "tier_values \<Rightarrow> bool" where
  "priceRefinement tier \<longleftrightarrow> \<not> tv_paid tier \<or> (case centsFromPriceInput (tv_price tier) of
     Some cents \<Rightarrow> cents \<ge> MINIMUM_PAID_TIER_CENTS | None \<Rightarrow> False)"

definition tierSchema :: "tier_values \<Rightarrow> tier_values option" where
  "tierSchema tier =
     (let parsed = tier\<lparr>tv_name := trim (tv_name tier)\<rparr>
      in if nameField (tv_name parsed) \<and> durationField (tv_duration tier) \<and> priceRefinement parsed
         then Some parsed else None)"

definition FORM_MAX_TIERS :: nat where "FORM_MAX_TIERS = 5"

definition tierConfigSchema :: "tier_values list \<Rightarrow> tier_values list option" where
  "tierConfigSchema tiers =
     (if length tiers < 1 \<or> length tiers > FORM_MAX_TIERS then None else those (map tierSchema tiers))"

text \<open>The form's submit: what it sends to \<open>tiers.replace\<close>, if the schema lets it.\<close>

definition submittedTiers :: "tier_values list \<Rightarrow> tier_input list option" where
  "submittedTiers tiers = map_option (map tierInputFromValues) (tierConfigSchema tiers)"

end
