(* ===== verification/Rtc.thy ===== *)
theory Rtc
  imports Calls Tier_Form "HOL-Library.Sublist"
begin

text \<open>
  The servers a call's browsers may relay through, \<open>convex/rtc.ts\<close>.  The request to
  Cloudflare is a parameter that answers with its list of servers or fails; so is the keyed hash with which a
  coturn credential is made.
\<close>

record ice_server =
  is_urls :: "string list"
  is_username :: "string option"
  is_credential :: "string option"

record rtc_env =
  STUN_URLS :: "string option"
  TURN_URL :: "string option"
  TURN_SHARED_SECRET :: "string option"
  TURN_CREDENTIAL_TTL_SECONDS :: env_num
  CLOUDFLARE_TURN_KEY_ID :: "string option"
  CLOUDFLARE_TURN_API_TOKEN :: "string option"

definition rtc_participant :: "ctx \<Rightarrow> id \<Rightarrow> db \<Rightarrow> error_code + id" where
  "rtc_participant ctx callId s = bindE (callForParticipant ctx callId s) (\<lambda>(call, role).
     if c_status call \<notin> set CONNECTABLE_STATUSES then Inl CALL_NOT_FOUND
     else Inr (case role of Creator \<Rightarrow> c_creatorId call | Viewer \<Rightarrow> c_viewerId call))"

text \<open>\<open>value.split(",")\<close>\<close>

fun split_comma :: "string \<Rightarrow> string list" where
  "split_comma [] = [[]]"
| "split_comma (c # cs) = (if c = CHR '','' then [] # split_comma cs
     else (case split_comma cs of [] \<Rightarrow> [[c]] | w # ws \<Rightarrow> (c # w) # ws))"

definition stunServers :: "rtc_env \<Rightarrow> ice_server list" where
  "stunServers renv =
     (let raw = (case STUN_URLS renv of Some x \<Rightarrow> x | None \<Rightarrow> ''stun:stun.l.google.com:19302'');
          stun = filter (\<lambda>u. u \<noteq> []) (map trim (split_comma raw))
      in if stun = [] then [] else [\<lparr>is_urls = stun, is_username = None, is_credential = None\<rparr>])"

text \<open>\<open>Number(env ?? fallback)\<close>, and how a sum with it prints.\<close>

definition ttlSeconds :: "rtc_env \<Rightarrow> int \<Rightarrow> int option" where
  "ttlSeconds renv fallback = (case TURN_CREDENTIAL_TTL_SECONDS renv of
     Unset \<Rightarrow> Some fallback | NotNumber \<Rightarrow> None | IntNum n \<Rightarrow> Some n)"

definition print_int :: "int \<Rightarrow> string" where
  "print_int n = (if n < 0 then CHR ''-'' # decimal (nat (- n)) else decimal (nat n))"

text \<open>\<open>turnCredential\<close>: the username carries the expiry and the user the credential is for.\<close>

definition turnUsername :: "id \<Rightarrow> int \<Rightarrow> int option \<Rightarrow> string" where
  "turnUsername subject nowMs ttl =
     (case ttl of Some t \<Rightarrow> print_int (nowMs div 1000 + t) | None \<Rightarrow> ''NaN'') @ '':'' @ decimal subject"

definition turnCredential :: "(string \<Rightarrow> string \<Rightarrow> string) \<Rightarrow> string \<Rightarrow> id \<Rightarrow> int \<Rightarrow> int option \<Rightarrow> string \<Rightarrow> ice_server" where
  "turnCredential hmac secret subject nowMs ttl url =
     \<lparr>is_urls = [url], is_username = Some (turnUsername subject nowMs ttl),
      is_credential = Some (hmac secret (turnUsername subject nowMs ttl))\<rparr>"

definition CLOUDFLARE_TTL_SECONDS :: int where "CLOUDFLARE_TTL_SECONDS = 4 * 60 * 60"

text \<open>The test \<open>/:53(\?|$)/\<close> on a URL.\<close>

definition port53 :: "string \<Rightarrow> bool" where
  "port53 url \<longleftrightarrow> list_ex (\<lambda>u. u = '':53'' \<or> take 4 u = '':53?'') (suffixes url)"

definition reachableServers :: "ice_server list \<Rightarrow> ice_server list" where
  "reachableServers servers =
     filter (\<lambda>v. is_urls v \<noteq> []) (map (is_urls_update (filter (\<lambda>u. \<not> port53 u))) servers)"

definition cloudflareIceServers ::
    "(string \<Rightarrow> string \<Rightarrow> int option \<Rightarrow> ice_server list option) \<Rightarrow> rtc_env \<Rightarrow> ice_server list option" where
  "cloudflareIceServers generate renv =
     (case (CLOUDFLARE_TURN_KEY_ID renv, CLOUDFLARE_TURN_API_TOKEN renv) of
        (Some (k # ks), Some (t # ts)) \<Rightarrow>
          (case generate (k # ks) (t # ts) (ttlSeconds renv CLOUDFLARE_TTL_SECONDS) of
             Some answer \<Rightarrow> if reachableServers answer \<noteq> [] then Some (reachableServers answer)
               else Some [\<lparr>is_urls = [''stun:stun.cloudflare.com:3478''], is_username = None, is_credential = None\<rparr>]
           | None \<Rightarrow> Some [\<lparr>is_urls = [''stun:stun.cloudflare.com:3478''], is_username = None, is_credential = None\<rparr>])
      | _ \<Rightarrow> None)"

definition rtc_config :: "(string \<Rightarrow> string \<Rightarrow> int option \<Rightarrow> ice_server list option) \<Rightarrow> (string \<Rightarrow> string \<Rightarrow> string)
    \<Rightarrow> rtc_env \<Rightarrow> ctx \<Rightarrow> id \<Rightarrow> db \<Rightarrow> error_code + ice_server list" where
  "rtc_config generate hmac renv ctx callId s = bindE (rtc_participant ctx callId s) (\<lambda>subject.
     case cloudflareIceServers generate renv of
       Some servers \<Rightarrow> Inr servers
     | None \<Rightarrow> Inr (stunServers renv @
         (case (TURN_URL renv, TURN_SHARED_SECRET renv) of
            (Some (u # us), Some (k # ks)) \<Rightarrow> [turnCredential hmac (k # ks) subject (now ctx) (ttlSeconds renv 900) (u # us)]
          | _ \<Rightarrow> [])))"

end
