(* ===== verification/Follows.thy ===== *)
theory Follows
  imports Social_Lib
begin

text \<open>
  Follows, \<open>convex/follows.ts\<close>: an idempotent target state, a per-user count, and a
  creator's follower total spread over 64 shards that \<open>project\<close> sums into the profile.
\<close>

definition SHARDS :: nat where "SHARDS = 64"

definition MAX_FOLLOWS :: int where "MAX_FOLLOWS = 1000"

definition PROJECTION_DELAY_MS :: int where "PROJECTION_DELAY_MS = 5000"

definition followRow :: "db \<Rightarrow> id \<Rightarrow> id \<Rightarrow> follow_doc option" where
  "followRow s followerId creatorId =
     first_by (\<lambda>f. fo_followerId f = followerId \<and> fo_creatorId f = creatorId) (follows s)"

definition shardAt :: "db \<Rightarrow> id \<Rightarrow> nat \<Rightarrow> shard_doc option" where
  "shardAt s creatorId n =
     first_by (\<lambda>d. fs_creatorId d = creatorId \<and> fs_shard d = n) (followerShards s)"

definition startShard :: "ctx \<Rightarrow> nat" where
  "startShard ctx = nat (floor (rnd ctx * of_nat SHARDS))"

definition patchShard :: "id \<Rightarrow> int \<Rightarrow> db \<Rightarrow> db" where
  "patchShard i count s = followerShards_update (\<lambda>t. db_patch t i (\<lambda>d. d\<lparr>fs_count := count\<rparr>)) s"

definition incShard :: "ctx \<Rightarrow> id \<Rightarrow> nat \<Rightarrow> db \<Rightarrow> db" where
  "incShard ctx creatorId start s = (case shardAt s creatorId start of
     Some d \<Rightarrow> patchShard (did d) (fs_count d + 1) s
   | None \<Rightarrow> bumpId (followerShards_update (\<lambda>t. db_insert t
       \<lparr>did = nextId s, ctime = now ctx, fs_creatorId = creatorId, fs_shard = start,
        fs_count = 1\<rparr>) s))"

text \<open>The \<open>for\<close> loop over the offsets, ending at the first non-empty shard.\<close>

fun decShard :: "id \<Rightarrow> nat \<Rightarrow> nat list \<Rightarrow> db \<Rightarrow> db" where
  "decShard creatorId start [] s = s"
| "decShard creatorId start (off # rest) s =
     (case shardAt s creatorId ((start + off) mod SHARDS) of
        Some d \<Rightarrow> if fs_count d > 0 then patchShard (did d) (fs_count d - 1) s
                   else decShard creatorId start rest s
      | None \<Rightarrow> decShard creatorId start rest s)"

definition scheduleProjection :: "ctx \<Rightarrow> id \<Rightarrow> db \<Rightarrow> db" where
  "scheduleProjection ctx creatorId s =
     (case first_by (\<lambda>p. fp_creatorId p = creatorId) (followerProjections s) of
        Some _ \<Rightarrow> s
      | None \<Rightarrow> runAfter ctx PROJECTION_DELAY_MS (FollowsProject creatorId)
          (bumpId (followerProjections_update (\<lambda>t. db_insert t
             \<lparr>did = nextId s, ctime = now ctx, fp_creatorId = creatorId\<rparr>) s)))"

definition adjustShard :: "ctx \<Rightarrow> id \<Rightarrow> bool \<Rightarrow> db \<Rightarrow> db" where
  "adjustShard ctx creatorId up s = scheduleProjection ctx creatorId
     (if up then incShard ctx creatorId (startShard ctx) s
      else decShard creatorId (startShard ctx) [0..<SHARDS] s)"

definition countRow :: "db \<Rightarrow> id \<Rightarrow> following_count_doc option" where
  "countRow s userId = first_by (\<lambda>c. fc_userId c = userId) (followingCounts s)"

definition setCount :: "ctx \<Rightarrow> id \<Rightarrow> following_count_doc option \<Rightarrow> int \<Rightarrow> db \<Rightarrow> db" where
  "setCount ctx userId row n s = (case row of
     Some r \<Rightarrow> followingCounts_update (\<lambda>t. db_patch t (did r) (\<lambda>d. d\<lparr>fc_count := n\<rparr>)) s
   | None \<Rightarrow> bumpId (followingCounts_update (\<lambda>t. db_insert t
       \<lparr>did = nextId s, ctime = now ctx, fc_userId = userId, fc_count = n\<rparr>) s))"

definition writeFollow :: "ctx \<Rightarrow> id \<Rightarrow> id \<Rightarrow> follow_doc option \<Rightarrow> db \<Rightarrow> db" where
  "writeFollow ctx userId creatorId existing s = (case existing of
     None \<Rightarrow> bumpId (follows_update (\<lambda>t. db_insert t
       \<lparr>did = nextId s, ctime = now ctx, fo_followerId = userId, fo_creatorId = creatorId\<rparr>) s)
   | Some f \<Rightarrow> follows_update (\<lambda>t. db_delete t (did f)) s)"

text \<open>What follows the rate limit in \<open>setFollow\<close>; \<open>existing\<close> is absent exactly when following.\<close>

definition applyFollow :: "ctx \<Rightarrow> id \<Rightarrow> id \<Rightarrow> follow_doc option \<Rightarrow> bool \<Rightarrow> db \<Rightarrow> error_code + db" where
  "applyFollow ctx userId creatorId existing follow s =
     (let row = countRow s userId;
          count = (case row of Some r \<Rightarrow> fc_count r | None \<Rightarrow> 0)
      in if follow \<and> count \<ge> MAX_FOLLOWS then Inl FOLLOW_LIMIT
         else Inr (adjustShard ctx creatorId follow (writeFollow ctx userId creatorId existing
                     (setCount ctx userId row (count + (if follow then 1 else -1)) s))))"

definition setFollow :: "ctx \<Rightarrow> string \<Rightarrow> bool \<Rightarrow> db \<Rightarrow> error_code + bool \<times> db" where
  "setFollow ctx username follow s = bindE (requireCreatorId ctx s) (\<lambda>userId.
     case profileByUsername s username of
       None \<Rightarrow> Inl CREATOR_NOT_FOUND
     | Some creator \<Rightarrow>
         if follow \<and> \<not> p_published creator then Inl CREATOR_NOT_FOUND
         else if p_userId creator = userId then Inl SELF_FOLLOW
         else (let existing = followRow s userId (p_userId creator)
               in if (existing \<noteq> None) = follow then Inr (follow, s)
                  else bindE (rateLimit ctx (RateFollow userId) 60 60000 s) (\<lambda>s1.
                       bindE (applyFollow ctx userId (p_userId creator) existing follow s1)
                         (\<lambda>s2. Inr (follow, s2)))))"

definition shardTotal :: "db \<Rightarrow> id \<Rightarrow> int" where
  "shardTotal s creatorId =
     sum_list (map fs_count (filter (\<lambda>d. fs_creatorId d = creatorId) (followerShards s)))"

definition follows_project :: "id \<Rightarrow> db \<Rightarrow> db" where
  "follows_project creatorId s =
     (let total = shardTotal s creatorId;
          s1 = (case profileForUser s creatorId of
                  Some profile \<Rightarrow> if p_followerCount profile \<noteq> total
                    then patchProfile (did profile) (\<lambda>p. p\<lparr>p_followerCount := total\<rparr>) s else s
                | None \<Rightarrow> s)
      in followerProjections_update (filter (\<lambda>m. fp_creatorId m \<noteq> creatorId)) s1)"

definition followingCount :: "ctx \<Rightarrow> db \<Rightarrow> error_code + int" where
  "followingCount ctx s = bindE (requireCreatorId ctx s) (\<lambda>userId.
     Inr (case countRow s userId of Some r \<Rightarrow> fc_count r | None \<Rightarrow> 0))"

end
