(* ===== verification/Notifications.thy ===== *)
theory Notifications
  imports Follows
begin

text \<open>
  "Creator went live" notifications, \<open>convex/notifications.ts\<close>; visitor counts of live
  shows, \<open>convex/channels.ts\<close>; and the live-alert emails of \<open>convex/liveAlerts.ts\<close> up
  to the call of the email service.  Positions stand for pagination cursors.
\<close>

section \<open>notifications.ts\<close>

definition NOTIFICATION_WINDOW_MS :: int where "NOTIFICATION_WINDOW_MS = 30 * 24 * 60 * 60000"

definition PAGE :: nat where "PAGE = 24"

definition PER_CREATOR :: nat where "PER_CREATOR = 25"

definition UNREAD_CAP :: nat where "UNREAD_CAP = 100"

definition UNREAD_SCAN :: nat where "UNREAD_SCAN = 500"

definition PRUNE_BATCH :: nat where "PRUNE_BATCH = 500"

definition eventsFor :: "db \<Rightarrow> int \<Rightarrow> follow_doc \<Rightarrow> (live_event_doc \<times> profile_doc) list" where
  "eventsFor s t follow = (case profileForUser s (fo_creatorId follow) of
     None \<Rightarrow> []
   | Some creator \<Rightarrow> if \<not> p_published creator then []
       else map (\<lambda>e. (e, creator)) (take PER_CREATOR (rev (sort_key ctime (filter
              (\<lambda>e. lv_creatorId e = fo_creatorId follow
                   \<and> ctime e \<ge> max (ctime follow) (t - NOTIFICATION_WINDOW_MS)) (liveEvents s))))))"

definition visibleEvents :: "db \<Rightarrow> id \<Rightarrow> int \<Rightarrow> (live_event_doc \<times> profile_doc) list" where
  "visibleEvents s userId t = sort_key (\<lambda>(e, _). - ctime e)
     (concat (map (eventsFor s t)
       (query_asc (\<lambda>f. fo_followerId f = userId) fo_creatorId (follows s))))"

definition isRead :: "db \<Rightarrow> id \<Rightarrow> id \<Rightarrow> bool" where
  "isRead s userId eventId \<longleftrightarrow>
     first_by (\<lambda>r. nr_userId r = userId \<and> nr_eventId r = eventId) (notificationReads s) \<noteq> None"

record notification_item =
  ni_id :: id
  ni_username :: string
  ni_displayName :: string
  ni_avatarUrl :: string
  ni_showId :: id
  ni_createdAt :: int
  ni_isLive :: bool
  ni_read :: bool

record notification_page =
  np_items :: "notification_item list"
  np_before :: "int option"
  np_unreadCount :: nat
  np_unreadCapped :: bool

definition notificationItem :: "(id \<Rightarrow> string option) \<Rightarrow> db \<Rightarrow> id \<Rightarrow> live_event_doc \<times> profile_doc \<Rightarrow> notification_item" where
  "notificationItem getUrl s userId = (\<lambda>(e, creator).
     \<lparr>ni_id = did e, ni_username = p_username creator, ni_displayName = p_displayName creator,
      ni_avatarUrl = avatarUrl getUrl creator, ni_showId = lv_showId e, ni_createdAt = ctime e,
      ni_isLive = (p_isLive creator \<and> p_liveShowId creator = Some (lv_showId e)),
      ni_read = isRead s userId (did e)\<rparr>)"

text \<open>The counting loop: unread so far and scanned so far.\<close>

fun countUnread :: "(id \<Rightarrow> bool) \<Rightarrow> id list \<Rightarrow> nat \<Rightarrow> nat \<Rightarrow> nat \<times> nat" where
  "countUnread read [] unread scanned = (unread, scanned)"
| "countUnread read (e # rest) unread scanned =
     (if unread \<ge> UNREAD_CAP \<or> scanned \<ge> UNREAD_SCAN then (unread, scanned)
      else countUnread read rest (if read e then unread else Suc unread) (Suc scanned))"

definition notifications_list :: "(id \<Rightarrow> string option) \<Rightarrow> ctx \<Rightarrow> int option \<Rightarrow> db \<Rightarrow> error_code + notification_page" where
  "notifications_list getUrl ctx before s = bindE (requireCreatorId ctx s) (\<lambda>userId.
     let all = visibleEvents s userId (now ctx);
         page = take (PAGE + 1) (filter (\<lambda>(e, _). case before of
                  None \<Rightarrow> True | Some b \<Rightarrow> ctime e < b) all);
         items = map (notificationItem getUrl s userId) (take PAGE page);
         (unread, scanned) = countUnread (isRead s userId) (map (\<lambda>(e, _). did e) all) 0 0
     in Inr \<lparr>np_items = items,
             np_before = (if length page > PAGE then Some (ni_createdAt (items ! (PAGE - 1))) else None),
             np_unreadCount = unread,
             np_unreadCapped = (unread \<ge> UNREAD_CAP \<or> scanned \<ge> UNREAD_SCAN)\<rparr>)"

definition canSee :: "db \<Rightarrow> id \<Rightarrow> int \<Rightarrow> live_event_doc \<Rightarrow> bool" where
  "canSee s userId t e \<longleftrightarrow> \<not> ctime e < t - NOTIFICATION_WINDOW_MS \<and>
     (case followRow s userId (lv_creatorId e) of
        None \<Rightarrow> False
      | Some f \<Rightarrow> \<not> ctime f > ctime e \<and>
          (case profileForUser s (lv_creatorId e) of Some p \<Rightarrow> p_published p | None \<Rightarrow> False))"

definition markOne :: "ctx \<Rightarrow> id \<Rightarrow> id \<Rightarrow> db \<Rightarrow> db" where
  "markOne ctx userId eventId s = (case db_get (liveEvents s) eventId of
     None \<Rightarrow> s
   | Some e \<Rightarrow> if \<not> canSee s userId (now ctx) e \<or> isRead s userId eventId then s
       else bumpId (notificationReads_update (\<lambda>t. db_insert t
              \<lparr>did = nextId s, ctime = now ctx, nr_userId = userId, nr_eventId = eventId\<rparr>) s))"

definition markRead :: "ctx \<Rightarrow> id list \<Rightarrow> db \<Rightarrow> error_code + db" where
  "markRead ctx ids s = bindE (requireCreatorId ctx s) (\<lambda>userId.
     if length ids < 1 \<or> length ids > 50 then Inl VALIDATION_FAILED
     else bindE (rateLimit ctx (RateReads userId) 120 60000 s)
            (\<lambda>s1. Inr (fold (markOne ctx userId) (js_set ids) s1)))"

fun pruneEvents :: "live_event_doc list \<Rightarrow> nat \<Rightarrow> db \<Rightarrow> nat \<times> db" where
  "pruneEvents [] deleted s = (deleted, s)"
| "pruneEvents (e # rest) deleted s =
     (let receipts = take (PRUNE_BATCH - deleted)
            (filter (\<lambda>r. nr_eventId r = did e) (notificationReads s));
          s1 = fold (\<lambda>r. notificationReads_update (\<lambda>t. db_delete t (did r))) receipts s;
          deleted' = deleted + length receipts
      in if deleted' \<ge> PRUNE_BATCH then (deleted', s1)
         else pruneEvents rest deleted' (liveEvents_update (\<lambda>t. db_delete t (did e)) s1))"

definition notifications_prune :: "ctx \<Rightarrow> db \<Rightarrow> db" where
  "notifications_prune ctx s =
     (let old = take 50 (sort_key ctime (filter
            (\<lambda>e. ctime e < now ctx - NOTIFICATION_WINDOW_MS) (liveEvents s)));
          (deleted, s') = pruneEvents old 0 s
      in if deleted \<ge> PRUNE_BATCH \<or> length old = 50 then runAfter ctx 0 NotificationsPrune s'
         else s')"

section \<open>channels.ts\<close>

definition VISITOR_TTL_MS :: int where "VISITOR_TTL_MS = 90000"

definition VISITOR_COUNT_INTERVAL_MS :: int where "VISITOR_COUNT_INTERVAL_MS = 30000"

definition MIN_HEARTBEAT_GAP_MS :: int where "MIN_HEARTBEAT_GAP_MS = 10000"

definition COUNT_PAGE :: nat where "COUNT_PAGE = 1000"

definition touchVisit :: "ctx \<Rightarrow> id \<Rightarrow> id \<Rightarrow> db \<Rightarrow> db" where
  "touchVisit ctx showId visitorId s =
     (case first_by (\<lambda>v. cv_showId v = showId \<and> cv_visitorId v = visitorId) (channelVisits s) of
        None \<Rightarrow> bumpId (channelVisits_update (\<lambda>t. db_insert t
          \<lparr>did = nextId s, ctime = now ctx, cv_showId = showId, cv_visitorId = visitorId,
           cv_lastSeenAt = now ctx\<rparr>) s)
      | Some visit \<Rightarrow> if now ctx - cv_lastSeenAt visit \<ge> MIN_HEARTBEAT_GAP_MS
          then channelVisits_update (\<lambda>t. db_patch t (did visit)
                 (\<lambda>v. v\<lparr>cv_lastSeenAt := now ctx\<rparr>)) s
          else s)"

definition startCounting :: "ctx \<Rightarrow> id \<Rightarrow> db \<Rightarrow> db" where
  "startCounting ctx showId s = (case statsForShow s showId of
     Some stats \<Rightarrow> if cs_counting stats then s
       else runAfter ctx 0 (ChannelsCountVisitors showId)
              (channelStats_update (\<lambda>t. db_patch t (did stats) (\<lambda>c. c\<lparr>cs_counting := True\<rparr>)) s)
   | None \<Rightarrow> runAfter ctx 0 (ChannelsCountVisitors showId)
       (bumpId (channelStats_update (\<lambda>t. db_insert t
          \<lparr>did = nextId s, ctime = now ctx, cs_showId = showId, cs_visitors = 1,
           cs_counting = True\<rparr>) s)))"

definition channels_heartbeat :: "ctx \<Rightarrow> string \<Rightarrow> db \<Rightarrow> error_code + int \<times> db" where
  "channels_heartbeat ctx username s = bindE (requireUserId ctx) (\<lambda>visitorId.
     case profileByUsername s username of
       None \<Rightarrow> Inl SHOW_NOT_LIVE
     | Some profile \<Rightarrow>
         if \<not> (p_published profile \<and> p_isLive profile) then Inl SHOW_NOT_LIVE
         else (case p_liveShowId profile of
                 None \<Rightarrow> Inl SHOW_NOT_LIVE
               | Some showId \<Rightarrow> Inr (VISITOR_TTL_MS div 1000,
                   startCounting ctx showId (touchVisit ctx showId visitorId s))))"

text \<open>What the sizes of the pages of \<open>countPage\<close> add up to when no visit is written between them.\<close>

definition recentVisitors :: "id \<Rightarrow> int \<Rightarrow> db \<Rightarrow> nat" where
  "recentVisitors showId since s =
     length (filter (\<lambda>v. cv_showId v = showId \<and> cv_lastSeenAt v > since) (channelVisits s))"

definition storeStats :: "ctx \<Rightarrow> id \<Rightarrow> int \<Rightarrow> bool \<Rightarrow> bool \<Rightarrow> db \<Rightarrow> db" where
  "storeStats ctx showId visitors live counting s = (case statsForShow s showId of
     None \<Rightarrow> if live
       then bumpId (channelStats_update (\<lambda>t. db_insert t
              \<lparr>did = nextId s, ctime = now ctx, cs_showId = showId, cs_visitors = visitors,
               cs_counting = counting\<rparr>) s)
       else s
   | Some stats \<Rightarrow>
       if live
       then (if cs_visitors stats \<noteq> visitors \<or> cs_counting stats \<noteq> counting
             then channelStats_update (\<lambda>t. db_patch t (did stats)
                    (\<lambda>c. c\<lparr>cs_visitors := visitors, cs_counting := counting\<rparr>)) s
             else s)
       else channelStats_update (\<lambda>t. db_delete t (did stats)) s)"

definition storeCount :: "ctx \<Rightarrow> id \<Rightarrow> int \<Rightarrow> int \<Rightarrow> db \<Rightarrow> db" where
  "storeCount ctx showId visitors since s =
     (let live = (case db_get (shows_tbl s) showId of
                    Some sh \<Rightarrow> sh_status sh = Show_LIVE | None \<Rightarrow> False);
          counting = (live \<and> visitors > 0);
          s1 = storeStats ctx showId visitors live counting s;
          expired = take COUNT_PAGE (query_asc (\<lambda>v. cv_showId v = showId
                      \<and> (live \<longrightarrow> cv_lastSeenAt v \<le> since)) cv_lastSeenAt (channelVisits s1));
          s2 = fold (\<lambda>v. channelVisits_update (\<lambda>t. db_delete t (did v))) expired s1
      in if counting \<or> length expired = COUNT_PAGE
         then runAfter ctx (if counting then VISITOR_COUNT_INTERVAL_MS else 0)
                (ChannelsCountVisitors showId) s2
         else s2)"

definition countVisitors :: "ctx \<Rightarrow> id \<Rightarrow> db \<Rightarrow> db" where
  "countVisitors ctx showId s =
     (let since = now ctx - VISITOR_TTL_MS
      in storeCount ctx showId (int (recentVisitors showId since s)) since s)"

section \<open>liveAlerts.ts\<close>

definition BATCH :: nat where "BATCH = 100"

definition MAX_SEND_ATTEMPTS :: nat where "MAX_SEND_ATTEMPTS = 3"

definition preferenceOf :: "db \<Rightarrow> id \<Rightarrow> email_pref_doc option" where
  "preferenceOf s userId = first_by (\<lambda>p. em_userId p = userId) (emailPreferences s)"

text \<open>A follower who is told: with an email, signed in, and alerts not turned off.\<close>

definition recipientFor :: "db \<Rightarrow> follow_doc \<Rightarrow> (id \<times> string) option" where
  "recipientFor s follow = (case db_get (users s) (fo_followerId follow) of
     None \<Rightarrow> None
   | Some user \<Rightarrow>
       if \<not> truthy (u_email user) \<or> u_isAnonymous user = Some True then None
       else (case preferenceOf s (did user) of
               Some prefs \<Rightarrow> if em_liveAlerts prefs then Some (did user, the (u_email user)) else None
             | None \<Rightarrow> Some (did user, the (u_email user))))"

definition liveAlerts_collect :: "ctx \<Rightarrow> id \<Rightarrow> nat option \<Rightarrow> nat \<Rightarrow> db \<Rightarrow> db" where
  "liveAlerts_collect ctx showId cursor batch s = (case db_get (shows_tbl s) showId of
     None \<Rightarrow> s
   | Some sh \<Rightarrow> if sh_status sh \<noteq> Show_LIVE then s
       else (case profileForUser s (sh_creatorId sh) of
               None \<Rightarrow> s
             | Some profile \<Rightarrow>
                 (let start = (case cursor of Some n \<Rightarrow> n | None \<Rightarrow> 0);
                      page = take BATCH (drop start
                        (filter (\<lambda>f. fo_creatorId f = sh_creatorId sh) (follows s)));
                      recipients = List.map_filter (recipientFor s) page;
                      s1 = (if recipients \<noteq> []
                            then runAfter ctx 0 (LiveAlertsSend showId batch (p_username profile)
                                   (p_displayName profile) recipients 1) s
                            else s)
                  in if length page < BATCH then s1
                     else runAfter ctx 0 (LiveAlertsCollect showId (Some (start + length page))
                            (batch + 1)) s1)))"

text \<open>
  \<open>send\<close> after the request: nothing when it was only logged, not configured or accepted;
  otherwise another attempt later.
\<close>

datatype send_outcome = Sent_or_skipped | Send_rejected

definition liveAlerts_send :: "ctx \<Rightarrow> id \<Rightarrow> nat \<Rightarrow> string \<Rightarrow> string \<Rightarrow> (id \<times> string) list \<Rightarrow> nat \<Rightarrow> send_outcome
    \<Rightarrow> db \<Rightarrow> db" where
  "liveAlerts_send ctx showId batch username displayName recipients attempt outcome s =
     (case outcome of
        Sent_or_skipped \<Rightarrow> s
      | Send_rejected \<Rightarrow> if attempt < MAX_SEND_ATTEMPTS
          then runAfter ctx (int attempt * 30000) (LiveAlertsSend showId batch username displayName
                 recipients (attempt + 1)) s
          else s)"

definition alerts_preferences :: "ctx \<Rightarrow> db \<Rightarrow> error_code + (string \<times> bool) option" where
  "alerts_preferences ctx s = bindE (requireUserId ctx) (\<lambda>userId.
     Inr (case db_get (users s) userId of
            None \<Rightarrow> None
          | Some user \<Rightarrow> if \<not> truthy (u_email user) \<or> u_isAnonymous user = Some True then None
              else Some (the (u_email user), case preferenceOf s userId of
                     Some p \<Rightarrow> em_liveAlerts p | None \<Rightarrow> True)))"

definition savePreference :: "ctx \<Rightarrow> id \<Rightarrow> bool \<Rightarrow> db \<Rightarrow> db" where
  "savePreference ctx userId liveAlerts s = (case preferenceOf s userId of
     Some p \<Rightarrow> emailPreferences_update (\<lambda>t. db_patch t (did p)
       (\<lambda>d. d\<lparr>em_liveAlerts := liveAlerts\<rparr>)) s
   | None \<Rightarrow> bumpId (emailPreferences_update (\<lambda>t. db_insert t
       \<lparr>did = nextId s, ctime = now ctx, em_userId = userId, em_liveAlerts = liveAlerts\<rparr>) s))"

definition setLiveAlerts :: "ctx \<Rightarrow> bool \<Rightarrow> db \<Rightarrow> error_code + db" where
  "setLiveAlerts ctx enabled s = bindE (requireUserId ctx) (\<lambda>userId.
     case db_get (users s) userId of
       None \<Rightarrow> Inl UNAUTHENTICATED
     | Some user \<Rightarrow> if \<not> truthy (u_email user) \<or> u_isAnonymous user = Some True
         then Inl UNAUTHENTICATED else Inr (savePreference ctx userId enabled s))"

definition alerts_unsubscribe :: "ctx \<Rightarrow> id \<Rightarrow> db \<Rightarrow> db" where
  "alerts_unsubscribe ctx userId s = (case db_get (users s) userId of
     None \<Rightarrow> s | Some _ \<Rightarrow> savePreference ctx userId False s)"

definition allowSend :: "ctx \<Rightarrow> string \<Rightarrow> db \<Rightarrow> error_code + db" where
  "allowSend ctx email s = rateLimit ctx (RateReset email) 3 (15 * 60000) s"

end
