(* ===== verification/Reset_Codes.thy ===== *)
theory Reset_Codes
  imports Notifications "HOL-Library.Word"
begin

text \<open>
  Password reset by an emailed code: \<open>convex/passwordReset.ts\<close> and the reset form of
  \<open>src/lib/schemas.ts\<close>.  The words of \<open>crypto.getRandomValues\<close> are an argument,
  consumed one by one; the mail service is a parameter that says whether it answered well.
  Storing and checking the code is the auth library's.
\<close>

section \<open>passwordReset.ts\<close>

definition RESET_CODE_LENGTH :: nat where "RESET_CODE_LENGTH = 8"

text \<open>\<open>Math.floor(0x1_0000_0000 / 10) * 10\<close>\<close>

definition DIGIT_LIMIT :: nat where "DIGIT_LIMIT = (2 ^ 32 div 10) * 10"

text \<open>
  \<open>randomDigits\<close>: words at or above the limit are drawn again.  When the supplied words run
  out before the code is complete the result is \<open>None\<close>.
\<close>

fun randomDigits :: "nat \<Rightarrow> 32 word list \<Rightarrow> string option" where
  "randomDigits 0 ws = Some []"
| "randomDigits (Suc n) [] = None"
| "randomDigits (Suc n) (w # ws) =
     (if unat w < DIGIT_LIMIT
      then map_option ((#) (char_of (48 + unat (w mod 10)))) (randomDigits n ws)
      else randomDigits (Suc n) ws)"

definition generateVerificationToken :: "32 word list \<Rightarrow> string option" where
  "generateVerificationToken ws = randomDigits RESET_CODE_LENGTH ws"

record reset_env =
  AUTH_EMAIL_LOG_CODES :: "string option"
  AUTH_RESEND_KEY :: "string option"
  AUTH_EMAIL_FROM :: "string option"

text \<open>\<open>sendResetEmail\<close>: logged, unavailable, or posted to the mail service, which may refuse.\<close>

definition sendResetEmail :: "(string \<Rightarrow> string \<Rightarrow> bool) \<Rightarrow> reset_env \<Rightarrow> string \<Rightarrow> string \<Rightarrow> error_code + unit" where
  "sendResetEmail postMail renv email code =
     (if AUTH_EMAIL_LOG_CODES renv = Some ''true'' then Inr ()
      else if \<not> truthy (AUTH_RESEND_KEY renv) \<or> \<not> truthy (AUTH_EMAIL_FROM renv) then Inl EMAIL_UNAVAILABLE
      else if postMail email code then Inr () else Inl EMAIL_UNAVAILABLE)"

text \<open>
  \<open>sendVerificationRequest\<close>, an action: the allowance is a mutation of its own, which stays
  committed when the mail fails afterwards.
\<close>

definition sendVerificationRequest ::
    "(string \<Rightarrow> string \<Rightarrow> bool) \<Rightarrow> reset_env \<Rightarrow> ctx \<Rightarrow> string \<Rightarrow> string \<Rightarrow> db \<Rightarrow> (error_code + unit) \<times> db" where
  "sendVerificationRequest postMail renv ctx identifier token s =
     (let email = toLowerCase (trim identifier)
      in case allowSend ctx email s of
           Inl e \<Rightarrow> (Inl e, s)
         | Inr s' \<Rightarrow> (sendResetEmail postMail renv email token, s'))"

section \<open>The reset form\<close>

definition code_digit :: "char \<Rightarrow> bool" where
  "code_digit c \<longleftrightarrow> (let n = of_char c :: nat in 48 \<le> n \<and> n \<le> 57)"

text \<open>The code field: white space goes, and what is left must be eight digits.\<close>

definition codeField :: "string \<Rightarrow> string option" where
  "codeField value = (let code = filter (\<lambda>c. \<not> js_space c) value
     in if list_all code_digit code \<and> length code = RESET_CODE_LENGTH then Some code else None)"

definition newPasswordField :: "string \<Rightarrow> bool" where
  "newPasswordField password \<longleftrightarrow> 12 \<le> length password \<and> length password \<le> 72"

definition resetWithCodeSchema :: "string \<Rightarrow> string \<Rightarrow> string \<Rightarrow> (string \<times> string) option" where
  "resetWithCodeSchema code password confirmation =
     (case codeField code of
        None \<Rightarrow> None
      | Some c \<Rightarrow> if newPasswordField password \<and> 1 \<le> length confirmation \<and> password = confirmation
          then Some (c, password) else None)"

end
