(* ===== verification/Accounts.thy ===== *)
theory Accounts
  imports Social_Lib Fees Shows
begin

text \<open>
  Accounts and what hangs on them: the sign-up callback and validation of \<open>convex/auth.ts\<close>,
  \<open>convex/users.ts\<close>, and the creator's private notes of \<open>convex/callerNotes.ts\<close>.  The
  session handling and password storage of \<open>@convex-dev/auth\<close> are not modelled.
\<close>

section \<open>Sign-up (auth.ts)\<close>

definition username_char :: "char \<Rightarrow> bool" where
  "username_char c = (let n = (of_char c :: nat)
     in (97 \<le> n \<and> n \<le> 122) \<or> (48 \<le> n \<and> n \<le> 57) \<or> n = 95)"

text \<open>The pattern \<open>/^[a-z0-9_]{3,30}$/\<close>.\<close>

definition USERNAME :: "string \<Rightarrow> bool" where
  "USERNAME u \<longleftrightarrow> 3 \<le> length u \<and> length u \<le> 30 \<and> list_all username_char u"

text \<open>The profile of a sign-in: an email and, when signing up, a username.\<close>

definition passwordProfile :: "string option \<Rightarrow> bool \<Rightarrow> string option \<Rightarrow> error_code + string \<times> string option" where
  "passwordProfile email signUp username =
     (let e = toLowerCase (trim (case email of Some x \<Rightarrow> x | None \<Rightarrow> []))
      in if e = [] \<or> length e > 254 then Inl VALIDATION_FAILED
         else if \<not> signUp then Inr (e, None)
         else (let u = trim (case username of Some x \<Rightarrow> x | None \<Rightarrow> [])
               in if \<not> USERNAME u then Inl VALIDATION_FAILED else Inr (e, Some u)))"

definition validatePasswordRequirements :: "string \<Rightarrow> bool" where
  "validatePasswordRequirements password \<longleftrightarrow> \<not> (length password < 12 \<or> length password > 72)"

definition userByUsername :: "db \<Rightarrow> string \<Rightarrow> user_doc option" where
  "userByUsername s username = first_by (\<lambda>u. u_username u = Some username) (users s)"

definition insertUser :: "ctx \<Rightarrow> user_doc \<Rightarrow> db \<Rightarrow> db" where
  "insertUser ctx u s = bumpId (users_update (\<lambda>t. db_insert t
     (u\<lparr>did := nextId s, ctime := now ctx,
        u_platformFeeBps := (if truthy (u_username u) then Some SIGNUP_PLATFORM_FEE_BPS
                             else u_platformFeeBps u)\<rparr>)) s)"

text \<open>\<open>createOrUpdateUser\<close>: the profile fields come as a user document without system fields.\<close>

definition createOrUpdateUser :: "ctx \<Rightarrow> id option \<Rightarrow> user_doc \<Rightarrow> db \<Rightarrow> error_code + id \<times> db" where
  "createOrUpdateUser ctx existingUserId profile s = (case existingUserId of
     Some i \<Rightarrow> Inr (i, s)
   | None \<Rightarrow>
       (case u_username profile of
          Some (x # xs) \<Rightarrow>
            if userByUsername s (x # xs) \<noteq> None then Inl VALIDATION_FAILED
            else Inr (nextId s, createProfile ctx (nextId s) (x # xs) (insertUser ctx profile s))
        | _ \<Rightarrow> Inr (nextId s, insertUser ctx profile s)))"

section \<open>users.ts\<close>

definition hasSession :: "ctx \<Rightarrow> bool" where
  "hasSession ctx \<longleftrightarrow> authUserId ctx \<noteq> None"

definition users_me :: "ctx \<Rightarrow> db \<Rightarrow> (id \<times> string \<times> string \<times> int) option" where
  "users_me ctx s = (case authUserId ctx of
     None \<Rightarrow> None
   | Some i \<Rightarrow> (case db_get (users s) i of
       None \<Rightarrow> None
     | Some u \<Rightarrow> if \<not> is_creator u then None
         else Some (did u, case u_username u of Some n \<Rightarrow> n | None \<Rightarrow> [],
                    case u_email u of Some e \<Rightarrow> e | None \<Rightarrow> [], ctime u)))"

section \<open>callerNotes.ts\<close>

definition MAX_NOTE_LENGTH :: nat where "MAX_NOTE_LENGTH = 500"

definition noteFor :: "db \<Rightarrow> id \<Rightarrow> id \<Rightarrow> note_doc option" where
  "noteFor s creatorId viewerId =
     first_by (\<lambda>n. n_creatorId n = creatorId \<and> n_viewerId n = viewerId) (callerNotes s)"

definition writeNote :: "ctx \<Rightarrow> id \<Rightarrow> id \<Rightarrow> string \<Rightarrow> db \<Rightarrow> db" where
  "writeNote ctx creatorId viewerId text s =
     (let existing = noteFor s creatorId viewerId
      in if text = []
         then (case existing of
                 Some n \<Rightarrow> callerNotes_update (\<lambda>t. db_delete t (did n)) s | None \<Rightarrow> s)
         else (case existing of
                 Some n \<Rightarrow> callerNotes_update (\<lambda>t. db_patch t (did n)
                   (\<lambda>d. d\<lparr>n_note := text, n_updatedAt := now ctx\<rparr>)) s
               | None \<Rightarrow> bumpId (callerNotes_update (\<lambda>t. db_insert t
                   \<lparr>did = nextId s, ctime = now ctx, n_creatorId = creatorId,
                    n_viewerId = viewerId, n_note = text, n_updatedAt = now ctx\<rparr>) s)))"

definition callerNotes_save :: "ctx \<Rightarrow> id \<Rightarrow> string \<Rightarrow> db \<Rightarrow> error_code + string \<times> db" where
  "callerNotes_save ctx entryId text s = bindE (requireCreatorId ctx s) (\<lambda>creatorId.
     case db_get (queueEntries s) entryId of
       None \<Rightarrow> Inl NOT_IN_QUEUE
     | Some entry \<Rightarrow> bindE (showForCreator s (q_showId entry) creatorId) (\<lambda>_.
         if length (trim text) > MAX_NOTE_LENGTH then Inl VALIDATION_FAILED
         else Inr (trim text, writeNote ctx creatorId (q_viewerId entry) (trim text) s)))"

end
