(* ===== verification/Profiles.thy ===== *)
theory Profiles
  imports Social_Lib
begin

text \<open>
  Creator profiles and discovery, \<open>convex/profiles.ts\<close> and \<open>convex/directory.ts\<close>.
  \<open>new URL\<close>, file storage and the full-text index are parameters.  A function that deletes
  stored files returns their ids beside the database.
\<close>

section \<open>profiles.ts\<close>

definition AVATAR_MAX_BYTES :: nat where "AVATAR_MAX_BYTES = 768 * 1024"

definition profiles_get :: "(id \<Rightarrow> string option) \<Rightarrow> ctx \<Rightarrow> string \<Rightarrow> db \<Rightarrow> public_profile option" where
  "profiles_get getUrl ctx username s = (case profileByUsername s username of
     None \<Rightarrow> None
   | Some profile \<Rightarrow>
       if \<not> p_published profile \<and> Some (p_userId profile) \<noteq> authUserId ctx then None
       else Some (publicProfile getUrl ctx s profile (authUserId ctx)))"

definition profiles_mine :: "(id \<Rightarrow> string option) \<Rightarrow> ctx \<Rightarrow> db \<Rightarrow> error_code + public_profile" where
  "profiles_mine getUrl ctx s = bindE (requireCreatorId ctx s) (\<lambda>userId.
     case profileForUser s userId of
       None \<Rightarrow> Inl CREATOR_NOT_FOUND
     | Some profile \<Rightarrow> Inr (publicProfile getUrl ctx s profile (Some userId)))"

text \<open>What \<open>new URL(raw)\<close> yields, when it does not throw.\<close>

record parsed_url =
  url_protocol :: string
  url_hostname :: string
  url_username :: string
  url_password :: string

definition validHttpsUrl :: "(string \<Rightarrow> parsed_url option) \<Rightarrow> string \<Rightarrow> bool" where
  "validHttpsUrl parseUrl raw \<longleftrightarrow> \<not> length raw > 2048 \<and> (case parseUrl raw of
     None \<Rightarrow> False
   | Some url \<Rightarrow> url_protocol url = ''https:'' \<and> url_hostname url \<noteq> [] \<and>
       url_username url = [] \<and> url_password url = [])"

record profile_args =
  sp_displayName :: string
  sp_bio :: string
  sp_avatarUrl :: "string option"
  sp_coverUrl :: string
  sp_published :: bool
  sp_topics :: "string list option"

definition keepsUpload :: "(id \<Rightarrow> string option) \<Rightarrow> profile_doc \<Rightarrow> string option \<Rightarrow> bool" where
  "keepsUpload getUrl profile avatar = (case p_avatarStorageId profile of
     None \<Rightarrow> False
   | Some i \<Rightarrow> avatar \<noteq> None \<and> avatar = getUrl i)"

definition topicsFor :: "profile_doc \<Rightarrow> profile_args \<Rightarrow> string list" where
  "topicsFor profile args = (case sp_topics args of
     Some ts \<Rightarrow> js_set ts
   | None \<Rightarrow> (case p_topics profile of Some ts \<Rightarrow> ts | None \<Rightarrow> []))"

definition savePatch :: "profile_doc \<Rightarrow> profile_args \<Rightarrow> profile_doc \<Rightarrow> profile_doc" where
  "savePatch profile args p =
     (let displayName = trim (sp_displayName args); bio = trim (sp_bio args);
          topics = topicsFor profile args
      in p\<lparr>p_displayName := displayName, p_bio := bio, p_coverUrl := trim (sp_coverUrl args),
           p_published := (sp_published args \<or> p_isLive profile), p_topics := Some topics,
           p_searchText := searchText (p_username profile) displayName bio topics\<rparr>)"

definition profiles_save :: "(string \<Rightarrow> parsed_url option) \<Rightarrow> (id \<Rightarrow> string option) \<Rightarrow> ctx \<Rightarrow> profile_args
    \<Rightarrow> db \<Rightarrow> error_code + (public_profile option \<times> id list) \<times> db" where
  "profiles_save parseUrl getUrl ctx args s0 = bindE (requireCreatorId ctx s0) (\<lambda>userId.
     bindE (rateLimit ctx (RateProfile userId) 20 60000 s0) (\<lambda>s.
       case profileForUser s userId of
         None \<Rightarrow> Inl CREATOR_NOT_FOUND
       | Some profile \<Rightarrow>
           (let displayName = trim (sp_displayName args); bio = trim (sp_bio args);
                coverUrl = trim (sp_coverUrl args); avatar = map_option trim (sp_avatarUrl args);
                keeps = keepsUpload getUrl profile avatar; topics = topicsFor profile args
            in if length displayName < 1 \<or> length displayName > 60 \<or> length bio > 500
               then Inl VALIDATION_FAILED
               else if (coverUrl \<noteq> [] \<and> \<not> validHttpsUrl parseUrl coverUrl)
                       \<or> (truthy avatar \<and> \<not> keeps \<and> \<not> validHttpsUrl parseUrl (the avatar))
               then Inl VALIDATION_FAILED
               else if length topics > MAX_TOPICS \<or> \<not> list_all isTopic topics
               then Inl VALIDATION_FAILED
               else (let keep = (avatar = None \<or> keeps);
                         s' = patchProfile (did profile) (\<lambda>p. if keep then savePatch profile args p
                                else (savePatch profile args p)\<lparr>p_avatarUrl := the avatar,
                                       p_avatarStorageId := None\<rparr>) s;
                         deleted = (if keep then [] else (case p_avatarStorageId profile of
                                      Some i \<Rightarrow> [i] | None \<Rightarrow> []))
                     in Inr ((map_option (\<lambda>p. publicProfile getUrl ctx s' p (Some userId))
                                (db_get (profiles s') (did profile)), deleted), s')))))"

definition avatarUploadUrl :: "ctx \<Rightarrow> db \<Rightarrow> error_code + unit \<times> db" where
  "avatarUploadUrl ctx s = bindE (requireCreatorId ctx s) (\<lambda>userId.
     bindE (rateLimit ctx (RateAvatar userId) 10 60000 s) (\<lambda>s'. Inr ((), s')))"

text \<open>The bytes are those of the file's first twelve; reading past the end gives \<open>undefined\<close>.\<close>

definition byte_at :: "nat list \<Rightarrow> nat \<Rightarrow> nat option" where
  "byte_at bytes i = (if i < length bytes then Some (bytes ! i) else None)"

definition ascii :: "nat list \<Rightarrow> nat \<Rightarrow> nat \<Rightarrow> string" where
  "ascii bytes start stop = map char_of (take (stop - start) (drop start bytes))"

definition isAvatarImage :: "nat list \<Rightarrow> bool" where
  "isAvatarImage bytes \<longleftrightarrow>
     (byte_at bytes 0 = Some 255 \<and> byte_at bytes 1 = Some 216 \<and> byte_at bytes 2 = Some 255) \<or>
     list_all (\<lambda>(i, b). byte_at bytes i = Some b)
       (List.enumerate 0 [137, 80, 78, 71, 13, 10, 26, 10]) \<or>
     (ascii bytes 0 4 = ''RIFF'' \<and> ascii bytes 8 12 = ''WEBP'')"

definition avatarOwner :: "db \<Rightarrow> id \<Rightarrow> profile_doc option" where
  "avatarOwner s storageId = first_by (\<lambda>p. p_avatarStorageId p = Some storageId) (profiles s)"

text \<open>The stored file that \<open>discardUpload\<close> deletes, if any.\<close>

definition discardUpload :: "(id \<Rightarrow> bool) \<Rightarrow> id \<Rightarrow> db \<Rightarrow> id list" where
  "discardUpload stored storageId s =
     (if avatarOwner s storageId = None \<and> stored storageId then [storageId] else [])"

definition attachAvatar :: "(id \<Rightarrow> string option) \<Rightarrow> ctx \<Rightarrow> id \<Rightarrow> db
    \<Rightarrow> error_code + (public_profile option \<times> id list) \<times> db" where
  "attachAvatar getUrl ctx storageId s = bindE (requireCreatorId ctx s) (\<lambda>userId.
     case profileForUser s userId of
       None \<Rightarrow> Inl CREATOR_NOT_FOUND
     | Some profile \<Rightarrow>
         guardE (case avatarOwner s storageId of
                   Some owner \<Rightarrow> did owner = did profile | None \<Rightarrow> True) INVALID_AVATAR
           (let deleted = (case p_avatarStorageId profile of
                  Some i \<Rightarrow> if i \<noteq> storageId then [i] else [] | None \<Rightarrow> []);
                s' = patchProfile (did profile) (\<lambda>p. p\<lparr>p_avatarStorageId := Some storageId,
                       p_avatarUrl := []\<rparr>) s
            in Inr ((map_option (\<lambda>p. publicProfile getUrl ctx s' p (Some userId))
                       (db_get (profiles s') (did profile)), deleted), s')))"

text \<open>\<open>ctx.storage.get\<close> of the upload: its size and first bytes, or null.\<close>

definition setAvatar :: "(id \<Rightarrow> (nat \<times> nat list) option) \<Rightarrow> (id \<Rightarrow> bool) \<Rightarrow> (id \<Rightarrow> string option) \<Rightarrow> ctx
    \<Rightarrow> id \<Rightarrow> db \<Rightarrow> (error_code + public_profile option) \<times> id list \<times> db" where
  "setAvatar storageGet stored getUrl ctx storageId s =
     (let bad = (case storageGet storageId of
                   None \<Rightarrow> True
                 | Some (bytes, header) \<Rightarrow> bytes > AVATAR_MAX_BYTES \<or> \<not> isAvatarImage header)
      in if bad then (Inl INVALID_AVATAR, discardUpload stored storageId s, s)
         else (case attachAvatar getUrl ctx storageId s of
                 Inl e \<Rightarrow> (Inl e, [], s)
               | Inr ((p, deleted), s') \<Rightarrow> (Inr p, deleted, s')))"

section \<open>directory.ts\<close>

definition SEARCH_CANDIDATES :: nat where "SEARCH_CANDIDATES = 256"

definition MAX_QUERY :: nat where "MAX_QUERY = 80"

text \<open>The order of \<open>rank\<close>: live first, then by followers, ties as they came.\<close>

definition rankKey :: "profile_doc \<Rightarrow> int \<times> int" where
  "rankKey p = (if p_isLive p then 0 else 1, - p_followerCount p)"

definition directoryOrder :: "bool \<Rightarrow> db \<Rightarrow> profile_doc list" where
  "directoryOrder live s = query_desc (\<lambda>p. p_published p \<and> (live \<longrightarrow> p_isLive p))
     (\<lambda>p. (p_isLive p, p_followerCount p)) (profiles s)"

text \<open>One page of the directory from position \<open>start\<close>, and whether it reaches the end.\<close>

definition directory_list :: "(id \<Rightarrow> string option) \<Rightarrow> ctx \<Rightarrow> bool \<Rightarrow> nat \<Rightarrow> int \<Rightarrow> db
    \<Rightarrow> error_code + public_profile list" where
  "directory_list getUrl ctx live start numItems s =
     (if numItems < 1 \<or> numItems > 50 then Inl VALIDATION_FAILED
      else Inr (map (\<lambda>p. publicProfile getUrl ctx s p (authUserId ctx))
             (take (nat numItems) (drop start (directoryOrder live s)))))"

record directory_page =
  dp_items :: "public_profile list"
  dp_nextOffset :: "int option"

definition pageOf :: "(profile_doc \<Rightarrow> public_profile) \<Rightarrow> int \<Rightarrow> int \<Rightarrow> profile_doc list \<Rightarrow> directory_page" where
  "pageOf view offset limit found =
     \<lparr>dp_items = map view (take (nat limit) (drop (nat offset) (sort_key rankKey found))),
      dp_nextOffset = (if offset + limit < int (length found) then Some (offset + limit) else None)\<rparr>"

definition directory_search :: "(string \<Rightarrow> bool \<Rightarrow> db \<Rightarrow> profile_doc list) \<Rightarrow> (id \<Rightarrow> string option) \<Rightarrow> ctx
    \<Rightarrow> string \<Rightarrow> bool \<Rightarrow> int option \<Rightarrow> int option \<Rightarrow> db \<Rightarrow> error_code + directory_page" where
  "directory_search searchIndex getUrl ctx q live offset limit s =
     (let text = trim q;
          lim = (case limit of Some l \<Rightarrow> l | None \<Rightarrow> 24); off = (case offset of Some i \<Rightarrow> i | None \<Rightarrow> 0)
      in if length text > MAX_QUERY \<or> lim < 1 \<or> lim > 50 \<or> off < 0 then Inl VALIDATION_FAILED
         else if text = [] then Inr \<lparr>dp_items = [], dp_nextOffset = None\<rparr>
         else Inr (pageOf (\<lambda>p. publicProfile getUrl ctx s p (authUserId ctx)) off lim
                (take SEARCH_CANDIDATES (searchIndex text live s))))"

definition followedProfiles :: "bool \<Rightarrow> id \<Rightarrow> db \<Rightarrow> profile_doc list" where
  "followedProfiles live userId s =
     filter (\<lambda>p. p_published p \<and> (live \<longrightarrow> p_isLive p))
       (List.map_filter (\<lambda>f. profileForUser s (fo_creatorId f))
         (query_asc (\<lambda>f. fo_followerId f = userId) fo_creatorId (follows s)))"

definition directory_following :: "(id \<Rightarrow> string option) \<Rightarrow> ctx \<Rightarrow> bool \<Rightarrow> int option \<Rightarrow> int option \<Rightarrow> db
    \<Rightarrow> error_code + directory_page" where
  "directory_following getUrl ctx live offset limit s = bindE (requireCreatorId ctx s) (\<lambda>userId.
     let lim = (case limit of Some l \<Rightarrow> l | None \<Rightarrow> 24); off = (case offset of Some i \<Rightarrow> i | None \<Rightarrow> 0)
     in if lim < 1 \<or> lim > 50 \<or> off < 0 then Inl VALIDATION_FAILED
        else Inr (pageOf (\<lambda>p. publicProfile getUrl ctx s p (Some userId)) off lim
               (followedProfiles live userId s)))"

end
