(* ===== verification/Forms.thy ===== *)
theory Forms
  imports Reset_Codes Accounts Profiles
begin

text \<open>
  The other forms of \<open>src/lib/schemas.ts\<close>: what each schema lets through, with the values its
  parse leaves.  The email pattern of the \<open>zod\<close> library is a parameter; the time of
  \<open>scheduleSchema\<close> is what \<open>new Date(value).getTime()\<close> makes of the field, absent
  when that is not a number.
\<close>

section \<open>Fields\<close>

definition emailField :: "(string \<Rightarrow> bool) \<Rightarrow> string \<Rightarrow> string option" where
  "emailField emailOk value = (let e = trim value
     in if 1 \<le> length e \<and> length e \<le> 254 \<and> emailOk e then Some e else None)"

definition usernameField :: "string \<Rightarrow> string option" where
  "usernameField value = (let u = trim value
     in if 3 \<le> length u \<and> length u \<le> 30 \<and> list_all username_char u then Some u else None)"

definition currentPasswordField :: "string \<Rightarrow> bool" where
  "currentPasswordField password \<longleftrightarrow> 1 \<le> length password \<and> length password \<le> 72"

definition displayNameField :: "string \<Rightarrow> string option" where
  "displayNameField value = (let n = trim value in if 1 \<le> length n \<and> length n \<le> 60 then Some n else None)"

section \<open>Forms\<close>

definition loginSchema :: "(string \<Rightarrow> bool) \<Rightarrow> string \<Rightarrow> string \<Rightarrow> (string \<times> string) option" where
  "loginSchema emailOk email password = (case emailField emailOk email of
     Some e \<Rightarrow> if currentPasswordField password then Some (e, password) else None | None \<Rightarrow> None)"

definition registerSchema :: "(string \<Rightarrow> bool) \<Rightarrow> string \<Rightarrow> string \<Rightarrow> string \<Rightarrow> (string \<times> string \<times> string) option" where
  "registerSchema emailOk username email password = (case (usernameField username, emailField emailOk email) of
     (Some u, Some e) \<Rightarrow> if newPasswordField password then Some (u, e, password) else None | _ \<Rightarrow> None)"

definition resetPasswordSchema :: "string \<Rightarrow> string \<Rightarrow> bool" where
  "resetPasswordSchema password confirmation \<longleftrightarrow>
     newPasswordField password \<and> 1 \<le> length confirmation \<and> password = confirmation"

definition MINUTE :: int where "MINUTE = 60000"

definition scheduleSchema :: "int \<Rightarrow> int option \<Rightarrow> int option" where
  "scheduleSchema nowMs time = (case time of
     None \<Rightarrow> None
   | Some t \<Rightarrow> if t - nowMs \<ge> 5 * MINUTE \<and> t - nowMs \<le> 60 * 24 * 60 * MINUTE then Some t else None)"

text \<open>\<open>/^https:\/\/\S+$/\<close>, or nothing.\<close>

definition coverUrlField :: "string \<Rightarrow> string option" where
  "coverUrlField value = (let u = trim value
     in if length u \<le> 2048 \<and> (u = [] \<or> take 8 u = ''https://'' \<and> 9 \<le> length u \<and> \<not> list_ex js_space (drop 8 u))
        then Some u else None)"

record profile_form =
  pf_displayName :: string
  pf_bio :: string
  pf_avatarUrl :: string
  pf_coverUrl :: string
  pf_published :: bool
  pf_topics :: "string list"

definition profileSchema :: "profile_form \<Rightarrow> profile_form option" where
  "profileSchema f = (case (displayNameField (pf_displayName f), coverUrlField (pf_coverUrl f)) of
     (Some n, Some u) \<Rightarrow>
       if length (pf_bio f) \<le> 500 \<and> list_all isTopic (pf_topics f) \<and> length (pf_topics f) \<le> MAX_TOPICS
       then Some (f\<lparr>pf_displayName := n, pf_coverUrl := u\<rparr>) else None
   | _ \<Rightarrow> None)"

record call_request_form =
  cf_displayName :: string
  cf_topic :: string
  cf_tierId :: string
  cf_receiptEmail :: string

definition callRequestSchema :: "(string \<Rightarrow> bool) \<Rightarrow> call_request_form \<Rightarrow> call_request_form option" where
  "callRequestSchema emailOk f =
     (let topic = trim (cf_topic f);
          receipt = (if cf_receiptEmail f = [] then Some [] else emailField emailOk (cf_receiptEmail f))
      in case (displayNameField (cf_displayName f), receipt) of
           (Some n, Some r) \<Rightarrow>
             if 1 \<le> length topic \<and> length topic \<le> 280 \<and> 1 \<le> length (cf_tierId f)
             then Some (f\<lparr>cf_displayName := n, cf_topic := topic, cf_receiptEmail := r\<rparr>) else None
         | _ \<Rightarrow> None)"

definition callerNoteSchema :: "string \<Rightarrow> string option" where
  "callerNoteSchema note = (if length (trim note) \<le> 500 then Some (trim note) else None)"

end
