(* ===== verification/Presence.thy ===== *)
theory Presence
  imports Calls
begin

text \<open>
  Call presence, \<open>convex/presence.ts\<close>: heartbeats, each with a scheduled check, and the grace
  period after which a disconnected participant fails the call.
\<close>

definition presenceRow :: "db \<Rightarrow> id \<Rightarrow> call_role \<Rightarrow> presence_doc option" where
  "presenceRow s callId role = first_by (\<lambda>p. pr_callId p = callId \<and> pr_role p = role) (callPresence s)"

definition markDisconnected :: "ctx \<Rightarrow> id \<Rightarrow> id \<Rightarrow> call_role \<Rightarrow> db \<Rightarrow> db" where
  "markDisconnected ctx rowId callId role s =
     runAfter ctx DISCONNECT_GRACE_MS (PresenceCheckGrace callId role (now ctx))
       (patchPresence rowId (\<lambda>p. p\<lparr>pr_disconnectedAt := Some (now ctx)\<rparr>) s)"

definition touchPresence :: "ctx \<Rightarrow> id \<Rightarrow> call_role \<Rightarrow> db \<Rightarrow> db" where
  "touchPresence ctx callId role s = (case presenceRow s callId role of
     Some row \<Rightarrow> patchPresence (did row) (\<lambda>p. p\<lparr>pr_lastSeenAt := now ctx,
       pr_disconnectedAt := None\<rparr>) s
   | None \<Rightarrow> bumpId (callPresence_update (\<lambda>t. db_insert t
       \<lparr>did = nextId s, ctime = now ctx, pr_callId = callId, pr_role = role,
        pr_lastSeenAt = now ctx, pr_disconnectedAt = None\<rparr>) s))"

definition presence_heartbeat :: "ctx \<Rightarrow> id \<Rightarrow> db \<Rightarrow> error_code + db" where
  "presence_heartbeat ctx callId s = bindE (callForParticipant ctx callId s) (\<lambda>(call, role).
     if c_status call \<notin> set CONNECTABLE_STATUSES then Inl CALL_NOT_FOUND
     else Inr (runAfter ctx PRESENCE_TTL_MS (PresenceCheckSeen callId role (now ctx))
                 (touchPresence ctx callId role s)))"

definition presence_leave :: "ctx \<Rightarrow> id \<Rightarrow> db \<Rightarrow> error_code + db" where
  "presence_leave ctx callId s = bindE (callForParticipant ctx callId s) (\<lambda>(call, role).
     if c_status call \<notin> set CONNECTABLE_STATUSES then Inr s
     else (case presenceRow s callId role of
             Some row \<Rightarrow> if pr_disconnectedAt row = None
               then Inr (markDisconnected ctx (did row) callId role s) else Inr s
           | None \<Rightarrow> Inr s))"

definition presence_checkSeen :: "ctx \<Rightarrow> id \<Rightarrow> call_role \<Rightarrow> int \<Rightarrow> db \<Rightarrow> db" where
  "presence_checkSeen ctx callId role seenAt s = (case presenceRow s callId role of
     None \<Rightarrow> s
   | Some row \<Rightarrow> if pr_lastSeenAt row \<noteq> seenAt \<or> pr_disconnectedAt row \<noteq> None then s
       else markDisconnected ctx (did row) callId role s)"

definition presence_checkGrace :: "ctx \<Rightarrow> id \<Rightarrow> call_role \<Rightarrow> int \<Rightarrow> db \<Rightarrow> error_code + db" where
  "presence_checkGrace ctx callId role disconnectedAt s = (case presenceRow s callId role of
     None \<Rightarrow> Inr s
   | Some row \<Rightarrow>
       if pr_disconnectedAt row \<noteq> Some disconnectedAt then Inr s
       else (case db_get (calls s) callId of
               None \<Rightarrow> Inr s
             | Some call \<Rightarrow> if c_status call \<in> set CONNECTABLE_STATUSES
                 then bindE (applyTransition ctx call Call_FAILED s) (\<lambda>(_, s'). Inr s')
                 else Inr s))"

end
