(* ===== verification/Signals.thy ===== *)
theory Signals
  imports Calls
begin

text \<open>
  WebRTC signaling over the database, \<open>convex/signals.ts\<close>.  Whether \<open>JSON.parse\<close>
  accepts a payload is a parameter of \<open>signals_send\<close>; the payload length is its length in
  UTF-8.
\<close>

definition ALLOWED :: "call_role \<Rightarrow> signal_type list" where
  "ALLOWED role = (case role of
     Creator \<Rightarrow> [Signal_offer, Signal_ice]
   | Viewer \<Rightarrow> [Signal_ready, Signal_answer, Signal_ice])"

definition MAX_PAYLOAD_BYTES :: nat where "MAX_PAYLOAD_BYTES = 64 * 1024"

definition MAX_BATCH :: nat where "MAX_BATCH = 20"

definition PURGE_BATCH :: nat where "PURGE_BATCH = 500"

definition utf8_length :: "string \<Rightarrow> nat" where
  "utf8_length s = sum_list (map (\<lambda>c. if (of_char c :: nat) < 128 then 1 else 2) s)"

definition other :: "call_role \<Rightarrow> call_role" where
  "other role = (case role of Creator \<Rightarrow> Viewer | Viewer \<Rightarrow> Creator)"

definition insertSignal :: "ctx \<Rightarrow> id \<Rightarrow> call_role \<Rightarrow> signal_type \<Rightarrow> string \<Rightarrow> db \<Rightarrow> db" where
  "insertSignal ctx callId to ty payload s = bumpId (callSignals_update (\<lambda>t. db_insert t
     \<lparr>did = nextId s, ctime = now ctx, sg_callId = callId, sg_to = to, sg_type = ty,
      sg_payload = payload\<rparr>) s)"

definition readyInInbox :: "db \<Rightarrow> id \<Rightarrow> call_role \<Rightarrow> bool" where
  "readyInInbox s callId to \<longleftrightarrow>
     first_by (\<lambda>g. sg_callId g = callId \<and> sg_to g = to \<and> sg_type g = Signal_ready) (callSignals s) \<noteq> None"

text \<open>The loop over the signals; \<open>pending\<close> is \<open>readyPending\<close>, undefined at first.\<close>

fun sendEach :: "(string \<Rightarrow> bool) \<Rightarrow> ctx \<Rightarrow> id \<Rightarrow> call_role \<Rightarrow> (signal_type \<times> string) list
    \<Rightarrow> bool option \<Rightarrow> db \<Rightarrow> error_code + db" where
  "sendEach json_ok ctx callId role [] pending s = Inr s"
| "sendEach json_ok ctx callId role ((ty, payload) # rest) pending s =
     (if ty \<notin> set (ALLOWED role) then Inl INVALID_SIGNAL
      else if utf8_length payload > MAX_PAYLOAD_BYTES then Inl INVALID_SIGNAL
      else if \<not> json_ok payload then Inl INVALID_SIGNAL
      else if ty = Signal_ready
      then (let p = (case pending of Some b \<Rightarrow> b | None \<Rightarrow> readyInInbox s callId (other role))
            in if p then sendEach json_ok ctx callId role rest (Some p) s
               else sendEach json_ok ctx callId role rest (Some True)
                      (insertSignal ctx callId (other role) ty payload s))
      else sendEach json_ok ctx callId role rest pending
             (insertSignal ctx callId (other role) ty payload s))"

definition signals_send :: "(string \<Rightarrow> bool) \<Rightarrow> ctx \<Rightarrow> id \<Rightarrow> (signal_type \<times> string) list \<Rightarrow> db \<Rightarrow> error_code + db" where
  "signals_send json_ok ctx callId signals s = bindE (callForParticipant ctx callId s) (\<lambda>(call, role).
     if c_status call \<notin> set CONNECTABLE_STATUSES then Inl CALL_NOT_FOUND
     else if length signals < 1 \<or> length signals > MAX_BATCH then Inl INVALID_SIGNAL
     else sendEach json_ok ctx callId role signals None s)"

definition signals_inbox :: "ctx \<Rightarrow> id \<Rightarrow> db \<Rightarrow> error_code + (id \<times> signal_type \<times> string) list" where
  "signals_inbox ctx callId s = bindE (callForParticipant ctx callId s) (\<lambda>(call, role).
     Inr (map (\<lambda>g. (did g, sg_type g, sg_payload g))
       (sort_key ctime (filter (\<lambda>g. sg_callId g = callId \<and> sg_to g = role) (callSignals s)))))"

definition ackOne :: "id \<Rightarrow> call_role \<Rightarrow> id \<Rightarrow> db \<Rightarrow> db" where
  "ackOne callId role i s = (case db_get (callSignals s) i of
     Some g \<Rightarrow> if sg_callId g = callId \<and> sg_to g = role
       then callSignals_update (\<lambda>t. db_delete t i) s else s
   | None \<Rightarrow> s)"

definition signals_ack :: "ctx \<Rightarrow> id \<Rightarrow> id list \<Rightarrow> db \<Rightarrow> error_code + db" where
  "signals_ack ctx callId ids s = bindE (callForParticipant ctx callId s) (\<lambda>(call, role).
     Inr (fold (ackOne callId role) ids s))"

definition typeOrder :: "signal_type \<Rightarrow> nat" where
  "typeOrder t = (case t of Signal_answer \<Rightarrow> 0 | Signal_ice \<Rightarrow> 1 | Signal_offer \<Rightarrow> 2 | Signal_ready \<Rightarrow> 3)"

definition roleOrder :: "call_role \<Rightarrow> nat" where
  "roleOrder r = (case r of Creator \<Rightarrow> 0 | Viewer \<Rightarrow> 1)"

definition signals_purge :: "ctx \<Rightarrow> id \<Rightarrow> db \<Rightarrow> db" where
  "signals_purge ctx callId s =
     (let leftovers = take PURGE_BATCH (query_asc (\<lambda>g. sg_callId g = callId)
            (\<lambda>g. (roleOrder (sg_to g), typeOrder (sg_type g))) (callSignals s));
          s' = fold (\<lambda>g. callSignals_update (\<lambda>t. db_delete t (did g))) leftovers s
      in if length leftovers = PURGE_BATCH then runAfter ctx 0 (SignalsPurge callId) s' else s')"

end
