(* ===== verification/Actions.thy ===== *)
theory Actions
  imports Payout_Accounts
begin

text \<open>
  Actions: functions that call Stripe between transactions.  An action is not a transaction, so
  what its mutations committed stays when a later step throws; its model returns the outcome beside
  the database.  Other transactions may run between the mutations of an action; that is covered by
  the step relation of the whole system, in which every mutation is a step of its own.

  The Stripe SDK is a parameter: the record \<open>stripe_api\<close> holds one function per request the
  code makes, each returning what Stripe answers or the error the SDK throws.  The result of a
  request may differ from call to call; where the code makes the same request twice in one action
  the record has a field for each.
\<close>

type_synonym 'r action_result = "(error_code + 'r) \<times> db"

definition runQuery :: "(db \<Rightarrow> error_code + 'a) \<Rightarrow> db \<Rightarrow> ('a \<Rightarrow> db \<Rightarrow> 'r action_result) \<Rightarrow> 'r action_result" where
  "runQuery q s k = (case q s of Inl e \<Rightarrow> (Inl e, s) | Inr x \<Rightarrow> k x s)"

definition runMutation :: "(db \<Rightarrow> error_code + 'a \<times> db) \<Rightarrow> db \<Rightarrow> ('a \<Rightarrow> db \<Rightarrow> 'r action_result) \<Rightarrow> 'r action_result" where
  "runMutation m s k = (case m s of Inl e \<Rightarrow> (Inl e, s) | Inr (x, s') \<Rightarrow> k x s')"

definition throwing :: "error_code \<Rightarrow> stripe_error + 'a \<Rightarrow> db \<Rightarrow> ('a \<Rightarrow> db \<Rightarrow> 'r action_result) \<Rightarrow> 'r action_result" where
  "throwing code r s k = (case r of Inl _ \<Rightarrow> (Inl code, s) | Inr x \<Rightarrow> k x s)"

text \<open>\<open>stripeCall\<close> of \<open>payments.ts\<close> and \<open>providerCall\<close> of \<open>payouts.ts\<close>.\<close>

definition stripeCall :: "stripe_error + 'a \<Rightarrow> db \<Rightarrow> ('a \<Rightarrow> db \<Rightarrow> 'r action_result) \<Rightarrow> 'r action_result" where
  "stripeCall = throwing PAYMENT_PROVIDER_ERROR"

definition providerCall :: "stripe_error + 'a \<Rightarrow> db \<Rightarrow> ('a \<Rightarrow> db \<Rightarrow> 'r action_result) \<Rightarrow> 'r action_result" where
  "providerCall = throwing PAYOUT_PROVIDER_ERROR"

section \<open>The Stripe objects and requests the code uses\<close>

record intent =
  pi_id :: string
  pi_status :: string
  pi_amount :: int
  pi_currency :: string
  pi_transfer_data :: bool
  pi_application_fee_amount :: "int option"
  pi_receipt_email :: "string option"
  pi_client_secret :: "string option"

record receipt_details =
  rd_username :: string
  rd_tierName :: string
  rd_minutes :: rat

record intent_params =
  ip_amount :: int
  ip_currency :: string
  ip_description :: receipt_details
  ip_receipt_email :: "string option"
  ip_customer :: "string option"
  ip_attemptId :: id
  ip_showId :: id
  ip_tierId :: id

record stripe_refund =
  sr_id :: string
  sr_status :: "string option"
  sr_failure_reason :: "string option"

record stripe_method =
  sm_id :: string
  sm_card :: "(string \<times> string \<times> int \<times> int) option"
  sm_allow_redisplay :: "string option"

record transfer_params =
  tp_amount :: int
  tp_currency :: string
  tp_destination :: string
  tp_itemId :: id
  tp_idempotencyKey :: "id \<times> string"

record stripe_api =
  secretKeySet :: bool
  publishableKeyOf :: "string option"
  intents_create :: "intent_params \<Rightarrow> stripe_error + intent"
  intents_retrieve :: "string \<Rightarrow> stripe_error + intent"
  intents_update :: "string \<Rightarrow> string \<Rightarrow> stripe_error + intent"
  intents_capture :: "string \<Rightarrow> id \<Rightarrow> stripe_error + intent"
  intents_cancel :: "string \<Rightarrow> string \<Rightarrow> stripe_error + unit"
  customers_create :: "id \<Rightarrow> string \<Rightarrow> stripe_error + string"
  customerSessions_create :: "string \<Rightarrow> stripe_error + string"
  setupIntents_create :: "string \<Rightarrow> stripe_error + string"
  methods_list :: "string \<Rightarrow> stripe_error + stripe_method list"
  methods_detach :: "string \<Rightarrow> stripe_error + unit"
  refunds_create :: "string \<Rightarrow> id \<Rightarrow> stripe_error + stripe_refund"
  refunds_retrieve :: "string \<Rightarrow> stripe_error + stripe_refund"
  transfers_create :: "transfer_params \<Rightarrow> stripe_error + string"
  accounts_create :: "string \<Rightarrow> string \<Rightarrow> id \<Rightarrow> stripe_error + v2_account"
  accounts_retrieve :: "string \<Rightarrow> stripe_error + v2_account"
  externalAccounts_list :: "string \<Rightarrow> stripe_error + bank_account list"
  accountSessions_create :: "string \<Rightarrow> stripe_error + string"

text \<open>\<open>stripeClient()\<close> and \<open>publishableKey()\<close>; an empty key is falsy.\<close>

definition stripeClient :: "stripe_api \<Rightarrow> error_code + unit" where
  "stripeClient api = guardE (secretKeySet api) PAYMENTS_UNAVAILABLE (Inr ())"

definition publishableKey :: "stripe_api \<Rightarrow> error_code + string" where
  "publishableKey api = (case publishableKeyOf api of
     None \<Rightarrow> Inl PAYMENTS_UNAVAILABLE
   | Some k \<Rightarrow> if k = [] then Inl PAYMENTS_UNAVAILABLE else Inr k)"

section \<open>Connect account actions (payouts.ts)\<close>

definition readAccount :: "stripe_api \<Rightarrow> string \<Rightarrow> stripe_error + account_doc" where
  "readAccount api accountId = bindE (accounts_retrieve api accountId) (\<lambda>account.
     bindE (externalAccounts_list api accountId) (\<lambda>banks. Inr (projectAccount account banks)))"

text \<open>\<open>stripeClient()\<close> is evaluated inside \<open>providerCall\<close>, so its error is mapped too.\<close>

definition payouts_status :: "stripe_api \<Rightarrow> ctx \<Rightarrow> db \<Rightarrow> payout_status action_result" where
  "payouts_status api ctx s = runQuery (payouts_creator ctx) s (\<lambda>c s.
     case cr_account c of
       None \<Rightarrow> (Inr (statusFor None (cr_platformFeeBps c)), s)
     | Some account \<Rightarrow>
         providerCall (if secretKeySet api then readAccount api (ac_stripeAccountId account)
                       else Inl NotAnError) s
           (\<lambda>refreshed s. (Inr (statusFor (Some refreshed) (cr_platformFeeBps c)),
              saveAccount ctx (cr_creatorId c) refreshed s)))"

definition ensureAccount :: "stripe_api \<Rightarrow> ctx \<Rightarrow> db \<Rightarrow> string action_result" where
  "ensureAccount api ctx s = runQuery (payouts_creator ctx) s (\<lambda>c s.
     case cr_account c of
       Some account \<Rightarrow> (Inr (ac_stripeAccountId account), s)
     | None \<Rightarrow>
         providerCall (accounts_create api (cr_email c) (cfg_country (config (env_of ctx)))
                         (cr_creatorId c)) s
           (\<lambda>created s. (Inr (va_id created),
              saveAccount ctx (cr_creatorId c) (projectAccount created []) s)))"

definition accountSession :: "stripe_api \<Rightarrow> ctx \<Rightarrow> db \<Rightarrow> (string \<times> string) action_result" where
  "accountSession api ctx s =
     runQuery (\<lambda>_. stripeClient api) s (\<lambda>_ s.
     runQuery (\<lambda>_. publishableKey api) s (\<lambda>key s.
       case ensureAccount api ctx s of
         (Inl e, s') \<Rightarrow> (Inl e, s')
       | (Inr accountId, s') \<Rightarrow>
           providerCall (accountSessions_create api accountId) s' (\<lambda>secret s. (Inr (secret, key), s))))"

text \<open>An SDK error escapes \<open>reconcileAccount\<close> and ends the action.\<close>

definition reconcileAccount :: "stripe_api \<Rightarrow> ctx \<Rightarrow> string \<Rightarrow> db \<Rightarrow> db" where
  "reconcileAccount api ctx stripeAccountId s =
     (case creatorForAccount s stripeAccountId of
        None \<Rightarrow> s
      | Some creatorId \<Rightarrow>
          if \<not> secretKeySet api then s
          else (case readAccount api stripeAccountId of
                  Inl _ \<Rightarrow> s
                | Inr account \<Rightarrow> saveAccount ctx creatorId account s))"

end
