(* ===== verification/Payment_Methods.thy ===== *)
theory Payment_Methods
  imports Actions
begin

text \<open>
  Saved cards, \<open>convex/paymentMethods.ts\<close>: the Stripe customer of a user, created on first
  use and then kept, and the cards the user may list and remove.
\<close>

definition methods_profile :: "db \<Rightarrow> id \<Rightarrow> string option" where
  "methods_profile s userId =
     map_option pp_stripeCustomerId (first_by (\<lambda>p. pp_userId p = userId) (paymentProfiles s))"

definition saveProfile :: "ctx \<Rightarrow> id \<Rightarrow> string \<Rightarrow> db \<Rightarrow> string \<times> db" where
  "saveProfile ctx userId stripeCustomerId s = (case methods_profile s userId of
     Some existing \<Rightarrow> (existing, s)
   | None \<Rightarrow> (stripeCustomerId, bumpId (paymentProfiles_update (\<lambda>t. db_insert t
       \<lparr>did = nextId s, ctime = now ctx, pp_userId = userId,
        pp_stripeCustomerId = stripeCustomerId\<rparr>) s)))"

text \<open>A stored id that is the empty string is falsy, so a customer is created again.\<close>

definition ensureCustomer :: "stripe_api \<Rightarrow> ctx \<Rightarrow> id \<Rightarrow> string \<Rightarrow> db \<Rightarrow> string action_result" where
  "ensureCustomer api ctx userId email s =
     (case methods_profile s userId of
        Some (x # xs) \<Rightarrow> (Inr (x # xs), s)
      | _ \<Rightarrow> stripeCall (customers_create api userId email) s
               (\<lambda>customerId s. let (i, s') = saveProfile ctx userId customerId s in (Inr i, s')))"

definition methods_account :: "ctx \<Rightarrow> db \<Rightarrow> error_code + id \<times> string" where
  "methods_account ctx s = bindE (requireCreatorId ctx s) (\<lambda>userId.
     Inr (userId, case db_get (users s) userId of
       Some u \<Rightarrow> (case u_email u of Some e \<Rightarrow> e | None \<Rightarrow> []) | None \<Rightarrow> []))"

record saved_method =
  sv_id :: string
  sv_brand :: string
  sv_last4 :: string
  sv_expMonth :: int
  sv_expYear :: int

fun savedMethod :: "stripe_method \<Rightarrow> saved_method option" where
  "savedMethod m = (case sm_card m of
     None \<Rightarrow> None
   | Some (brand, last4, month, year) \<Rightarrow>
       if sm_allow_redisplay m = Some ''always''
       then Some \<lparr>sv_id = sm_id m, sv_brand = brand, sv_last4 = last4, sv_expMonth = month,
                  sv_expYear = year\<rparr>
       else None)"

definition listMethods :: "stripe_api \<Rightarrow> id \<Rightarrow> db \<Rightarrow> saved_method list action_result" where
  "listMethods api userId s = (case methods_profile s userId of
     Some (x # xs) \<Rightarrow> stripeCall (methods_list api (x # xs)) s
       (\<lambda>ms s. (Inr (List.map_filter savedMethod ms), s))
   | _ \<Rightarrow> (Inr [], s))"

definition methods_list_action :: "stripe_api \<Rightarrow> ctx \<Rightarrow> db \<Rightarrow> saved_method list action_result" where
  "methods_list_action api ctx s = runQuery (methods_account ctx) s (\<lambda>(userId, _) s.
     runQuery (\<lambda>_. stripeClient api) s (\<lambda>_ s. listMethods api userId s))"

definition methods_setup :: "stripe_api \<Rightarrow> ctx \<Rightarrow> db \<Rightarrow> (string \<times> string \<times> string) action_result" where
  "methods_setup api ctx s = runQuery (methods_account ctx) s (\<lambda>(userId, email) s.
     runQuery (\<lambda>_. stripeClient api) s (\<lambda>_ s.
     runQuery (\<lambda>_. publishableKey api) s (\<lambda>key s.
       case ensureCustomer api ctx userId email s of
         (Inl e, s') \<Rightarrow> (Inl e, s')
       | (Inr customer, s') \<Rightarrow>
           stripeCall (setupIntents_create api customer) s' (\<lambda>secret s.
           stripeCall (customerSessions_create api customer) s (\<lambda>session s.
             (Inr (secret, session, key), s))))))"

definition methods_remove :: "stripe_api \<Rightarrow> ctx \<Rightarrow> string \<Rightarrow> db \<Rightarrow> unit action_result" where
  "methods_remove api ctx paymentMethodId s = runQuery (methods_account ctx) s (\<lambda>(userId, _) s.
     runQuery (\<lambda>_. stripeClient api) s (\<lambda>_ s.
       case listMethods api userId s of
         (Inl e, s') \<Rightarrow> (Inl e, s')
       | (Inr methods, s') \<Rightarrow>
           if \<not> list_ex (\<lambda>m. sv_id m = paymentMethodId) methods
           then (Inl PAYMENT_METHOD_NOT_FOUND, s')
           else stripeCall (methods_detach api paymentMethodId) s' (\<lambda>_ s. (Inr (), s))))"

end
