(* ===== verification/Payments.thy ===== *)
theory Payments
  imports Payment_Methods Calls
begin

text \<open>
  Paid tiers, \<open>convex/payments.ts\<close> and \<open>queue.joinPaid\<close>: preparing and verifying a
  hold, capturing it when the creator picks the caller, and releasing it when the call will not
  happen.  Mutations and queries come first, then the actions that call Stripe between them.
\<close>

definition MAX_CAPTURE_TRIES :: nat where "MAX_CAPTURE_TRIES = 5"

section \<open>Receipts\<close>

text \<open>The pattern \<open>/^[^\s@]+@[^\s@]+\.[^\s@]+$/\<close>.\<close>

definition EMAIL :: "string \<Rightarrow> bool" where
  "EMAIL e = (let plain = (\<lambda>c. \<not> js_space c \<and> c \<noteq> CHR ''@'');
                  local_part = takeWhile (\<lambda>c. c \<noteq> CHR ''@'') e;
                  rest = dropWhile (\<lambda>c. c \<noteq> CHR ''@'') e
              in local_part \<noteq> [] \<and> list_all plain local_part \<and>
                 (case rest of
                    [] \<Rightarrow> False
                  | _ # host \<Rightarrow> list_all plain host \<and>
                      list_ex (\<lambda>i. 0 < i \<and> i + 1 < length host \<and> host ! i = CHR ''.'')
                        [0..<length host]))"

definition receiptEmailFor :: "string option \<Rightarrow> string option \<Rightarrow> error_code + string option" where
  "receiptEmailFor accountEmail given =
     (if accountEmail \<noteq> None \<and> accountEmail \<noteq> Some [] then Inr accountEmail
      else (case given of
              None \<Rightarrow> Inr None
            | Some g \<Rightarrow> (let email = toLowerCase (trim g)
                in if email = [] then Inr None
                   else if length email > 254 \<or> \<not> EMAIL email then Inl VALIDATION_FAILED
                   else Inr (Some email))))"

definition payer :: "ctx \<Rightarrow> db \<Rightarrow> error_code + id \<times> string option" where
  "payer ctx s = bindE (requireUserId ctx) (\<lambda>userId.
     Inr (userId, case db_get (users s) userId of
       Some u \<Rightarrow> if u_isAnonymous u = Some True then None else u_email u
     | None \<Rightarrow> None))"

definition receiptDetails :: "id \<Rightarrow> id \<Rightarrow> db \<Rightarrow> receipt_details" where
  "receiptDetails showId tierId s =
     (let tier = db_get (showTiers s) tierId;
          creator = (case db_get (shows_tbl s) showId of
            Some sh \<Rightarrow> db_get (users s) (sh_creatorId sh) | None \<Rightarrow> None)
      in \<lparr>rd_username = (case creator of
            Some u \<Rightarrow> (case u_username u of Some n \<Rightarrow> n | None \<Rightarrow> ''creator'') | None \<Rightarrow> ''creator''),
          rd_tierName = (case tier of Some t \<Rightarrow> ti_name t | None \<Rightarrow> ''Hotline call''),
          rd_minutes = of_int (round_div
            (100 * (case tier of Some t \<Rightarrow> ti_callDurationSeconds t | None \<Rightarrow> 0)) 60) / 100\<rparr>)"

section \<open>Preparing a hold\<close>

definition attemptByKey :: "db \<Rightarrow> id \<Rightarrow> string \<Rightarrow> attempt_doc option" where
  "attemptByKey s showId k =
     first_by (\<lambda>a. pa_showId a = showId \<and> pa_idempotencyKey a = k) (paymentAttempts s)"

definition newAttempt :: "ctx \<Rightarrow> id \<Rightarrow> id \<Rightarrow> show_doc \<Rightarrow> tier_doc \<Rightarrow> string \<Rightarrow> string option \<Rightarrow> fees \<Rightarrow> attempt_doc" where
  "newAttempt ctx i payerId sh tier k customer f =
     \<lparr>did = i, ctime = now ctx, pa_showId = did sh, pa_creatorId = sh_creatorId sh,
      pa_tierId = did tier, pa_payerId = payerId, pa_idempotencyKey = k, pa_queueEntryId = None,
      pa_stripePaymentIntentId = None, pa_stripeCustomerId = customer,
      pa_amountCents = ti_priceCents tier, pa_currency = ''usd'',
      pa_platformFeeBps = fee_platformFeeBps f, pa_platformFeeCents = fee_platformFeeCents f,
      pa_basicCardFeeCents = fee_basicCardFeeCents f,
      pa_creatorProcessingFeeCents = fee_creatorProcessingFeeCents f, pa_status = Pay_CREATED,
      pa_failureCode = None, pa_authorizedAt = None, pa_capturedAt = None, pa_canceledAt = None,
      pa_savedPaymentMethodId = None\<rparr>"

definition prepare :: "ctx \<Rightarrow> id \<Rightarrow> id \<Rightarrow> string \<Rightarrow> string option \<Rightarrow> db \<Rightarrow> error_code + attempt_doc \<times> db" where
  "prepare ctx showId tierId k customer s = bindE (requireUserId ctx) (\<lambda>payerId.
     case (db_get (shows_tbl s) showId, db_get (showTiers s) tierId) of
       (Some sh, Some tier) \<Rightarrow>
         if ti_showId tier \<noteq> did sh \<or> \<not> ti_enabled tier then Inl TIER_NOT_PAYABLE
         else if sh_status sh \<noteq> Show_LIVE then Inl SHOW_NOT_LIVE
         else if ti_priceCents tier \<le> 0 then Inl TIER_NOT_PAYABLE
         else (case attemptByKey s (did sh) k of
                 Some existing \<Rightarrow>
                   if pa_payerId existing \<noteq> payerId \<or> pa_tierId existing \<noteq> did tier
                      \<or> pa_stripeCustomerId existing \<noteq> customer
                   then Inl PAYMENT_NOT_AUTHORIZED else Inr (existing, s)
               | None \<Rightarrow>
                   (let a = newAttempt ctx (nextId s) payerId sh tier k customer
                              (paymentFees (ti_priceCents tier)
                                 (creatorFeeBps (db_get (users s) (sh_creatorId sh))))
                    in Inr (a, bumpId (paymentAttempts_update (\<lambda>t. db_insert t a) s))))
     | _ \<Rightarrow> Inl TIER_NOT_PAYABLE)"

definition attachIntent :: "id \<Rightarrow> string \<Rightarrow> db \<Rightarrow> error_code + unit \<times> db" where
  "attachIntent attemptId intentId s = (case db_get (paymentAttempts s) attemptId of
     None \<Rightarrow> Inl PAYMENT_NOT_AUTHORIZED
   | Some attempt \<Rightarrow>
       if pa_stripePaymentIntentId attempt = Some intentId then Inr ((), s)
       else if pa_stripePaymentIntentId attempt \<noteq> None \<and> pa_stripePaymentIntentId attempt \<noteq> Some []
       then Inl PAYMENT_NOT_AUTHORIZED
       else Inr ((), patchAttempt attemptId
              (\<lambda>a. a\<lparr>pa_stripePaymentIntentId := Some intentId\<rparr>) s))"

section \<open>Settling a hold\<close>

definition attemptForPayer :: "ctx \<Rightarrow> id \<Rightarrow> id \<Rightarrow> db \<Rightarrow> error_code + attempt_doc" where
  "attemptForPayer ctx showId attemptId s = bindE (requireUserId ctx) (\<lambda>payerId.
     case db_get (paymentAttempts s) attemptId of
       None \<Rightarrow> Inl PAYMENT_NOT_AUTHORIZED
     | Some attempt \<Rightarrow> if pa_showId attempt \<noteq> showId \<or> pa_payerId attempt \<noteq> payerId
         then Inl PAYMENT_NOT_AUTHORIZED else Inr attempt)"

definition markAuthorized :: "ctx \<Rightarrow> id \<Rightarrow> db \<Rightarrow> db" where
  "markAuthorized ctx attemptId s = (case db_get (paymentAttempts s) attemptId of
     Some attempt \<Rightarrow> if pa_status attempt = Pay_CREATED
       then patchAttempt attemptId (\<lambda>a. a\<lparr>pa_status := Pay_AUTHORIZED,
              pa_authorizedAt := Some (now ctx)\<rparr>) s
       else s
   | None \<Rightarrow> s)"

definition pendingCapture :: "id \<Rightarrow> db \<Rightarrow> (id \<times> string) option" where
  "pendingCapture callId s = (case db_get (calls s) callId of
     None \<Rightarrow> None
   | Some call \<Rightarrow> if c_status call \<noteq> Call_PAYMENT_PENDING then None
       else (case attemptOf s call of
               None \<Rightarrow> None
             | Some attempt \<Rightarrow> if pa_status attempt \<noteq> Pay_CAPTURING then None
                 else (case pa_stripePaymentIntentId attempt of
                         None \<Rightarrow> None
                       | Some i \<Rightarrow> if i = [] then None else Some (did attempt, i))))"

definition payments_captured :: "ctx \<Rightarrow> id \<Rightarrow> db \<Rightarrow> db" where
  "payments_captured ctx attemptId s = (case db_get (paymentAttempts s) attemptId of
     Some attempt \<Rightarrow> recordCaptured ctx attempt s | None \<Rightarrow> s)"

definition payments_notCaptured :: "ctx \<Rightarrow> id \<Rightarrow> payment_status \<Rightarrow> string option \<Rightarrow> db \<Rightarrow> db" where
  "payments_notCaptured ctx attemptId status failureCode s =
     (case db_get (paymentAttempts s) attemptId of
        Some attempt \<Rightarrow> recordNotCaptured ctx attempt status failureCode s | None \<Rightarrow> s)"

section \<open>Actions\<close>

definition intentMatches :: "attempt_doc \<Rightarrow> intent \<Rightarrow> bool" where
  "intentMatches attempt i \<longleftrightarrow> pi_status i = ''requires_capture'' \<and>
     pi_amount i = pa_amountCents attempt \<and> pi_currency i = pa_currency attempt \<and>
     \<not> pi_transfer_data i \<and>
     (pi_application_fee_amount i = None \<or> pi_application_fee_amount i = Some 0)"

definition verifyAuthorization :: "stripe_api \<Rightarrow> ctx \<Rightarrow> id \<Rightarrow> id \<Rightarrow> db \<Rightarrow> unit action_result" where
  "verifyAuthorization api ctx showId attemptId s =
     runQuery (attemptForPayer ctx showId attemptId) s (\<lambda>attempt s.
       if pa_status attempt = Pay_AUTHORIZED then (Inr (), s)
       else (case pa_stripePaymentIntentId attempt of
               Some (x # xs) \<Rightarrow>
                 if pa_status attempt \<noteq> Pay_CREATED then (Inl PAYMENT_NOT_AUTHORIZED, s)
                 else stripeCall (if secretKeySet api then intents_retrieve api (x # xs)
                                  else Inl NotAnError) s
                   (\<lambda>i s. if \<not> intentMatches attempt i then (Inl PAYMENT_NOT_AUTHORIZED, s)
                           else (Inr (), markAuthorized ctx attemptId s))
             | _ \<Rightarrow> (Inl PAYMENT_NOT_AUTHORIZED, s)))"

definition joinPaid :: "stripe_api \<Rightarrow> ctx \<Rightarrow> join_args \<Rightarrow> id \<Rightarrow> db \<Rightarrow> public_entry option action_result" where
  "joinPaid api ctx args paymentAttemptId s =
     (case verifyAuthorization api ctx (ja_showId args) paymentAttemptId s of
        (Inl e, s') \<Rightarrow> (Inl e, s')
      | (Inr _, s') \<Rightarrow>
          runMutation (joinWithPayment ctx args paymentAttemptId) s' (\<lambda>e s. (Inr e, s)))"

definition intentParams :: "attempt_doc \<Rightarrow> receipt_details \<Rightarrow> string option \<Rightarrow> intent_params" where
  "intentParams attempt details receiptEmail =
     \<lparr>ip_amount = pa_amountCents attempt, ip_currency = pa_currency attempt,
      ip_description = details, ip_receipt_email = receiptEmail,
      ip_customer = pa_stripeCustomerId attempt, ip_attemptId = did attempt,
      ip_showId = pa_showId attempt, ip_tierId = pa_tierId attempt\<rparr>"

text \<open>The \<open>if (attempt.stripePaymentIntentId) ... else ...\<close> of \<open>authorize\<close>.\<close>

definition intentFor :: "stripe_api \<Rightarrow> attempt_doc \<Rightarrow> string option \<Rightarrow> db \<Rightarrow> intent action_result" where
  "intentFor api attempt receiptEmail s =
     (case pa_stripePaymentIntentId attempt of
        Some (x # xs) \<Rightarrow>
          stripeCall (intents_retrieve api (x # xs)) s (\<lambda>i s.
            case receiptEmail of
              Some email \<Rightarrow> if pi_receipt_email i \<noteq> Some email
                then stripeCall (intents_update api (x # xs) email) s (\<lambda>i' s. (Inr i', s))
                else (Inr i, s)
            | None \<Rightarrow> (Inr i, s))
      | _ \<Rightarrow>
          stripeCall (intents_create api (intentParams attempt
              (receiptDetails (pa_showId attempt) (pa_tierId attempt) s) receiptEmail)) s
            (\<lambda>i s. runMutation (attachIntent (did attempt) (pi_id i)) s (\<lambda>_ s. (Inr i, s))))"

record authorization =
  au_attemptId :: id
  au_clientSecret :: "string option"
  au_publishableKey :: string
  au_amountCents :: int
  au_currency :: string
  au_customerSessionClientSecret :: "string option"

definition finishAuthorize :: "stripe_api \<Rightarrow> string \<Rightarrow> attempt_doc \<Rightarrow> intent \<Rightarrow> db \<Rightarrow> authorization action_result" where
  "finishAuthorize api key attempt i s =
     (let result = (\<lambda>session. \<lparr>au_attemptId = did attempt, au_clientSecret = pi_client_secret i,
            au_publishableKey = key, au_amountCents = pa_amountCents attempt,
            au_currency = pa_currency attempt, au_customerSessionClientSecret = session\<rparr>)
      in case pa_stripeCustomerId attempt of
           Some (x # xs) \<Rightarrow> stripeCall (customerSessions_create api (x # xs)) s
             (\<lambda>session s. (Inr (result (Some session)), s))
         | _ \<Rightarrow> (Inr (result None), s))"

definition customerFor :: "stripe_api \<Rightarrow> ctx \<Rightarrow> id \<Rightarrow> string option \<Rightarrow> db \<Rightarrow> string option action_result" where
  "customerFor api ctx userId email s = (case email of
     Some (x # xs) \<Rightarrow> (case ensureCustomer api ctx userId (x # xs) s of
         (Inl e, s') \<Rightarrow> (Inl e, s') | (Inr c, s') \<Rightarrow> (Inr (Some c), s'))
   | _ \<Rightarrow> (Inr None, s))"

definition authorize :: "stripe_api \<Rightarrow> ctx \<Rightarrow> id \<Rightarrow> id \<Rightarrow> string \<Rightarrow> string option \<Rightarrow> db \<Rightarrow> authorization action_result" where
  "authorize api ctx showId tierId k receiptEmail s =
     (if length k < 8 \<or> length k > 200 then (Inl VALIDATION_FAILED, s)
      else runQuery (\<lambda>_. stripeClient api) s (\<lambda>_ s.
           runQuery (\<lambda>_. publishableKey api) s (\<lambda>key s.
           runQuery (payer ctx) s (\<lambda>(userId, email) s.
           runQuery (\<lambda>_. receiptEmailFor email receiptEmail) s (\<lambda>receipt s.
             case customerFor api ctx userId email s of
               (Inl e, s1) \<Rightarrow> (Inl e, s1)
             | (Inr customer, s1) \<Rightarrow>
                 runMutation (prepare ctx showId tierId k customer) s1 (\<lambda>attempt s2.
                   case intentFor api attempt receipt s2 of
                     (Inl e, s3) \<Rightarrow> (Inl e, s3)
                   | (Inr i, s3) \<Rightarrow> finishAuthorize api key attempt i s3))))))"

text \<open>
  What \<open>capture\<close> does after Stripe answered: try again later, stop, or record the outcome.
  A failed \<open>retrieve\<close> or \<open>cancel\<close> leaves the call pending.
\<close>

datatype capture_next = Try_Again | Leave_Pending | Record_Captured | Record_Failed

definition afterCapture :: "stripe_api \<Rightarrow> string \<Rightarrow> intent \<Rightarrow> capture_next" where
  "afterCapture api intentId i =
     (if pi_status i = ''succeeded'' then Record_Captured
      else if pi_status i = ''canceled'' then Record_Failed
      else (case intents_cancel api intentId ''capture'' of
              Inl _ \<Rightarrow> Leave_Pending | Inr _ \<Rightarrow> Record_Failed))"

definition captureOutcome :: "stripe_api \<Rightarrow> id \<Rightarrow> nat \<Rightarrow> string \<Rightarrow> capture_next" where
  "captureOutcome api callId tries intentId =
     (case intents_capture api intentId callId of
        Inr i \<Rightarrow> afterCapture api intentId i
      | Inl e \<Rightarrow>
          if isTransientStripeError e \<and> tries + 1 < MAX_CAPTURE_TRIES then Try_Again
          else if isTransientStripeError e then Leave_Pending
          else (case intents_retrieve api intentId of
                  Inl _ \<Rightarrow> Leave_Pending | Inr i \<Rightarrow> afterCapture api intentId i))"

definition payments_capture :: "stripe_api \<Rightarrow> ctx \<Rightarrow> id \<Rightarrow> nat \<Rightarrow> db \<Rightarrow> db" where
  "payments_capture api ctx callId tries s = (case pendingCapture callId s of
     None \<Rightarrow> s
   | Some (attemptId, intentId) \<Rightarrow>
       if \<not> secretKeySet api then s
       else (case captureOutcome api callId tries intentId of
               Try_Again \<Rightarrow> runAfter ctx (1000 * 2 ^ tries) (PaymentsCapture callId (tries + 1)) s
             | Leave_Pending \<Rightarrow> s
             | Record_Captured \<Rightarrow> payments_captured ctx attemptId s
             | Record_Failed \<Rightarrow>
                 payments_notCaptured ctx attemptId Pay_FAILED (Some ''capture_failed'') s))"

definition cancelIntent :: "stripe_api \<Rightarrow> ctx \<Rightarrow> id \<Rightarrow> string \<Rightarrow> db \<Rightarrow> db" where
  "cancelIntent api ctx attemptId reason s = (case db_get (paymentAttempts s) attemptId of
     None \<Rightarrow> s
   | Some attempt \<Rightarrow>
       (case pa_stripePaymentIntentId attempt of
          Some (x # xs) \<Rightarrow>
            if (pa_status attempt \<noteq> Pay_CREATED \<and> pa_status attempt \<noteq> Pay_AUTHORIZED)
               \<or> \<not> secretKeySet api then s
            else (case intents_cancel api (x # xs) reason of
                    Inr _ \<Rightarrow> payments_notCaptured ctx attemptId Pay_CANCELED None s
                  | Inl _ \<Rightarrow> (case intents_retrieve api (x # xs) of
                      Inl _ \<Rightarrow> s
                    | Inr i \<Rightarrow> if pi_status i \<noteq> ''canceled'' then s
                        else payments_notCaptured ctx attemptId Pay_CANCELED None s))
        | _ \<Rightarrow> s))"

section \<open>Views\<close>

record payment_activity =
  av_paymentAttemptId :: id
  av_amountCents :: int
  av_platformFeeCents :: int
  av_basicCardFeeCents :: int
  av_creatorProcessingFeeCents :: int
  av_currency :: string
  av_paymentStatus :: payment_status
  av_refundStatus :: "refund_status option"
  av_refundReason :: "string option"
  av_disputeStatus :: "string option"
  av_disputeReason :: "string option"
  av_createdAt :: int

definition activityRow :: "db \<Rightarrow> attempt_doc \<Rightarrow> payment_activity" where
  "activityRow s attempt =
     (let refund = refundForAttempt s (did attempt);
          dispute = head_opt (rev (filter (\<lambda>d. ds_paymentAttemptId d = Some (did attempt))
                      (paymentDisputes s)))
      in \<lparr>av_paymentAttemptId = did attempt, av_amountCents = pa_amountCents attempt,
          av_platformFeeCents = pa_platformFeeCents attempt,
          av_basicCardFeeCents = pa_basicCardFeeCents attempt,
          av_creatorProcessingFeeCents = pa_creatorProcessingFeeCents attempt,
          av_currency = pa_currency attempt, av_paymentStatus = pa_status attempt,
          av_refundStatus = map_option rf_status refund,
          av_refundReason = map_option rf_reason refund,
          av_disputeStatus = map_option ds_status dispute,
          av_disputeReason = map_option ds_reason dispute, av_createdAt = ctime attempt\<rparr>)"

definition payments_activity :: "ctx \<Rightarrow> db \<Rightarrow> error_code + payment_activity list" where
  "payments_activity ctx s = bindE (requireCreatorId ctx s) (\<lambda>creatorId.
     Inr (map (activityRow s) (take 50
       (filter (\<lambda>a. pa_status a = Pay_CAPTURED \<or> pa_status a = Pay_CAPTURING)
         (rev (filter (\<lambda>a. pa_creatorId a = creatorId) (paymentAttempts s)))))))"

definition stalledCaptures :: "int \<Rightarrow> db \<Rightarrow> id list" where
  "stalledCaptures olderThan s = map did (filter (\<lambda>c. ctime c < olderThan)
     (take 100 (filter (\<lambda>c. c_status c = Call_PAYMENT_PENDING) (calls s))))"

end
