(* ===== verification/Refunds.thy ===== *)
theory Refunds
  imports Payments
begin

text \<open>
  Automatic refunds, \<open>convex/refunds.ts\<close>: a refund is claimed under a lease, sent to Stripe,
  and its outcome recorded; errors are retried with exponential backoff and given up after
  \<open>MAX_ATTEMPTS\<close>.
\<close>

definition MAX_ATTEMPTS :: nat where "MAX_ATTEMPTS = 10"

definition LEASE_MS :: int where "LEASE_MS = 5 * 60000"

definition PENDING_RECHECK_MS :: int where "PENDING_RECHECK_MS = 5 * 60000"

definition SWEEP_BATCH :: nat where "SWEEP_BATCH = 50"

definition statusFromStripe :: "string option \<Rightarrow> refund_status" where
  "statusFromStripe status =
     (if status = Some ''succeeded'' then Ref_SUCCEEDED
      else if status = Some ''failed'' \<or> status = Some ''canceled'' then Ref_FAILED
      else Ref_PENDING)"

definition refundDue :: "int \<Rightarrow> refund_doc \<Rightarrow> bool" where
  "refundDue t refund \<longleftrightarrow> rf_status refund = Ref_REQUESTED \<or>
     ((rf_status refund = Ref_RETRY \<or> rf_status refund = Ref_PENDING
        \<or> rf_status refund = Ref_PROCESSING) \<and> rf_nextAttemptAt refund \<le> t)"

definition refunds_claim :: "ctx \<Rightarrow> id \<Rightarrow> db \<Rightarrow> refund_doc option \<times> db" where
  "refunds_claim ctx refundId s = (case db_get (paymentRefunds s) refundId of
     None \<Rightarrow> (None, s)
   | Some refund \<Rightarrow>
       if rf_attempts refund \<ge> MAX_ATTEMPTS \<or> \<not> refundDue (now ctx) refund then (None, s)
       else (let s' = patchRefund refundId (\<lambda>r. r\<lparr>rf_status := Ref_PROCESSING,
                        rf_attempts := rf_attempts refund + 1,
                        rf_nextAttemptAt := now ctx + LEASE_MS\<rparr>) s
             in (db_get (paymentRefunds s') refundId, s')))"

definition refunds_record :: "ctx \<Rightarrow> id \<Rightarrow> string \<Rightarrow> refund_status \<Rightarrow> string option \<Rightarrow> db \<Rightarrow> db" where
  "refunds_record ctx refundId stripeRefundId status failureCode s0 =
     (case db_get (paymentRefunds s0) refundId of
        None \<Rightarrow> s0
      | Some refund \<Rightarrow>
          if rf_status refund = Ref_SUCCEEDED \<or> rf_status refund = Ref_FAILED then s0
          else (let final = (status \<noteq> Ref_PENDING);
                    s1 = patchRefund refundId (\<lambda>r. r\<lparr>rf_stripeRefundId := Some stripeRefundId,
                           rf_status := status, rf_failureCode := failureCode,
                           rf_nextAttemptAt := now ctx + PENDING_RECHECK_MS,
                           rf_processedAt := (if final then Some (now ctx) else None)\<rparr>) s0;
                    s2 = (if status = Ref_SUCCEEDED
                          then (case db_get (paymentRefunds s1) refundId of
                                  Some r \<Rightarrow> reverseForRefund ctx r s1 | None \<Rightarrow> s1)
                          else s1)
                in if \<not> final then runAfter ctx PENDING_RECHECK_MS (RefundsRun refundId) s2 else s2))"

definition backoffMs :: "nat \<Rightarrow> int" where
  "backoffMs attempts = 1000 * 2 ^ min attempts 8"

definition refunds_retry :: "ctx \<Rightarrow> id \<Rightarrow> string \<Rightarrow> db \<Rightarrow> db" where
  "refunds_retry ctx refundId failureCode s = (case db_get (paymentRefunds s) refundId of
     None \<Rightarrow> s
   | Some refund \<Rightarrow>
       if rf_status refund \<noteq> Ref_PROCESSING then s
       else if rf_attempts refund \<ge> MAX_ATTEMPTS
       then patchRefund refundId (\<lambda>r. r\<lparr>rf_status := Ref_FAILED,
              rf_failureCode := Some failureCode, rf_processedAt := Some (now ctx)\<rparr>) s
       else runAfter ctx (backoffMs (rf_attempts refund)) (RefundsRun refundId)
              (patchRefund refundId (\<lambda>r. r\<lparr>rf_status := Ref_RETRY,
                 rf_failureCode := Some failureCode,
                 rf_nextAttemptAt := now ctx + backoffMs (rf_attempts refund)\<rparr>) s))"

definition refundRequest :: "stripe_api \<Rightarrow> refund_doc \<Rightarrow> stripe_error + stripe_refund" where
  "refundRequest api refund = (case rf_stripeRefundId refund of
     Some (x # xs) \<Rightarrow> refunds_retrieve api (x # xs)
   | _ \<Rightarrow> refunds_create api (rf_stripePaymentIntentId refund) (did refund))"

definition refunds_run :: "stripe_api \<Rightarrow> ctx \<Rightarrow> id \<Rightarrow> db \<Rightarrow> db" where
  "refunds_run api ctx refundId s = (case refunds_claim ctx refundId s of
     (None, s') \<Rightarrow> s'
   | (Some refund, s') \<Rightarrow>
       if \<not> secretKeySet api then s'
       else (case refundRequest api refund of
               Inl _ \<Rightarrow> refunds_retry ctx refundId ''provider_error'' s'
             | Inr result \<Rightarrow> refunds_record ctx refundId (sr_id result)
                 (statusFromStripe (sr_status result)) (sr_failure_reason result) s'))"

definition refunds_due :: "int \<Rightarrow> db \<Rightarrow> id list" where
  "refunds_due t s = concat (map (\<lambda>status.
     map did (filter (\<lambda>r. rf_attempts r < MAX_ATTEMPTS) (take SWEEP_BATCH
       (query_asc (\<lambda>r. rf_status r = status \<and> rf_nextAttemptAt r \<le> t) rf_nextAttemptAt
         (paymentRefunds s))))) [Ref_REQUESTED, Ref_RETRY, Ref_PENDING, Ref_PROCESSING])"

end
