(* ===== verification/Webhooks.thy ===== *)
theory Webhooks
  imports Refunds
begin

text \<open>
  The Stripe webhook, \<open>convex/webhooks.ts\<close>.  \<open>stripeWebhook\<close> verifies the signature
  (\<open>constructEventAsync\<close>, a parameter), reduces the event to the fields Bling uses and hands it
  to \<open>webhooks_apply\<close>, which records the event id and applies the event in one transaction.
\<close>

definition SUPPORTED :: "string list" where
  "SUPPORTED = [''account.updated'', ''payment_intent.succeeded'', ''payment_intent.canceled'',
     ''payment_intent.payment_failed'', ''setup_intent.succeeded'', ''payment_method.attached'',
     ''payment_method.detached'', ''refund.created'', ''refund.updated'', ''refund.failed'',
     ''charge.dispute.created'', ''charge.dispute.updated'', ''charge.dispute.closed'',
     ''payout.created'', ''payout.updated'', ''payout.paid'', ''payout.failed'']"

section \<open>The arguments of apply\<close>

record intent_arg =
  wi_id :: string
  wi_failureCode :: "string option"
  wi_customerId :: "string option"
  wi_paymentMethodId :: "string option"
  wi_savedForFuture :: bool

record refund_arg =
  wr_id :: string
  wr_intentId :: "string option"
  wr_status :: string
  wr_failureReason :: "string option"
  wr_amountCents :: "int option"
  wr_currency :: "string option"

record dispute_arg =
  wd_id :: string
  wd_intentId :: "string option"
  wd_amountCents :: int
  wd_currency :: string
  wd_reason :: string
  wd_status :: string
  wd_evidenceDueAt :: "int option"

record payout_arg =
  wp_id :: string
  wp_amountCents :: int
  wp_currency :: string
  wp_status :: string
  wp_failureCode :: "string option"
  wp_failureMessage :: "string option"
  wp_arrivalAt :: "int option"

record apply_args =
  wh_eventId :: string
  wh_type :: string
  wh_connectedAccountId :: "string option"
  wh_intent :: "intent_arg option"
  wh_refund :: "refund_arg option"
  wh_dispute :: "dispute_arg option"
  wh_payout :: "payout_arg option"
  wh_accountId :: "string option"

section \<open>apply\<close>

definition eventSeen :: "db \<Rightarrow> string \<Rightarrow> bool" where
  "eventSeen s eventId \<longleftrightarrow> first_by (\<lambda>e. ev_stripeEventId e = eventId) (stripeEvents s) \<noteq> None"

definition recordEvent :: "ctx \<Rightarrow> apply_args \<Rightarrow> db \<Rightarrow> db" where
  "recordEvent ctx args s = bumpId (stripeEvents_update (\<lambda>t. db_insert t
     \<lparr>did = nextId s, ctime = now ctx, ev_stripeEventId = wh_eventId args, ev_type = wh_type args,
      ev_connectedAccountId = wh_connectedAccountId args\<rparr>) s)"

definition attemptForIntent :: "db \<Rightarrow> string option \<Rightarrow> attempt_doc option" where
  "attemptForIntent s intentId =
     (if truthy intentId
      then first_by (\<lambda>a. pa_stripePaymentIntentId a = intentId) (paymentAttempts s)
      else None)"

definition applyIntent :: "ctx \<Rightarrow> string \<Rightarrow> intent_arg \<Rightarrow> db \<Rightarrow> db" where
  "applyIntent ctx ty i s = (case attemptForIntent s (Some (wi_id i)) of
     None \<Rightarrow> s
   | Some attempt \<Rightarrow>
       if ty = ''payment_intent.succeeded''
       then (let s' = recordCaptured ctx attempt s
             in if wi_savedForFuture i \<and> truthy (wi_paymentMethodId i)
                   \<and> wi_customerId i = pa_stripeCustomerId attempt
                then patchAttempt (did attempt)
                       (\<lambda>a. a\<lparr>pa_savedPaymentMethodId := wi_paymentMethodId i\<rparr>) s'
                else s')
       else recordNotCaptured ctx attempt
              (if ty = ''payment_intent.canceled'' then Pay_CANCELED else Pay_FAILED)
              (wi_failureCode i) s)"

definition knownRefund :: "db \<Rightarrow> refund_arg \<Rightarrow> refund_doc option" where
  "knownRefund s r = (case first_by (\<lambda>d. rf_stripeRefundId d = Some (wr_id r)) (paymentRefunds s) of
     Some d \<Rightarrow> Some d
   | None \<Rightarrow> if truthy (wr_intentId r)
       then first_by (\<lambda>d. Some (rf_stripePaymentIntentId d) = wr_intentId r
                          \<and> rf_stripeRefundId d = None) (paymentRefunds s)
       else None)"

definition outsideRefund :: "ctx \<Rightarrow> id \<Rightarrow> attempt_doc \<Rightarrow> call_doc \<Rightarrow> refund_arg \<Rightarrow> string \<Rightarrow> int \<Rightarrow> refund_doc" where
  "outsideRefund ctx i attempt call r intentId amount =
     \<lparr>did = i, ctime = now ctx, rf_paymentAttemptId = did attempt, rf_callId = did call,
      rf_stripePaymentIntentId = intentId, rf_stripeRefundId = Some (wr_id r),
      rf_amountCents = amount,
      rf_currency = (case wr_currency r of Some c \<Rightarrow> c | None \<Rightarrow> pa_currency attempt),
      rf_reason = ''OUTSIDE_BLING'', rf_status = Ref_PENDING, rf_attempts = 0,
      rf_failureCode = None, rf_nextAttemptAt = now ctx, rf_processedAt = None\<rparr>"

text \<open>The refund row the event is about, inserted when it was made outside Bling.\<close>

definition refundRow :: "ctx \<Rightarrow> refund_arg \<Rightarrow> db \<Rightarrow> refund_doc option \<times> db" where
  "refundRow ctx r s = (case knownRefund s r of
     Some d \<Rightarrow> (Some d, s)
   | None \<Rightarrow>
       (case (attemptForIntent s (wr_intentId r), wr_intentId r, wr_amountCents r) of
          (Some attempt, Some intentId, Some amount) \<Rightarrow>
            (case callForAttempt s (did attempt) of
               None \<Rightarrow> (None, s)
             | Some call \<Rightarrow>
                 (let d = outsideRefund ctx (nextId s) attempt call r intentId amount
                  in (Some d, bumpId (paymentRefunds_update (\<lambda>t. db_insert t d) s))))
        | _ \<Rightarrow> (None, s)))"

definition settleRefund :: "ctx \<Rightarrow> refund_arg \<Rightarrow> refund_doc \<Rightarrow> db \<Rightarrow> db" where
  "settleRefund ctx r refund s =
     (let next = statusFromStripe (Some (wr_status r))
      in if (rf_status refund = Ref_SUCCEEDED \<or> rf_status refund = Ref_FAILED) \<and> next = Ref_PENDING
         then s
         else (let s1 = patchRefund (did refund) (\<lambda>d. d\<lparr>
                      rf_stripeRefundId := (case rf_stripeRefundId refund of
                        Some i \<Rightarrow> Some i | None \<Rightarrow> Some (wr_id r)),
                      rf_status := next, rf_failureCode := wr_failureReason r,
                      rf_processedAt := (if next = Ref_PENDING then rf_processedAt refund
                                         else Some (now ctx))\<rparr>) s
               in if next = Ref_SUCCEEDED
                  then (case db_get (paymentRefunds s1) (did refund) of
                          Some d \<Rightarrow> reverseForRefund ctx d s1 | None \<Rightarrow> s1)
                  else s1))"

definition applyRefund :: "ctx \<Rightarrow> refund_arg \<Rightarrow> db \<Rightarrow> db" where
  "applyRefund ctx r s = (case refundRow ctx r s of
     (None, s') \<Rightarrow> s' | (Some refund, s') \<Rightarrow> settleRefund ctx r refund s')"

definition orElse :: "'a option \<Rightarrow> 'a option \<Rightarrow> 'a option" where
  "orElse a b = (case a of Some x \<Rightarrow> Some x | None \<Rightarrow> b)"

definition disputeFields :: "dispute_arg \<Rightarrow> dispute_doc \<Rightarrow> dispute_doc" where
  "disputeFields d row = row\<lparr>ds_amountCents := wd_amountCents d, ds_currency := wd_currency d,
     ds_reason := wd_reason d, ds_status := wd_status d,
     ds_evidenceDueAt := (case wd_evidenceDueAt d of
       Some t \<Rightarrow> Some t | None \<Rightarrow> ds_evidenceDueAt row)\<rparr>"

definition saveDispute :: "ctx \<Rightarrow> dispute_arg \<Rightarrow> db \<Rightarrow> id \<times> db" where
  "saveDispute ctx d s =
     (let attempt = map_option did (attemptForIntent s (wd_intentId d))
      in case first_by (\<lambda>x. ds_stripeDisputeId x = wd_id d) (paymentDisputes s) of
           Some existing \<Rightarrow> (did existing, paymentDisputes_update (\<lambda>t. db_patch t (did existing)
             (\<lambda>row. (disputeFields d row)\<lparr>
                ds_paymentAttemptId := orElse (ds_paymentAttemptId existing) attempt,
                ds_stripePaymentIntentId := orElse (ds_stripePaymentIntentId existing)
                  (wd_intentId d)\<rparr>)) s)
         | None \<Rightarrow> (nextId s, bumpId (paymentDisputes_update (\<lambda>t. db_insert t
             (disputeFields d \<lparr>did = nextId s, ctime = now ctx, ds_stripeDisputeId = wd_id d,
                ds_paymentAttemptId = attempt, ds_stripePaymentIntentId = wd_intentId d,
                ds_amountCents = 0, ds_currency = [], ds_reason = [], ds_status = [],
                ds_evidenceDueAt = None\<rparr>)) s)))"

definition applyDispute :: "ctx \<Rightarrow> dispute_arg \<Rightarrow> db \<Rightarrow> db" where
  "applyDispute ctx d s =
     (let (disputeId, s1) = saveDispute ctx d s
      in case db_get (paymentDisputes s1) disputeId of
           Some row \<Rightarrow> adjustForDispute ctx row s1 | None \<Rightarrow> s1)"

definition payoutFields :: "payout_arg \<Rightarrow> payout_event_doc \<Rightarrow> payout_event_doc" where
  "payoutFields p row = row\<lparr>pe_amountCents := wp_amountCents p, pe_currency := wp_currency p,
     pe_status := wp_status p, pe_failureCode := orElse (wp_failureCode p) (pe_failureCode row),
     pe_failureMessage := orElse (wp_failureMessage p) (pe_failureMessage row),
     pe_arrivalAt := orElse (wp_arrivalAt p) (pe_arrivalAt row)\<rparr>"

definition applyPayout :: "ctx \<Rightarrow> string \<Rightarrow> payout_arg \<Rightarrow> db \<Rightarrow> db" where
  "applyPayout ctx stripeAccountId p s =
     (case first_by (\<lambda>a. ac_stripeAccountId a = stripeAccountId) (payoutAccounts s) of
        None \<Rightarrow> s
      | Some account \<Rightarrow>
          (case first_by (\<lambda>e. pe_stripePayoutId e = wp_id p) (payoutEvents s) of
             Some existing \<Rightarrow>
               payoutEvents_update (\<lambda>t. db_patch t (did existing) (payoutFields p)) s
           | None \<Rightarrow> bumpId (payoutEvents_update (\<lambda>t. db_insert t
               (payoutFields p \<lparr>did = nextId s, ctime = now ctx, pe_stripePayoutId = wp_id p,
                  pe_creatorId = ac_creatorId account, pe_amountCents = 0, pe_currency = [],
                  pe_status = [], pe_failureCode = None, pe_failureMessage = None,
                  pe_arrivalAt = None\<rparr>)) s)))"

definition applyEvent :: "ctx \<Rightarrow> apply_args \<Rightarrow> db \<Rightarrow> db" where
  "applyEvent ctx args s = (case wh_intent args of
     Some i \<Rightarrow> applyIntent ctx (wh_type args) i s
   | None \<Rightarrow> (case wh_refund args of
       Some r \<Rightarrow> applyRefund ctx r s
     | None \<Rightarrow> (case wh_dispute args of
         Some d \<Rightarrow> applyDispute ctx d s
       | None \<Rightarrow>
           if wh_payout args \<noteq> None \<and> truthy (wh_connectedAccountId args)
           then applyPayout ctx (the (wh_connectedAccountId args)) (the (wh_payout args)) s
           else if truthy (wh_accountId args)
           then runAfter ctx 0 (PayoutsReconcileAccount (the (wh_accountId args))) s
           else s)))"

definition webhooks_apply :: "ctx \<Rightarrow> apply_args \<Rightarrow> db \<Rightarrow> db" where
  "webhooks_apply ctx args s =
     (if eventSeen s (wh_eventId args) then s else applyEvent ctx args (recordEvent ctx args s))"

section \<open>The HTTP action\<close>

text \<open>
  \<open>event.data.object\<close> is read at the type that the event's name promises; the record holds
  what each reading finds.  An expandable field is null, an id or an object with an id.
\<close>

datatype expandable = ExpNull | ExpId string | ExpObject string

definition idOf :: "expandable \<Rightarrow> string option" where
  "idOf v = (case v of ExpNull \<Rightarrow> None | ExpId i \<Rightarrow> Some i | ExpObject i \<Rightarrow> Some i)"

record raw_intent =
  ri_id :: string
  ri_last_payment_error_code :: "string option"
  ri_customer :: expandable
  ri_payment_method :: expandable
  ri_setup_future_usage :: "string option"

record raw_refund =
  rr_id :: string
  rr_payment_intent :: expandable
  rr_status :: "string option"
  rr_failure_reason :: "string option"
  rr_amount :: int
  rr_currency :: string

record raw_dispute =
  rw_id :: string
  rw_payment_intent :: expandable
  rw_amount :: int
  rw_currency :: string
  rw_reason :: string
  rw_status :: string
  rw_due_by :: "int option"

record raw_payout =
  ro_id :: string
  ro_amount :: int
  ro_currency :: string
  ro_status :: string
  ro_failure_code :: "string option"
  ro_failure_message :: "string option"
  ro_arrival_date :: "int option"

record stripe_event =
  se_id :: string
  se_type :: string
  se_account :: "string option"
  se_objectId :: string
  se_intent :: raw_intent
  se_refund :: raw_refund
  se_dispute :: raw_dispute
  se_payout :: raw_payout

text \<open>\<open>t ? t * 1000 : undefined\<close>: an absent or zero time is dropped.\<close>

definition secondsToMs :: "int option \<Rightarrow> int option" where
  "secondsToMs t = (case t of None \<Rightarrow> None | Some x \<Rightarrow> if x = 0 then None else Some (x * 1000))"

definition startsWith :: "string \<Rightarrow> string \<Rightarrow> bool" where
  "startsWith s p \<longleftrightarrow> take (length p) s = p"

definition baseArgs :: "stripe_event \<Rightarrow> apply_args" where
  "baseArgs e = \<lparr>wh_eventId = se_id e, wh_type = se_type e, wh_connectedAccountId = se_account e,
     wh_intent = None, wh_refund = None, wh_dispute = None, wh_payout = None, wh_accountId = None\<rparr>"

definition intentArg :: "raw_intent \<Rightarrow> intent_arg" where
  "intentArg i = \<lparr>wi_id = ri_id i, wi_failureCode = ri_last_payment_error_code i,
     wi_customerId = idOf (ri_customer i), wi_paymentMethodId = idOf (ri_payment_method i),
     wi_savedForFuture = truthy (ri_setup_future_usage i)\<rparr>"

definition refundArg :: "raw_refund \<Rightarrow> refund_arg" where
  "refundArg r = \<lparr>wr_id = rr_id r, wr_intentId = idOf (rr_payment_intent r),
     wr_status = (case rr_status r of Some x \<Rightarrow> x | None \<Rightarrow> []),
     wr_failureReason = rr_failure_reason r, wr_amountCents = Some (rr_amount r),
     wr_currency = Some (rr_currency r)\<rparr>"

definition disputeArg :: "raw_dispute \<Rightarrow> dispute_arg" where
  "disputeArg d = \<lparr>wd_id = rw_id d, wd_intentId = idOf (rw_payment_intent d),
     wd_amountCents = rw_amount d, wd_currency = rw_currency d, wd_reason = rw_reason d,
     wd_status = rw_status d, wd_evidenceDueAt = secondsToMs (rw_due_by d)\<rparr>"

definition payoutArg :: "raw_payout \<Rightarrow> payout_arg" where
  "payoutArg p = \<lparr>wp_id = ro_id p, wp_amountCents = ro_amount p, wp_currency = ro_currency p,
     wp_status = ro_status p, wp_failureCode = ro_failure_code p,
     wp_failureMessage = ro_failure_message p, wp_arrivalAt = secondsToMs (ro_arrival_date p)\<rparr>"

definition reduceEvent :: "stripe_event \<Rightarrow> apply_args" where
  "reduceEvent e =
     (if startsWith (se_type e) ''payment_intent.''
      then (baseArgs e)\<lparr>wh_intent := Some (intentArg (se_intent e))\<rparr>
      else if startsWith (se_type e) ''refund.''
      then (baseArgs e)\<lparr>wh_refund := Some (refundArg (se_refund e))\<rparr>
      else if startsWith (se_type e) ''charge.dispute.''
      then (baseArgs e)\<lparr>wh_dispute := Some (disputeArg (se_dispute e))\<rparr>
      else if startsWith (se_type e) ''payout.''
      then (baseArgs e)\<lparr>wh_payout := Some (payoutArg (se_payout e))\<rparr>
      else (baseArgs e)\<lparr>wh_accountId :=
             (if se_type e = ''account.updated'' then Some (se_objectId e) else None)\<rparr>)"

text \<open>\<open>webhookSecrets\<close> of \<open>lib/stripe.ts\<close> over the two environment variables.\<close>

definition webhookSecrets :: "string option \<Rightarrow> string option \<Rightarrow> string list" where
  "webhookSecrets a b = map the (filter truthy [a, b])"

text \<open>The first secret whose verification does not throw.\<close>

fun verifiedEvent :: "(string \<Rightarrow> string \<Rightarrow> string \<Rightarrow> stripe_event option) \<Rightarrow> string \<Rightarrow> string
    \<Rightarrow> string list \<Rightarrow> stripe_event option" where
  "verifiedEvent constructEvent body signature [] = None"
| "verifiedEvent constructEvent body signature (secret # rest) =
     (case constructEvent body signature secret of
        Some e \<Rightarrow> Some e | None \<Rightarrow> verifiedEvent constructEvent body signature rest)"

definition stripeWebhook :: "(string \<Rightarrow> string \<Rightarrow> string \<Rightarrow> stripe_event option) \<Rightarrow> bool
    \<Rightarrow> string list \<Rightarrow> string \<Rightarrow> string option \<Rightarrow> ctx \<Rightarrow> db \<Rightarrow> nat \<times> db" where
  "stripeWebhook constructEvent clientOk secrets body signature ctx s =
     (if secrets = [] then (503, s)
      else if length body > 2 ^ 20 then (413, s)
      else (case (if clientOk
                  then verifiedEvent constructEvent body
                         (case signature of Some x \<Rightarrow> x | None \<Rightarrow> []) secrets
                  else None) of
              None \<Rightarrow> (400, s)
            | Some e \<Rightarrow> if se_type e \<notin> set SUPPORTED then (204, s)
                else (204, webhooks_apply ctx (reduceEvent e) s)))"

end
