(* ===== verification/Dates.thy ===== *)
theory Dates
  imports Prelude
begin

text \<open>
  The part of \<open>Date\<close> that \<open>payouts.ts\<close> uses: the UTC year, month and day of a time
  value, \<open>Date.UTC\<close> with a month that may lie outside 0 to 11, and the date part of
  \<open>toISOString\<close> (years 0 to 9999).  The day arithmetic follows ECMAScript's
  \<open>DayFromYear\<close>; the year of a day is the largest year that starts on or before it, found by
  counting up from 1970, so the times are those from the epoch on.
\<close>

definition DAY_MS :: int where "DAY_MS = 24 * 60 * 60 * 1000"

definition dayFromYear :: "int \<Rightarrow> int" where
  "dayFromYear y = 365 * (y - 1970) + (y - 1969) div 4 - (y - 1901) div 100 + (y - 1601) div 400"

definition leapYear :: "int \<Rightarrow> bool" where
  "leapYear y \<longleftrightarrow> (y mod 4 = 0 \<and> y mod 100 \<noteq> 0) \<or> y mod 400 = 0"

text \<open>The day of the year on which a month (0 to 11) starts.\<close>

definition monthStart :: "int \<Rightarrow> int \<Rightarrow> int" where
  "monthStart y m = [0, 31, 59, 90, 120, 151, 181, 212, 243, 273, 304, 334] ! nat m
     + (if m \<ge> 2 \<and> leapYear y then 1 else 0)"

lemma div_mod_step:
  fixes z k :: int
  assumes "0 < k"
  shows "(z + 1) div k = z div k + (if (z + 1) mod k = 0 then 1 else 0)"
    and "(z + 1) mod k = (if z mod k = k - 1 then 0 else z mod k + 1)"
proof -
  let ?q = "z div k" and ?r = "z mod k"
  have r: "0 \<le> ?r" "?r < k" using assms by simp_all
  have z: "z + 1 = (?r + 1) + ?q * k" by (simp add: mult.commute)
  show m: "(z + 1) mod k = (if ?r = k - 1 then 0 else ?r + 1)"
    using r by (subst z, subst mod_mult_self1) (auto simp: mod_pos_pos_trivial)
  have "(z + 1) div k = ?q + (?r + 1) div k"
    using assms by (subst z, subst div_mult_self1) auto
  then show "(z + 1) div k = ?q + (if (z + 1) mod k = 0 then 1 else 0)"
    using r m by (auto simp: div_pos_pos_trivial)
qed

lemma dayFromYear_step: "dayFromYear (y + 1) = dayFromYear y + (if leapYear y then 366 else 365)"
proof -
  have shift: "(y - c * k) mod k = y mod k" for c k :: int
    by (metis mod_diff_right_eq diff_zero mod_mult_self2_is_0)
  have d4: "(y + 1 - 1969) div 4 = (y - 1969) div 4 + (if y mod 4 = 0 then 1 else 0)"
    using div_mod_step(1) [of 4 "y - 1969"] shift [of 492 4] by simp
  have d100: "(y + 1 - 1901) div 100 = (y - 1901) div 100 + (if y mod 100 = 0 then 1 else 0)"
    using div_mod_step(1) [of 100 "y - 1901"] shift [of 19 100] by simp
  have d400: "(y + 1 - 1601) div 400 = (y - 1601) div 400 + (if y mod 400 = 0 then 1 else 0)"
    using div_mod_step(1) [of 400 "y - 1601"] shift [of 4 400] by simp
  have m: "y mod 400 = 0 \<Longrightarrow> y mod 100 = 0" "y mod 100 = 0 \<Longrightarrow> y mod 4 = 0"
    by (auto simp flip: dvd_eq_mod_eq_0 intro: dvd_trans [of 100 400] dvd_trans [of 4 100])
  have "365 * (y + 1 - 1970) + A' - B' + C'
      = 365 * (y - 1970) + A - B + C + (if (a \<and> \<not> b) \<or> c then 366 else 365)"
    if "A' = A + (if a then 1 else 0)" "B' = B + (if b then 1 else 0)"
      "C' = C + (if c then 1 else 0)" "c \<Longrightarrow> b" "b \<Longrightarrow> a" for A B C A' B' C' :: int and a b c
    using that by auto
  from this [OF d4 d100 d400 m] show ?thesis
    unfolding dayFromYear_def leapYear_def .
qed

function yearUp :: "int \<Rightarrow> int \<Rightarrow> int" where
  "yearUp y day = (if dayFromYear (y + 1) \<le> day then yearUp (y + 1) day else y)"
  by pat_completeness auto

termination
  by (relation "measure (\<lambda>(y, day). nat (day - dayFromYear y))") (auto simp: dayFromYear_step split: if_splits)

declare yearUp.simps [simp del]

definition yearOf :: "int \<Rightarrow> int" where
  "yearOf day = yearUp 1970 day"

definition monthOf :: "int \<Rightarrow> int" where
  "monthOf day = (let y = yearOf day
     in case List.find (\<lambda>m. monthStart y m \<le> day - dayFromYear y) [11, 10, 9, 8, 7, 6, 5, 4, 3, 2, 1]
        of Some m \<Rightarrow> m | None \<Rightarrow> 0)"

definition getUTCFullYear :: "int \<Rightarrow> int" where
  "getUTCFullYear t = yearOf (t div DAY_MS)"

definition getUTCMonth :: "int \<Rightarrow> int" where
  "getUTCMonth t = monthOf (t div DAY_MS)"

definition getUTCDate :: "int \<Rightarrow> int" where
  "getUTCDate t = t div DAY_MS - dayFromYear (getUTCFullYear t)
     - monthStart (getUTCFullYear t) (getUTCMonth t) + 1"

definition makeDay :: "int \<Rightarrow> int \<Rightarrow> int \<Rightarrow> int" where
  "makeDay y m d = (let y' = y + m div 12; m' = m mod 12
     in dayFromYear y' + monthStart y' m' + d - 1)"

definition dateUTC :: "int \<Rightarrow> int \<Rightarrow> int \<Rightarrow> int" where
  "dateUTC y m d = makeDay y m d * DAY_MS"

fun digits :: "nat \<Rightarrow> nat \<Rightarrow> string" where
  "digits 0 n = []"
| "digits (Suc w) n = digits w (n div 10) @ [char_of (48 + n mod 10)]"

text \<open>\<open>new Date(t).toISOString().slice(0, 10)\<close> and its first seven characters.\<close>

definition isoDate :: "int \<Rightarrow> string" where
  "isoDate t = digits 4 (nat (getUTCFullYear t)) @ ''-'' @ digits 2 (nat (getUTCMonth t + 1))
     @ ''-'' @ digits 2 (nat (getUTCDate t))"

section \<open>Months\<close>

lemma monthStart_table [simp]:
  "monthStart y 0 = 0" "monthStart y 1 = 31" "monthStart y 2 = 59 + of_bool (leapYear y)"
  "monthStart y 3 = 90 + of_bool (leapYear y)" "monthStart y 4 = 120 + of_bool (leapYear y)"
  "monthStart y 5 = 151 + of_bool (leapYear y)" "monthStart y 6 = 181 + of_bool (leapYear y)"
  "monthStart y 7 = 212 + of_bool (leapYear y)" "monthStart y 8 = 243 + of_bool (leapYear y)"
  "monthStart y 9 = 273 + of_bool (leapYear y)" "monthStart y 10 = 304 + of_bool (leapYear y)"
  "monthStart y 11 = 334 + of_bool (leapYear y)"
  by (simp_all add: monthStart_def)

lemma yearUp_spec: "dayFromYear y \<le> day \<Longrightarrow>
    dayFromYear (yearUp y day) \<le> day \<and> day < dayFromYear (yearUp y day + 1)"
proof (induction y day rule: yearUp.induct)
  case (1 y day)
  then show ?case by (subst (1 2) yearUp.simps) auto
qed

lemma yearOf_spec:
  assumes "0 \<le> day"
  shows "dayFromYear (yearOf day) \<le> day" "day < dayFromYear (yearOf day + 1)"
  using yearUp_spec [of 1970 day] assms by (simp_all add: yearOf_def dayFromYear_def)

lemma year_len: "dayFromYear (y + 1) = dayFromYear y + monthStart y 11 + 31"
  by (simp add: dayFromYear_step)

text \<open>The first day of the \<open>k\<close>-th month since year 0 and the length of a month.\<close>

definition firstDay :: "int \<Rightarrow> int" where
  "firstDay k = dayFromYear (k div 12) + monthStart (k div 12) (k mod 12)"

lemma makeDay_firstDay: "makeDay y m d = firstDay (12 * y + m) + d - 1"
  by (simp add: makeDay_def firstDay_def Let_def)

lemma below_12: "0 \<le> m \<Longrightarrow> m < 12 \<Longrightarrow> m \<in> {0, 1, 2, 3, 4, 5, 6, 7, 8, 9, 10, 11 :: int}"
  by simp presburger

lemma month_cases: "m mod 12 \<in> {0, 1, 2, 3, 4, 5, 6, 7, 8, 9, 10, 11 :: int}"
  by (rule below_12) simp_all

lemma firstDay_step: "firstDay k + 28 \<le> firstDay (k + 1) \<and> firstDay (k + 1) \<le> firstDay k + 31"
proof (cases "k mod 12 = 11")
  case True
  then have "(k + 1) div 12 = k div 12 + 1" "(k + 1) mod 12 = 0" by (simp_all add: div_mod_step)
  then show ?thesis using True by (simp add: firstDay_def year_len)
next
  case False
  moreover have "0 \<le> k mod 12" by simp
  ultimately have "(k + 1) div 12 = k div 12" "(k + 1) mod 12 = k mod 12 + 1"
    by (simp_all add: div_mod_step)
  then show ?thesis
    using False month_cases [of k] by (auto simp: firstDay_def of_bool_def)
qed

lemma firstDay_mono: "i \<le> j \<Longrightarrow> firstDay i + 28 * (j - i) \<le> firstDay j"
proof (induction "nat (j - i)" arbitrary: j)
  case (Suc n)
  then have "i \<le> j - 1" "n = nat (j - 1 - i)" by simp_all
  from Suc.hyps(1) [OF this(2,1)] have "firstDay i + 28 * (j - 1 - i) \<le> firstDay (j - 1)" .
  then show ?case using firstDay_step [of "j - 1"] by simp
qed simp

lemma firstDay_less: "i < j \<Longrightarrow> firstDay i < firstDay j"
  using firstDay_mono [of i j] by simp

lemma firstDay_unique:
  assumes "firstDay i \<le> d" "d < firstDay (i + 1)" "firstDay j \<le> d" "d < firstDay (j + 1)"
  shows "i = j"
proof (rule ccontr)
  assume "i \<noteq> j"
  then consider "i + 1 \<le> j" | "j + 1 \<le> i" by linarith
  then show False
  proof cases
    case 1
    then show False using firstDay_mono [OF 1] assms by simp
  next
    case 2
    then show False using firstDay_mono [OF 2] assms by simp
  qed
qed

text \<open>The month number of a day.\<close>

definition monthNo :: "int \<Rightarrow> int" where
  "monthNo day = 12 * yearOf day + monthOf day"

lemma monthOf_spec:
  assumes "0 \<le> day"
  defines "y \<equiv> yearOf day"
  shows "monthOf day \<in> {0..11} \<and> monthStart y (monthOf day) \<le> day - dayFromYear y
       \<and> day - dayFromYear y < (if monthOf day = 11 then dayFromYear (y + 1) - dayFromYear y
                                else monthStart y (monthOf day + 1))"
proof -
  have y: "0 \<le> day - dayFromYear y" "day - dayFromYear y < dayFromYear (y + 1) - dayFromYear y"
    using yearOf_spec [OF assms(1)] by (simp_all add: y_def)
  show ?thesis
    using y unfolding monthOf_def Let_def y_def [symmetric]
    by (cases "leapYear y") (simp_all add: dayFromYear_step)
qed

lemma monthNo_spec:
  assumes "0 \<le> day"
  shows "firstDay (monthNo day) \<le> day" "day < firstDay (monthNo day + 1)"
    "monthNo day div 12 = yearOf day" "monthNo day mod 12 = monthOf day"
proof -
  have m: "0 \<le> monthOf day" "monthOf day \<le> 11" using monthOf_spec [OF assms] by simp_all
  show d: "monthNo day div 12 = yearOf day" "monthNo day mod 12 = monthOf day"
    using m by (simp_all add: monthNo_def)
  show "firstDay (monthNo day) \<le> day"
    using monthOf_spec [OF assms] by (simp add: firstDay_def d)
  show "day < firstDay (monthNo day + 1)"
  proof (cases "monthOf day = 11")
    case True
    then have "(monthNo day + 1) div 12 = yearOf day + 1" "(monthNo day + 1) mod 12 = 0"
      using d by (simp_all add: div_mod_step)
    then show ?thesis using monthOf_spec [OF assms] True by (simp add: firstDay_def)
  next
    case False
    then have "(monthNo day + 1) div 12 = yearOf day" "(monthNo day + 1) mod 12 = monthOf day + 1"
      using d m by (simp_all add: div_mod_step)
    then show ?thesis using monthOf_spec [OF assms] False by (simp add: firstDay_def)
  qed
qed

lemma monthNo_eq:
  assumes "0 \<le> day" "firstDay k \<le> day" "day < firstDay (k + 1)"
  shows "monthNo day = k"
  using firstDay_unique [OF monthNo_spec(1,2) [OF assms(1)] assms(2,3)] .

lemma getUTCDate_firstDay:
  assumes "0 \<le> t"
  shows "getUTCDate t = t div DAY_MS - firstDay (monthNo (t div DAY_MS)) + 1"
proof -
  have "0 \<le> t div DAY_MS" using assms by (simp add: DAY_MS_def pos_imp_zdiv_nonneg_iff)
  from monthNo_spec(3,4) [OF this] show ?thesis
    by (simp add: getUTCDate_def getUTCFullYear_def getUTCMonth_def firstDay_def)
qed

end
