(* ===== verification/Payouts.thy ===== *)
theory Payouts
  imports Webhooks Dates
begin

text \<open>
  Balances and the monthly payout run, the second half of \<open>convex/payouts.ts\<close>, with the sweep
  of \<open>refunds.ts\<close> that covers captures, refunds and transfers.  A pagination cursor is the
  position in the table's creation order: payout accounts are never deleted, so the documents before
  a position stay the same.
\<close>

definition MAX_TRANSFER_ATTEMPTS :: nat where "MAX_TRANSFER_ATTEMPTS = 10"

definition TRANSFER_LEASE_MS :: int where "TRANSFER_LEASE_MS = 5 * 60000"

definition RESERVE_BATCH :: nat where "RESERVE_BATCH = 100"

section \<open>Balance\<close>

definition nextPayoutAt :: "int \<Rightarrow> int \<Rightarrow> int" where
  "nextPayoutAt t day =
     (let candidate = dateUTC (getUTCFullYear t) (getUTCMonth t) day
      in if candidate \<le> t then dateUTC (getUTCFullYear t) (getUTCMonth t + 1) day else candidate)"

record activity_row =
  ar_id :: id
  ar_kind :: ledger_kind
  ar_amountCents :: int
  ar_currency :: string
  ar_effectiveAt :: int
  ar_createdAt :: int

definition activityOf :: "ledger_doc \<Rightarrow> activity_row" where
  "activityOf e = \<lparr>ar_id = did e, ar_kind = le_kind e, ar_amountCents = le_amountCents e,
     ar_currency = le_currency e, ar_effectiveAt = le_effectiveAt e, ar_createdAt = ctime e\<rparr>"

definition payouts_balance :: "ctx \<Rightarrow> db \<Rightarrow> error_code + balance_summary \<times> int \<times> activity_row list" where
  "payouts_balance ctx s = bindE (requireCreatorId ctx s) (\<lambda>creatorId.
     let cfg = config (env_of ctx)
     in Inr (balanceAt s creatorId (cfg_currency cfg) (now ctx),
             nextPayoutAt (now ctx) (cfg_payoutDay cfg),
             map activityOf (take 25 (rev (filter (\<lambda>e. le_creatorId e = creatorId
               \<and> le_currency e = cfg_currency cfg) (ledgerEntries s))))))"

definition EARNING_KINDS :: "ledger_kind list" where
  "EARNING_KINDS = [EARNING, REFUND_REVERSAL, DISPUTE_DEBIT, DISPUTE_RELEASE]"

definition MAX_EARNINGS_DAYS :: int where "MAX_EARNINGS_DAYS = 366"

definition EARNINGS_SCAN_LIMIT :: nat where "EARNINGS_SCAN_LIMIT = 8000"

text \<open>The \<open>Map\<close> from day to cents, keyed by the number of the day.\<close>

fun addToDay :: "int \<Rightarrow> int \<Rightarrow> (int \<times> int) list \<Rightarrow> (int \<times> int) list" where
  "addToDay day cents [] = [(day, cents)]"
| "addToDay day cents ((d, c) # rest) =
     (if d = day then (d, c + cents) # rest else (d, c) # addToDay day cents rest)"

definition earningsSince :: "ctx \<Rightarrow> rat \<Rightarrow> int" where
  "earningsSince ctx days =
     (let span = min (max (floor days) 1) MAX_EARNINGS_DAYS;
          today = (now ctx div DAY_MS) * DAY_MS
      in today - (span - 1) * DAY_MS)"

definition earningsByDay :: "int \<Rightarrow> ledger_doc list \<Rightarrow> (int \<times> int) list" where
  "earningsByDay since entries =
     fold (\<lambda>e. addToDay (ctime e div DAY_MS) (le_amountCents e))
       (filter (\<lambda>e. le_kind e \<in> set EARNING_KINDS \<and> \<not> ctime e < since) entries) []"

definition payouts_earnings :: "ctx \<Rightarrow> rat \<Rightarrow> db \<Rightarrow> error_code + string \<times> (string \<times> int) list" where
  "payouts_earnings ctx days s = bindE (requireCreatorId ctx s) (\<lambda>creatorId.
     let cur = cfg_currency (config (env_of ctx)); since = earningsSince ctx days;
         entries = take EARNINGS_SCAN_LIMIT (query_desc (\<lambda>e. le_creatorId e = creatorId
           \<and> le_currency e = cur \<and> le_effectiveAt e \<ge> since) le_effectiveAt (ledgerEntries s))
     in Inr (cur, map (\<lambda>(d, cents). (isoDate (d * DAY_MS), cents))
                    (sort_key fst (earningsByDay since entries))))"

record payout_failure =
  pf_payoutId :: string
  pf_amountCents :: int
  pf_currency :: string
  pf_failureCode :: string
  pf_failureMessage :: string

fun latestFailureIn :: "payout_event_doc list \<Rightarrow> payout_failure option" where
  "latestFailureIn [] = None"
| "latestFailureIn (e # rest) =
     (if pe_status e = ''paid'' then None
      else if pe_status e = ''failed''
      then Some \<lparr>pf_payoutId = pe_stripePayoutId e, pf_amountCents = pe_amountCents e,
                 pf_currency = pe_currency e,
                 pf_failureCode = (case pe_failureCode e of Some c \<Rightarrow> c | None \<Rightarrow> []),
                 pf_failureMessage = (case pe_failureMessage e of Some m \<Rightarrow> m | None \<Rightarrow> [])\<rparr>
      else latestFailureIn rest)"

definition latestFailure :: "ctx \<Rightarrow> db \<Rightarrow> error_code + payout_failure option" where
  "latestFailure ctx s = bindE (requireCreatorId ctx s) (\<lambda>creatorId.
     Inr (latestFailureIn (rev (filter (\<lambda>e. pe_creatorId e = creatorId) (payoutEvents s)))))"

section \<open>The monthly run\<close>

definition payoutPeriod :: "int \<Rightarrow> int \<Rightarrow> string \<times> string" where
  "payoutPeriod t payoutDay =
     (let year = getUTCFullYear t;
          month = (if getUTCDate t < payoutDay then getUTCMonth t - 1 else getUTCMonth t)
      in (isoDate (dateUTC year (month - 1) 1), isoDate (dateUTC year month 1)))"

definition runForPeriod :: "db \<Rightarrow> string \<Rightarrow> string \<Rightarrow> payout_run_doc option" where
  "runForPeriod s periodStart cur =
     first_by (\<lambda>r. run_periodStart r = periodStart \<and> run_currency r = cur) (payoutRuns s)"

definition openRun :: "ctx \<Rightarrow> string \<times> string \<Rightarrow> string \<Rightarrow> db \<Rightarrow> id \<times> db" where
  "openRun ctx period cur s = (case runForPeriod s (fst period) cur of
     Some run \<Rightarrow> (did run, s)
   | None \<Rightarrow> (nextId s, bumpId (payoutRuns_update (\<lambda>t. db_insert t
       \<lparr>did = nextId s, ctime = now ctx, run_periodStart = fst period,
        run_periodEnd = snd period, run_currency = cur, run_status = Run_PROCESSING,
        run_completedAt = None\<rparr>) s)))"

definition runDue :: "ctx \<Rightarrow> db \<Rightarrow> db" where
  "runDue ctx s =
     (let cfg = config (env_of ctx)
      in if \<not> cfg_enabled cfg then s
         else (let (runId, s') = openRun ctx (payoutPeriod (now ctx) (cfg_payoutDay cfg))
                                   (cfg_currency cfg) s
               in runAfter ctx 0 PayoutsFinishRuns
                    (runAfter ctx 0 (PayoutsReserveBatch runId None) s')))"

definition UNSETTLED :: "payout_item_status list" where
  "UNSETTLED = [Item_RESERVED, Item_SENDING, Item_RETRY, Item_FAILED]"

definition itemInRun :: "db \<Rightarrow> id \<Rightarrow> id \<Rightarrow> payout_item_doc option" where
  "itemInRun s runId creatorId =
     first_by (\<lambda>i. it_runId i = runId \<and> it_creatorId i = creatorId) (payoutItems s)"

definition hasUnsettled :: "db \<Rightarrow> id \<Rightarrow> bool" where
  "hasUnsettled s creatorId \<longleftrightarrow> list_ex (\<lambda>status.
     first_by (\<lambda>i. it_creatorId i = creatorId \<and> it_status i = status) (payoutItems s) \<noteq> None) UNSETTLED"

definition newItem :: "ctx \<Rightarrow> id \<Rightarrow> payout_run_doc \<Rightarrow> account_doc \<Rightarrow> int \<Rightarrow> payout_item_doc" where
  "newItem ctx i run account amount =
     \<lparr>did = i, ctime = now ctx, it_runId = did run, it_creatorId = ac_creatorId account,
      it_amountCents = amount, it_currency = run_currency run,
      it_destinationAccountId = ac_stripeAccountId account,
      it_idempotencyKey = (ac_creatorId account, take 7 (run_periodStart run)),
      it_stripeTransferId = None, it_status = Item_RESERVED, it_attempts = 0,
      it_nextAttemptAt = now ctx, it_failureCode = None, it_processedAt = None\<rparr>"

definition reservationEntry :: "ctx \<Rightarrow> payout_item_doc \<Rightarrow> ledger_doc" where
  "reservationEntry ctx item =
     \<lparr>did = 0, ctime = 0, le_creatorId = it_creatorId item, le_kind = PAYOUT_RESERVATION,
      le_amountCents = - it_amountCents item, le_currency = it_currency item,
      le_effectiveAt = now ctx, le_idempotencyKey = PayoutReservationKey (did item),
      le_paymentAttemptId = None, le_callId = None, le_payoutItemId = Some (did item),
      le_metadata = None\<rparr>"

definition reserveItem :: "ctx \<Rightarrow> payout_run_doc \<Rightarrow> account_doc \<Rightarrow> int \<Rightarrow> db \<Rightarrow> db" where
  "reserveItem ctx run account amount s0 =
     (let item = newItem ctx (nextId s0) run account amount;
          s1 = bumpId (payoutItems_update (\<lambda>t. db_insert t item) s0);
          s2 = post ctx (reservationEntry ctx item) s1;
          s3 = (if run_status run \<noteq> Run_PROCESSING
                then patchRun (did run) (\<lambda>r. r\<lparr>run_status := Run_PROCESSING,
                       run_completedAt := None\<rparr>) s2
                else s2)
      in runAfter ctx 0 (PayoutsTransfer (did item)) s3)"

definition reserveFor :: "ctx \<Rightarrow> payout_run_doc \<Rightarrow> account_doc \<Rightarrow> db \<Rightarrow> db" where
  "reserveFor ctx run account s =
     (let available = bs_availableCents (balanceAt s (ac_creatorId account) (run_currency run) (now ctx))
      in if ac_transfersStatus account \<noteq> ''active'' then s
         else if itemInRun s (did run) (ac_creatorId account) \<noteq> None then s
         else if hasUnsettled s (ac_creatorId account) then s
         else if available < cfg_minimumCents (config (env_of ctx)) then s
         else reserveItem ctx run account available s)"

definition reserveBatch :: "ctx \<Rightarrow> id \<Rightarrow> nat option \<Rightarrow> db \<Rightarrow> db" where
  "reserveBatch ctx runId cursor s = (case db_get (payoutRuns s) runId of
     None \<Rightarrow> s
   | Some run \<Rightarrow>
       (let start = (case cursor of Some n \<Rightarrow> n | None \<Rightarrow> 0);
            page = take RESERVE_BATCH (drop start (payoutAccounts s));
            s' = fold (reserveFor ctx run) page s
        in if length page < RESERVE_BATCH then s'
           else runAfter ctx 0 (PayoutsReserveBatch runId (Some (start + length page))) s'))"

section \<open>Transfers\<close>

definition itemDue :: "int \<Rightarrow> payout_item_doc \<Rightarrow> bool" where
  "itemDue t item \<longleftrightarrow> it_status item = Item_RESERVED \<or>
     ((it_status item = Item_RETRY \<or> it_status item = Item_SENDING) \<and> it_nextAttemptAt item \<le> t)"

definition claimTransfer :: "ctx \<Rightarrow> id \<Rightarrow> db \<Rightarrow> payout_item_doc option \<times> db" where
  "claimTransfer ctx itemId s = (case db_get (payoutItems s) itemId of
     None \<Rightarrow> (None, s)
   | Some item \<Rightarrow>
       if it_attempts item \<ge> MAX_TRANSFER_ATTEMPTS \<or> \<not> itemDue (now ctx) item then (None, s)
       else (let s' = patchItem itemId (\<lambda>i. i\<lparr>it_status := Item_SENDING,
                        it_attempts := it_attempts item + 1,
                        it_nextAttemptAt := now ctx + TRANSFER_LEASE_MS\<rparr>) s
             in (db_get (payoutItems s') itemId, s')))"

definition markPaid :: "ctx \<Rightarrow> id \<Rightarrow> string \<Rightarrow> db \<Rightarrow> db" where
  "markPaid ctx itemId transferId s = (case db_get (payoutItems s) itemId of
     None \<Rightarrow> s
   | Some item \<Rightarrow> if it_status item \<noteq> Item_SENDING then s
       else runAfter ctx 0 PayoutsFinishRuns (patchItem itemId (\<lambda>i. i\<lparr>it_status := Item_PAID,
              it_stripeTransferId := Some transferId, it_failureCode := None,
              it_processedAt := Some (now ctx)\<rparr>) s))"

definition retryTransfer :: "ctx \<Rightarrow> id \<Rightarrow> string \<Rightarrow> db \<Rightarrow> db" where
  "retryTransfer ctx itemId failureCode s = (case db_get (payoutItems s) itemId of
     None \<Rightarrow> s
   | Some item \<Rightarrow>
       if it_status item \<noteq> Item_SENDING then s
       else if it_attempts item \<ge> MAX_TRANSFER_ATTEMPTS
       then runAfter ctx 0 PayoutsFinishRuns (patchItem itemId (\<lambda>i. i\<lparr>it_status := Item_FAILED,
              it_failureCode := Some failureCode, it_processedAt := Some (now ctx)\<rparr>) s)
       else runAfter ctx (backoffMs (it_attempts item)) (PayoutsTransfer itemId)
              (patchItem itemId (\<lambda>i. i\<lparr>it_status := Item_RETRY,
                 it_failureCode := Some failureCode,
                 it_nextAttemptAt := now ctx + backoffMs (it_attempts item)\<rparr>) s))"

definition transferRequest :: "payout_item_doc \<Rightarrow> transfer_params" where
  "transferRequest item = \<lparr>tp_amount = it_amountCents item, tp_currency = it_currency item,
     tp_destination = it_destinationAccountId item, tp_itemId = did item,
     tp_idempotencyKey = it_idempotencyKey item\<rparr>"

text \<open>\<open>stripeClient()\<close> is inside the \<open>try\<close>, so a missing key is an error to retry.\<close>

definition payouts_transfer :: "stripe_api \<Rightarrow> ctx \<Rightarrow> id \<Rightarrow> db \<Rightarrow> db" where
  "payouts_transfer api ctx itemId s = (case claimTransfer ctx itemId s of
     (None, s') \<Rightarrow> s'
   | (Some item, s') \<Rightarrow>
       (case (if secretKeySet api then transfers_create api (transferRequest item)
              else Inl NotAnError) of
          Inl _ \<Rightarrow> retryTransfer ctx itemId ''provider_error'' s'
        | Inr transferId \<Rightarrow> markPaid ctx itemId transferId s'))"

definition runHas :: "db \<Rightarrow> id \<Rightarrow> payout_item_status \<Rightarrow> bool" where
  "runHas s runId status \<longleftrightarrow>
     first_by (\<lambda>i. it_runId i = runId \<and> it_status i = status) (payoutItems s) \<noteq> None"

definition finishRun :: "ctx \<Rightarrow> payout_run_doc \<Rightarrow> db \<Rightarrow> db" where
  "finishRun ctx run s =
     (if runHas s (did run) Item_RESERVED \<or> runHas s (did run) Item_SENDING
         \<or> runHas s (did run) Item_RETRY then s
      else patchRun (did run) (\<lambda>r. r\<lparr>run_status := (if runHas s (did run) Item_FAILED
             then Run_PARTIAL_FAILED else Run_COMPLETED), run_completedAt := Some (now ctx)\<rparr>) s)"

definition finishRuns :: "ctx \<Rightarrow> db \<Rightarrow> db" where
  "finishRuns ctx s = fold (finishRun ctx)
     (take 12 (filter (\<lambda>r. run_status r = Run_PROCESSING) (payoutRuns s))) s"

definition dueTransfers :: "int \<Rightarrow> db \<Rightarrow> id list" where
  "dueTransfers t s = concat (map (\<lambda>status.
     map did (filter (\<lambda>i. it_attempts i < MAX_TRANSFER_ATTEMPTS) (take 50
       (query_asc (\<lambda>i. it_status i = status \<and> it_nextAttemptAt i \<le> t) it_nextAttemptAt
         (payoutItems s))))) [Item_RESERVED, Item_RETRY, Item_SENDING])"

text \<open>\<open>sweep\<close> of \<open>refunds.ts\<close>: three queries, then a job for each id they return.\<close>

definition payments_sweep :: "ctx \<Rightarrow> db \<Rightarrow> db" where
  "payments_sweep ctx s =
     (let s1 = fold (\<lambda>i. runAfter ctx 0 (RefundsRun i)) (refunds_due (now ctx) s) s;
          s2 = fold (\<lambda>i. runAfter ctx 0 (PaymentsCapture i 0))
                 (stalledCaptures (now ctx - 2 * 60000) s1) s1
      in fold (\<lambda>i. runAfter ctx 0 (PayoutsTransfer i)) (dueTransfers (now ctx) s2) s2)"

end
