(* ===== verification/System.thy ===== *)
theory System
  imports Presence Signals Payouts Accounts Profiles Notifications
begin

text \<open>
  The backend as a transition system.  A \<open>request\<close> is one transaction: a public or internal
  mutation with its arguments, or a scheduler call made by an action.  \<open>exec\<close> runs it; a
  request that throws leaves the database as it was.  A database is reachable when a sequence of
  requests produces it from the empty one, in any order and with any arguments, whoever makes them:
  this covers every interleaving of clients, scheduled jobs, actions, crons and webhooks, and also
  runs in which an internal mutation is called with arguments no action of the code would give it.
\<close>

section \<open>Requests\<close>

record host =
  host_json :: "string \<Rightarrow> bool"
  host_parseUrl :: "string \<Rightarrow> parsed_url option"
  host_getUrl :: "id \<Rightarrow> string option"

text \<open>Requests about shows, tiers, the queue, calls, presence and signals.\<close>

datatype stage_request =
    CreateShow
  | ScheduleShow id "int option"
  | StartShow id
  | EndShow id
  | CloseQueue id
  | ReplaceTiers id "tier_input list"
  | JoinQueue join_args
  | JoinWithPayment join_args id
  | LeaveQueue id
  | SelectCaller id id
  | SelectRandom id
  | TransitionCall id call_status
  | ExpireCall id
  | CallHeartbeat id
  | LeaveCall id
  | CheckSeen id call_role int
  | CheckGrace id call_role int
  | SendSignals id "(signal_type \<times> string) list"
  | AckSignals id "id list"
  | PurgeSignals id

text \<open>Requests about payments, refunds, the webhook and payouts.\<close>

datatype money_request =
    PreparePayment id id string "string option"
  | AttachIntent id string
  | MarkAuthorized id
  | CapturedPayment id
  | NotCapturedPayment id bool "string option"
  | ClaimRefund id
  | RecordRefund id string "string option" "string option"
  | RetryRefund id string
  | StripeEvent apply_args
  | SaveCustomer id string
  | SaveAccount id account_doc
  | RunDue
  | ReserveBatch id "nat option"
  | ClaimTransfer id
  | MarkPaid id string
  | RetryTransfer id string
  | FinishRuns

text \<open>Requests about accounts, profiles, follows, notifications and the scheduler.\<close>

datatype social_request =
    CreateUser "id option" user_doc
  | SaveNote id string
  | SetFollow string bool
  | ProjectFollowers id
  | SaveCreatorProfile profile_args
  | AvatarUploadUrl
  | AttachAvatar id
  | MarkRead "id list"
  | PruneNotifications
  | ChannelHeartbeat string
  | StoreCount id int int
  | CollectAlerts id "nat option" nat
  | SetLiveAlerts bool
  | Unsubscribe id
  | AllowSend string
  | ScheduleJob int job

datatype request = Stage stage_request | Money money_request | Social social_request

definition commit :: "db \<Rightarrow> error_code + 'r \<times> db \<Rightarrow> db" where
  "commit s r = (case r of Inl _ \<Rightarrow> s | Inr (_, s') \<Rightarrow> s')"

definition commitDb :: "db \<Rightarrow> error_code + db \<Rightarrow> db" where
  "commitDb s r = (case r of Inl _ \<Rightarrow> s | Inr s' \<Rightarrow> s')"

primrec exec_stage :: "host \<Rightarrow> ctx \<Rightarrow> stage_request \<Rightarrow> db \<Rightarrow> db" where
  "exec_stage h ctx CreateShow s = commit s (shows_create ctx s)"
| "exec_stage h ctx (ScheduleShow i t) s = commit s (shows_schedule ctx i t s)"
| "exec_stage h ctx (StartShow i) s = commit s (shows_start ctx i s)"
| "exec_stage h ctx (EndShow i) s = commit s (shows_end ctx i s)"
| "exec_stage h ctx (CloseQueue i) s = closeQueue ctx i s"
| "exec_stage h ctx (ReplaceTiers i ts) s = commit s (tiers_replace ctx i ts s)"
| "exec_stage h ctx (JoinQueue a) s = commit s (queue_join ctx a s)"
| "exec_stage h ctx (JoinWithPayment a p) s = commit s (joinWithPayment ctx a p s)"
| "exec_stage h ctx (LeaveQueue i) s = commit s (queue_leave ctx i s)"
| "exec_stage h ctx (SelectCaller i e) s = commit s (calls_select ctx i e s)"
| "exec_stage h ctx (SelectRandom i) s = commit s (calls_selectRandom ctx i s)"
| "exec_stage h ctx (TransitionCall i st) s = commit s (calls_transition ctx i st s)"
| "exec_stage h ctx (ExpireCall i) s = commitDb s (calls_expire ctx i s)"
| "exec_stage h ctx (CallHeartbeat i) s = commitDb s (presence_heartbeat ctx i s)"
| "exec_stage h ctx (LeaveCall i) s = commitDb s (presence_leave ctx i s)"
| "exec_stage h ctx (CheckSeen i r t) s = presence_checkSeen ctx i r t s"
| "exec_stage h ctx (CheckGrace i r t) s = commitDb s (presence_checkGrace ctx i r t s)"
| "exec_stage h ctx (SendSignals i gs) s = commitDb s (signals_send (host_json h) ctx i gs s)"
| "exec_stage h ctx (AckSignals i gs) s = commitDb s (signals_ack ctx i gs s)"
| "exec_stage h ctx (PurgeSignals i) s = signals_purge ctx i s"

primrec exec_money :: "host \<Rightarrow> ctx \<Rightarrow> money_request \<Rightarrow> db \<Rightarrow> db" where
  "exec_money h ctx (PreparePayment i t k c) s = commit s (prepare ctx i t k c s)"
| "exec_money h ctx (AttachIntent i p) s = commit s (attachIntent i p s)"
| "exec_money h ctx (MarkAuthorized i) s = markAuthorized ctx i s"
| "exec_money h ctx (CapturedPayment i) s = payments_captured ctx i s"
| "exec_money h ctx (NotCapturedPayment i canceled code) s =
     payments_notCaptured ctx i (if canceled then Pay_CANCELED else Pay_FAILED) code s"
| "exec_money h ctx (ClaimRefund i) s = snd (refunds_claim ctx i s)"
| "exec_money h ctx (RecordRefund i r st code) s = refunds_record ctx i r (statusFromStripe st) code s"
| "exec_money h ctx (RetryRefund i code) s = refunds_retry ctx i code s"
| "exec_money h ctx (StripeEvent a) s = webhooks_apply ctx a s"
| "exec_money h ctx (SaveCustomer i c) s = snd (saveProfile ctx i c s)"
| "exec_money h ctx (SaveAccount i a) s = saveAccount ctx i a s"
| "exec_money h ctx RunDue s = runDue ctx s"
| "exec_money h ctx (ReserveBatch i n) s = reserveBatch ctx i n s"
| "exec_money h ctx (ClaimTransfer i) s = snd (claimTransfer ctx i s)"
| "exec_money h ctx (MarkPaid i t) s = markPaid ctx i t s"
| "exec_money h ctx (RetryTransfer i code) s = retryTransfer ctx i code s"
| "exec_money h ctx FinishRuns s = finishRuns ctx s"

primrec exec_social :: "host \<Rightarrow> ctx \<Rightarrow> social_request \<Rightarrow> db \<Rightarrow> db" where
  "exec_social h ctx (CreateUser i u) s = commit s (createOrUpdateUser ctx i u s)"
| "exec_social h ctx (SaveNote i n) s = commit s (callerNotes_save ctx i n s)"
| "exec_social h ctx (SetFollow u f) s = commit s (setFollow ctx u f s)"
| "exec_social h ctx (ProjectFollowers i) s = follows_project i s"
| "exec_social h ctx (SaveCreatorProfile a) s = commit s (profiles_save (host_parseUrl h) (host_getUrl h) ctx a s)"
| "exec_social h ctx AvatarUploadUrl s = commit s (avatarUploadUrl ctx s)"
| "exec_social h ctx (AttachAvatar i) s = commit s (attachAvatar (host_getUrl h) ctx i s)"
| "exec_social h ctx (MarkRead ids) s = commitDb s (markRead ctx ids s)"
| "exec_social h ctx PruneNotifications s = notifications_prune ctx s"
| "exec_social h ctx (ChannelHeartbeat u) s = commit s (channels_heartbeat ctx u s)"
| "exec_social h ctx (StoreCount i n t) s = storeCount ctx i n t s"
| "exec_social h ctx (CollectAlerts i n b) s = liveAlerts_collect ctx i n b s"
| "exec_social h ctx (SetLiveAlerts b) s = commitDb s (setLiveAlerts ctx b s)"
| "exec_social h ctx (Unsubscribe i) s = alerts_unsubscribe ctx i s"
| "exec_social h ctx (AllowSend e) s = commitDb s (allowSend ctx e s)"
| "exec_social h ctx (ScheduleJob d j) s = runAfter ctx d j s"

primrec exec :: "host \<Rightarrow> ctx \<Rightarrow> request \<Rightarrow> db \<Rightarrow> db" where
  "exec h ctx (Stage r) s = exec_stage h ctx r s"
| "exec h ctx (Money r) s = exec_money h ctx r s"
| "exec h ctx (Social r) s = exec_social h ctx r s"

definition valid_ctx :: "ctx \<Rightarrow> bool" where
  "valid_ctx ctx \<longleftrightarrow> 0 \<le> rnd ctx \<and> rnd ctx < 1"

inductive reachable :: "host \<Rightarrow> db \<Rightarrow> bool" for h :: host where
  init: "reachable h empty_db"
| step: "reachable h s \<Longrightarrow> valid_ctx ctx \<Longrightarrow> reachable h (exec h ctx req s)"

section \<open>Invariants\<close>

text \<open>
  An invariant is shown once per request.  What it gives for reachable databases is the same
  argument every time, so it is stated as a locale; \<open>guard\<close> is what is already known of
  reachable databases.
\<close>

locale inductive_invariant =
  fixes h :: host and guard inv :: "db \<Rightarrow> bool"
  assumes guard: "reachable h s \<Longrightarrow> guard s"
    and start: "inv empty_db"
    and preserved: "guard s \<Longrightarrow> inv s \<Longrightarrow> valid_ctx ctx \<Longrightarrow> inv (exec h ctx req s)"
begin

lemma holds: "reachable h s \<Longrightarrow> inv s"
  by (induction rule: reachable.induct) (auto intro: start preserved guard)

end

lemma commit_Inl [simp]: "commit s (Inl e) = s"
  by (simp add: commit_def)

lemma commit_Inr [simp]: "commit s (Inr (r, s')) = s'"
  by (simp add: commit_def)

lemma commitDb_Inl [simp]: "commitDb s (Inl e) = s"
  by (simp add: commit_def commitDb_def)

lemma commitDb_Inr [simp]: "commitDb s (Inr s') = s'"
  by (simp add: commitDb_def)

section \<open>Taking an invariant through a handler\<close>

text \<open>
  A small calculus over the control flow of a handler: \<open>sat I s\<close> for a database, and
  \<open>ensures I r\<close> and \<open>ensuresDb I r\<close> for the result of a function that may throw.  The
  rules follow the syntax, so that for an invariant it is enough to have one rule per write.
\<close>

named_theorems sat_intros \<open>rules that take an invariant through the control flow of a handler\<close>

definition sat :: "(db \<Rightarrow> bool) \<Rightarrow> db \<Rightarrow> bool" where
  "sat I s \<longleftrightarrow> I s"

definition ensures :: "(db \<Rightarrow> bool) \<Rightarrow> error_code + 'r \<times> db \<Rightarrow> bool" where
  "ensures I r \<longleftrightarrow> (\<forall>x s'. r = Inr (x, s') \<longrightarrow> sat I s')"

definition ensuresDb :: "(db \<Rightarrow> bool) \<Rightarrow> error_code + db \<Rightarrow> bool" where
  "ensuresDb I r \<longleftrightarrow> (\<forall>s'. r = Inr s' \<longrightarrow> sat I s')"

lemma sat_control [sat_intros]:
  "(P \<Longrightarrow> sat I a) \<Longrightarrow> (\<not> P \<Longrightarrow> sat I b) \<Longrightarrow> sat I (if P then a else b)"
  "(x = None \<Longrightarrow> sat I a) \<Longrightarrow> (\<And>y. x = Some y \<Longrightarrow> sat I (f y)) \<Longrightarrow> sat I (case x of None \<Rightarrow> a | Some y \<Rightarrow> f y)"
  "(\<And>u v. p = (u, v) \<Longrightarrow> sat I (g u v)) \<Longrightarrow> sat I (case p of (u, v) \<Rightarrow> g u v)"
  "(\<And>u. r = Inl u \<Longrightarrow> sat I (k u)) \<Longrightarrow> (\<And>v. r = Inr v \<Longrightarrow> sat I (l v)) \<Longrightarrow>
     sat I (case r of Inl u \<Rightarrow> k u | Inr v \<Rightarrow> l v)"
  by (auto split: option.split prod.split sum.split)

lemma sat_Let_state [sat_intros]:
  "sat I e \<Longrightarrow> (\<And>x. x = e \<Longrightarrow> sat I x \<Longrightarrow> sat I (f x)) \<Longrightarrow> sat I (Let e f)"
  by simp

lemma sat_Let: "(\<And>x. x = e \<Longrightarrow> sat I (f x)) \<Longrightarrow> sat I (Let e f)"
  by simp

lemmas sat_Let_types [sat_intros] =
  sat_Let [where ?'a = nat] sat_Let [where ?'a = bool] sat_Let [where ?'a = int]
  sat_Let [where ?'a = "'t option"] sat_Let [where ?'a = "'t list"] sat_Let [where ?'a = "'t doc_scheme"]
  sat_Let [where ?'a = "'t \<times> db"] sat_Let [where ?'a = payout_config] sat_Let [where ?'a = refund_status]

lemma sat_fold [sat_intros]:
  "sat I s \<Longrightarrow> (\<And>x s. x \<in> set xs \<Longrightarrow> sat I s \<Longrightarrow> sat I (f x s)) \<Longrightarrow> sat I (fold f xs s)"
  by (induction xs arbitrary: s) auto

lemma ensures_control [sat_intros]:
  "ensures I (Inl e)"
  "sat I s \<Longrightarrow> ensures I (Inr (x, s))"
  "(\<And>y. m = Inr y \<Longrightarrow> ensures I (k y)) \<Longrightarrow> ensures I (bindE m k)"
  "(P \<Longrightarrow> ensures I q) \<Longrightarrow> ensures I (guardE P e q)"
  "(P \<Longrightarrow> ensures I q) \<Longrightarrow> (\<not> P \<Longrightarrow> ensures I r) \<Longrightarrow> ensures I (if P then q else r)"
  "(o' = None \<Longrightarrow> ensures I q) \<Longrightarrow> (\<And>y. o' = Some y \<Longrightarrow> ensures I (k' y)) \<Longrightarrow>
     ensures I (case o' of None \<Rightarrow> q | Some y \<Rightarrow> k' y)"
  "(\<And>u v. p = (u, v) \<Longrightarrow> ensures I (g u v)) \<Longrightarrow> ensures I (case p of (u, v) \<Rightarrow> g u v)"
  by (auto simp: ensures_def bindE_def guardE_def split: sum.splits option.split prod.split)

lemma ensures_Let: "(\<And>x. x = e \<Longrightarrow> ensures I (f x)) \<Longrightarrow> ensures I (Let e f)"
  by simp

lemma ensures_Let_state [sat_intros]:
  "sat I e \<Longrightarrow> (\<And>x. x = e \<Longrightarrow> sat I x \<Longrightarrow> ensures I (f x)) \<Longrightarrow> ensures I (Let e f)"
  by simp

lemmas ensures_Let_types [sat_intros] =
  ensures_Let [where ?'a = nat] ensures_Let [where ?'a = bool] ensures_Let [where ?'a = int]
  ensures_Let [where ?'a = "'t option"] ensures_Let [where ?'a = "'t list"] ensures_Let [where ?'a = "'t doc_scheme"]
  ensures_Let [where ?'a = "'t \<times> db"]

lemma ensuresDb_control [sat_intros]:
  "ensuresDb I (Inl e)"
  "sat I s \<Longrightarrow> ensuresDb I (Inr s)"
  "(\<And>y. m = Inr y \<Longrightarrow> ensuresDb I (k y)) \<Longrightarrow> ensuresDb I (bindE m k)"
  "(P \<Longrightarrow> ensuresDb I q) \<Longrightarrow> (\<not> P \<Longrightarrow> ensuresDb I r) \<Longrightarrow> ensuresDb I (if P then q else r)"
  "(o' = None \<Longrightarrow> ensuresDb I q) \<Longrightarrow> (\<And>y. o' = Some y \<Longrightarrow> ensuresDb I (k' y)) \<Longrightarrow>
     ensuresDb I (case o' of None \<Rightarrow> q | Some y \<Rightarrow> k' y)"
  "(\<And>u v. p = (u, v) \<Longrightarrow> ensuresDb I (g u v)) \<Longrightarrow> ensuresDb I (case p of (u, v) \<Rightarrow> g u v)"
  by (auto simp: ensuresDb_def bindE_def split: sum.splits option.split prod.split)

lemma ensuresDb_Let: "(\<And>x. x = e \<Longrightarrow> ensuresDb I (f x)) \<Longrightarrow> ensuresDb I (Let e f)"
  by simp

lemma ensures_bind_state:
  "ensures I m \<Longrightarrow> (\<And>x s'. m = Inr (x, s') \<Longrightarrow> sat I s' \<Longrightarrow> ensures I (k (x, s'))) \<Longrightarrow> ensures I (bindE m k)"
  "ensures I m \<Longrightarrow> (\<And>x s'. m = Inr (x, s') \<Longrightarrow> sat I s' \<Longrightarrow> ensuresDb I (l (x, s'))) \<Longrightarrow> ensuresDb I (bindE m l)"
  "ensuresDb I n \<Longrightarrow> (\<And>s'. n = Inr s' \<Longrightarrow> sat I s' \<Longrightarrow> ensures I (k' s')) \<Longrightarrow> ensures I (bindE n k')"
  "ensuresDb I n \<Longrightarrow> (\<And>s'. n = Inr s' \<Longrightarrow> sat I s' \<Longrightarrow> ensuresDb I (l' s')) \<Longrightarrow> ensuresDb I (bindE n l')"
  by (auto simp: ensures_def ensuresDb_def bindE_def split: sum.splits)

lemma ensuresD: "ensures I m \<Longrightarrow> m = Inr (x, s') \<Longrightarrow> sat I s'"
  by (simp add: ensures_def)

lemma sat_commit [sat_intros]: "sat I s \<Longrightarrow> ensures I r \<Longrightarrow> sat I (commit s r)"
  by (cases r) (auto simp: ensures_def)

lemma sat_commitDb [sat_intros]: "sat I s \<Longrightarrow> ensuresDb I r \<Longrightarrow> sat I (commitDb s r)"
  by (cases r) (auto simp: ensuresDb_def)

end
