(* ===== verification/Wellformed.thy ===== *)
theory Wellformed
  imports System
begin

text \<open>
  Well-formedness of the whole database: in every table the ids are pairwise distinct and were
  issued before.  It rests on the table interface \<open>document_table\<close>, interpreted as
  \<open>tbl\<close>: one rule per way a table is written, then one lemma per operation.
\<close>

named_theorems wf_intros \<open>writes that keep the database well formed\<close>

section \<open>Writes\<close>

lemma wf_filter: "wf_table n t \<Longrightarrow> wf_table n (filter P t)"
  by (auto simp: wf_table_def distinct_map inj_on_def)

lemma wf_db_runAfter [wf_intros]: "sat wf_db s \<Longrightarrow> sat wf_db (runAfter c d j s)"
  by (simp add: sat_def wf_db_def)

lemma wf_db_runAt [wf_intros]: "sat wf_db s \<Longrightarrow> sat wf_db (runAt t j s)"
  by (simp add: sat_def wf_db_def runAt_def)

lemma wf_patch_shows_tbl [wf_intros]:
  "(\<And>d. did (f d) = did d) \<Longrightarrow> sat wf_db s \<Longrightarrow> sat wf_db (shows_tbl_update (\<lambda>t. db_patch t i f) s)"
  by (simp add: sat_def wf_db_def Let_def tbl.wf_patch)

lemma wf_patch_queueEntries [wf_intros]:
  "(\<And>d. did (f d) = did d) \<Longrightarrow> sat wf_db s \<Longrightarrow> sat wf_db (queueEntries_update (\<lambda>t. db_patch t i f) s)"
  by (simp add: sat_def wf_db_def Let_def tbl.wf_patch)

lemma wf_patch_calls [wf_intros]:
  "(\<And>d. did (f d) = did d) \<Longrightarrow> sat wf_db s \<Longrightarrow> sat wf_db (calls_update (\<lambda>t. db_patch t i f) s)"
  by (simp add: sat_def wf_db_def Let_def tbl.wf_patch)

lemma wf_patch_callerNotes [wf_intros]:
  "(\<And>d. did (f d) = did d) \<Longrightarrow> sat wf_db s \<Longrightarrow> sat wf_db (callerNotes_update (\<lambda>t. db_patch t i f) s)"
  by (simp add: sat_def wf_db_def Let_def tbl.wf_patch)

lemma wf_patch_callPresence [wf_intros]:
  "(\<And>d. did (f d) = did d) \<Longrightarrow> sat wf_db s \<Longrightarrow> sat wf_db (callPresence_update (\<lambda>t. db_patch t i f) s)"
  by (simp add: sat_def wf_db_def Let_def tbl.wf_patch)

lemma wf_patch_paymentAttempts [wf_intros]:
  "(\<And>d. did (f d) = did d) \<Longrightarrow> sat wf_db s \<Longrightarrow> sat wf_db (paymentAttempts_update (\<lambda>t. db_patch t i f) s)"
  by (simp add: sat_def wf_db_def Let_def tbl.wf_patch)

lemma wf_patch_paymentRefunds [wf_intros]:
  "(\<And>d. did (f d) = did d) \<Longrightarrow> sat wf_db s \<Longrightarrow> sat wf_db (paymentRefunds_update (\<lambda>t. db_patch t i f) s)"
  by (simp add: sat_def wf_db_def Let_def tbl.wf_patch)

lemma wf_patch_paymentDisputes [wf_intros]:
  "(\<And>d. did (f d) = did d) \<Longrightarrow> sat wf_db s \<Longrightarrow> sat wf_db (paymentDisputes_update (\<lambda>t. db_patch t i f) s)"
  by (simp add: sat_def wf_db_def Let_def tbl.wf_patch)

lemma wf_patch_payoutAccounts [wf_intros]:
  "(\<And>d. did (f d) = did d) \<Longrightarrow> sat wf_db s \<Longrightarrow> sat wf_db (payoutAccounts_update (\<lambda>t. db_patch t i f) s)"
  by (simp add: sat_def wf_db_def Let_def tbl.wf_patch)

lemma wf_patch_payoutRuns [wf_intros]:
  "(\<And>d. did (f d) = did d) \<Longrightarrow> sat wf_db s \<Longrightarrow> sat wf_db (payoutRuns_update (\<lambda>t. db_patch t i f) s)"
  by (simp add: sat_def wf_db_def Let_def tbl.wf_patch)

lemma wf_patch_payoutItems [wf_intros]:
  "(\<And>d. did (f d) = did d) \<Longrightarrow> sat wf_db s \<Longrightarrow> sat wf_db (payoutItems_update (\<lambda>t. db_patch t i f) s)"
  by (simp add: sat_def wf_db_def Let_def tbl.wf_patch)

lemma wf_patch_payoutEvents [wf_intros]:
  "(\<And>d. did (f d) = did d) \<Longrightarrow> sat wf_db s \<Longrightarrow> sat wf_db (payoutEvents_update (\<lambda>t. db_patch t i f) s)"
  by (simp add: sat_def wf_db_def Let_def tbl.wf_patch)

lemma wf_patch_profiles [wf_intros]:
  "(\<And>d. did (f d) = did d) \<Longrightarrow> sat wf_db s \<Longrightarrow> sat wf_db (profiles_update (\<lambda>t. db_patch t i f) s)"
  by (simp add: sat_def wf_db_def Let_def tbl.wf_patch)

lemma wf_patch_followingCounts [wf_intros]:
  "(\<And>d. did (f d) = did d) \<Longrightarrow> sat wf_db s \<Longrightarrow> sat wf_db (followingCounts_update (\<lambda>t. db_patch t i f) s)"
  by (simp add: sat_def wf_db_def Let_def tbl.wf_patch)

lemma wf_patch_followerShards [wf_intros]:
  "(\<And>d. did (f d) = did d) \<Longrightarrow> sat wf_db s \<Longrightarrow> sat wf_db (followerShards_update (\<lambda>t. db_patch t i f) s)"
  by (simp add: sat_def wf_db_def Let_def tbl.wf_patch)

lemma wf_patch_emailPreferences [wf_intros]:
  "(\<And>d. did (f d) = did d) \<Longrightarrow> sat wf_db s \<Longrightarrow> sat wf_db (emailPreferences_update (\<lambda>t. db_patch t i f) s)"
  by (simp add: sat_def wf_db_def Let_def tbl.wf_patch)

lemma wf_patch_channelVisits [wf_intros]:
  "(\<And>d. did (f d) = did d) \<Longrightarrow> sat wf_db s \<Longrightarrow> sat wf_db (channelVisits_update (\<lambda>t. db_patch t i f) s)"
  by (simp add: sat_def wf_db_def Let_def tbl.wf_patch)

lemma wf_patch_channelStats [wf_intros]:
  "(\<And>d. did (f d) = did d) \<Longrightarrow> sat wf_db s \<Longrightarrow> sat wf_db (channelStats_update (\<lambda>t. db_patch t i f) s)"
  by (simp add: sat_def wf_db_def Let_def tbl.wf_patch)

lemma wf_patch_rateLimits [wf_intros]:
  "(\<And>d. did (f d) = did d) \<Longrightarrow> sat wf_db s \<Longrightarrow> sat wf_db (rateLimits_update (\<lambda>t. db_patch t i f) s)"
  by (simp add: sat_def wf_db_def Let_def tbl.wf_patch)

lemma wf_insert_users [wf_intros]:
  "did d = nextId s \<Longrightarrow> sat wf_db s \<Longrightarrow> sat wf_db (bumpId (users_update (\<lambda>t. db_insert t d) s))"
  by (simp add: sat_def wf_db_def Let_def tbl.wf_ins wf_table_Suc)

lemma wf_insert_shows_tbl [wf_intros]:
  "did d = nextId s \<Longrightarrow> sat wf_db s \<Longrightarrow> sat wf_db (bumpId (shows_tbl_update (\<lambda>t. db_insert t d) s))"
  by (simp add: sat_def wf_db_def Let_def tbl.wf_ins wf_table_Suc)

lemma wf_insert_showTiers [wf_intros]:
  "did d = nextId s \<Longrightarrow> sat wf_db s \<Longrightarrow> sat wf_db (bumpId (showTiers_update (\<lambda>t. db_insert t d) s))"
  by (simp add: sat_def wf_db_def Let_def tbl.wf_ins wf_table_Suc)

lemma wf_insert_queueEntries [wf_intros]:
  "did d = nextId s \<Longrightarrow> sat wf_db s \<Longrightarrow> sat wf_db (bumpId (queueEntries_update (\<lambda>t. db_insert t d) s))"
  by (simp add: sat_def wf_db_def Let_def tbl.wf_ins wf_table_Suc)

lemma wf_insert_calls [wf_intros]:
  "did d = nextId s \<Longrightarrow> sat wf_db s \<Longrightarrow> sat wf_db (bumpId (calls_update (\<lambda>t. db_insert t d) s))"
  by (simp add: sat_def wf_db_def Let_def tbl.wf_ins wf_table_Suc)

lemma wf_insert_callerNotes [wf_intros]:
  "did d = nextId s \<Longrightarrow> sat wf_db s \<Longrightarrow> sat wf_db (bumpId (callerNotes_update (\<lambda>t. db_insert t d) s))"
  by (simp add: sat_def wf_db_def Let_def tbl.wf_ins wf_table_Suc)

lemma wf_insert_callSignals [wf_intros]:
  "did d = nextId s \<Longrightarrow> sat wf_db s \<Longrightarrow> sat wf_db (bumpId (callSignals_update (\<lambda>t. db_insert t d) s))"
  by (simp add: sat_def wf_db_def Let_def tbl.wf_ins wf_table_Suc)

lemma wf_insert_callPresence [wf_intros]:
  "did d = nextId s \<Longrightarrow> sat wf_db s \<Longrightarrow> sat wf_db (bumpId (callPresence_update (\<lambda>t. db_insert t d) s))"
  by (simp add: sat_def wf_db_def Let_def tbl.wf_ins wf_table_Suc)

lemma wf_insert_paymentAttempts [wf_intros]:
  "did d = nextId s \<Longrightarrow> sat wf_db s \<Longrightarrow> sat wf_db (bumpId (paymentAttempts_update (\<lambda>t. db_insert t d) s))"
  by (simp add: sat_def wf_db_def Let_def tbl.wf_ins wf_table_Suc)

lemma wf_insert_paymentRefunds [wf_intros]:
  "did d = nextId s \<Longrightarrow> sat wf_db s \<Longrightarrow> sat wf_db (bumpId (paymentRefunds_update (\<lambda>t. db_insert t d) s))"
  by (simp add: sat_def wf_db_def Let_def tbl.wf_ins wf_table_Suc)

lemma wf_insert_paymentDisputes [wf_intros]:
  "did d = nextId s \<Longrightarrow> sat wf_db s \<Longrightarrow> sat wf_db (bumpId (paymentDisputes_update (\<lambda>t. db_insert t d) s))"
  by (simp add: sat_def wf_db_def Let_def tbl.wf_ins wf_table_Suc)

lemma wf_insert_stripeEvents [wf_intros]:
  "did d = nextId s \<Longrightarrow> sat wf_db s \<Longrightarrow> sat wf_db (bumpId (stripeEvents_update (\<lambda>t. db_insert t d) s))"
  by (simp add: sat_def wf_db_def Let_def tbl.wf_ins wf_table_Suc)

lemma wf_insert_paymentProfiles [wf_intros]:
  "did d = nextId s \<Longrightarrow> sat wf_db s \<Longrightarrow> sat wf_db (bumpId (paymentProfiles_update (\<lambda>t. db_insert t d) s))"
  by (simp add: sat_def wf_db_def Let_def tbl.wf_ins wf_table_Suc)

lemma wf_insert_payoutAccounts [wf_intros]:
  "did d = nextId s \<Longrightarrow> sat wf_db s \<Longrightarrow> sat wf_db (bumpId (payoutAccounts_update (\<lambda>t. db_insert t d) s))"
  by (simp add: sat_def wf_db_def Let_def tbl.wf_ins wf_table_Suc)

lemma wf_insert_payoutRuns [wf_intros]:
  "did d = nextId s \<Longrightarrow> sat wf_db s \<Longrightarrow> sat wf_db (bumpId (payoutRuns_update (\<lambda>t. db_insert t d) s))"
  by (simp add: sat_def wf_db_def Let_def tbl.wf_ins wf_table_Suc)

lemma wf_insert_payoutItems [wf_intros]:
  "did d = nextId s \<Longrightarrow> sat wf_db s \<Longrightarrow> sat wf_db (bumpId (payoutItems_update (\<lambda>t. db_insert t d) s))"
  by (simp add: sat_def wf_db_def Let_def tbl.wf_ins wf_table_Suc)

lemma wf_insert_payoutEvents [wf_intros]:
  "did d = nextId s \<Longrightarrow> sat wf_db s \<Longrightarrow> sat wf_db (bumpId (payoutEvents_update (\<lambda>t. db_insert t d) s))"
  by (simp add: sat_def wf_db_def Let_def tbl.wf_ins wf_table_Suc)

lemma wf_insert_profiles [wf_intros]:
  "did d = nextId s \<Longrightarrow> sat wf_db s \<Longrightarrow> sat wf_db (bumpId (profiles_update (\<lambda>t. db_insert t d) s))"
  by (simp add: sat_def wf_db_def Let_def tbl.wf_ins wf_table_Suc)

lemma wf_insert_follows [wf_intros]:
  "did d = nextId s \<Longrightarrow> sat wf_db s \<Longrightarrow> sat wf_db (bumpId (follows_update (\<lambda>t. db_insert t d) s))"
  by (simp add: sat_def wf_db_def Let_def tbl.wf_ins wf_table_Suc)

lemma wf_insert_followingCounts [wf_intros]:
  "did d = nextId s \<Longrightarrow> sat wf_db s \<Longrightarrow> sat wf_db (bumpId (followingCounts_update (\<lambda>t. db_insert t d) s))"
  by (simp add: sat_def wf_db_def Let_def tbl.wf_ins wf_table_Suc)

lemma wf_insert_followerShards [wf_intros]:
  "did d = nextId s \<Longrightarrow> sat wf_db s \<Longrightarrow> sat wf_db (bumpId (followerShards_update (\<lambda>t. db_insert t d) s))"
  by (simp add: sat_def wf_db_def Let_def tbl.wf_ins wf_table_Suc)

lemma wf_insert_followerProjections [wf_intros]:
  "did d = nextId s \<Longrightarrow> sat wf_db s \<Longrightarrow> sat wf_db (bumpId (followerProjections_update (\<lambda>t. db_insert t d) s))"
  by (simp add: sat_def wf_db_def Let_def tbl.wf_ins wf_table_Suc)

lemma wf_insert_liveEvents [wf_intros]:
  "did d = nextId s \<Longrightarrow> sat wf_db s \<Longrightarrow> sat wf_db (bumpId (liveEvents_update (\<lambda>t. db_insert t d) s))"
  by (simp add: sat_def wf_db_def Let_def tbl.wf_ins wf_table_Suc)

lemma wf_insert_emailPreferences [wf_intros]:
  "did d = nextId s \<Longrightarrow> sat wf_db s \<Longrightarrow> sat wf_db (bumpId (emailPreferences_update (\<lambda>t. db_insert t d) s))"
  by (simp add: sat_def wf_db_def Let_def tbl.wf_ins wf_table_Suc)

lemma wf_insert_notificationReads [wf_intros]:
  "did d = nextId s \<Longrightarrow> sat wf_db s \<Longrightarrow> sat wf_db (bumpId (notificationReads_update (\<lambda>t. db_insert t d) s))"
  by (simp add: sat_def wf_db_def Let_def tbl.wf_ins wf_table_Suc)

lemma wf_insert_channelVisits [wf_intros]:
  "did d = nextId s \<Longrightarrow> sat wf_db s \<Longrightarrow> sat wf_db (bumpId (channelVisits_update (\<lambda>t. db_insert t d) s))"
  by (simp add: sat_def wf_db_def Let_def tbl.wf_ins wf_table_Suc)

lemma wf_insert_channelStats [wf_intros]:
  "did d = nextId s \<Longrightarrow> sat wf_db s \<Longrightarrow> sat wf_db (bumpId (channelStats_update (\<lambda>t. db_insert t d) s))"
  by (simp add: sat_def wf_db_def Let_def tbl.wf_ins wf_table_Suc)

lemma wf_insert_rateLimits [wf_intros]:
  "did d = nextId s \<Longrightarrow> sat wf_db s \<Longrightarrow> sat wf_db (bumpId (rateLimits_update (\<lambda>t. db_insert t d) s))"
  by (simp add: sat_def wf_db_def Let_def tbl.wf_ins wf_table_Suc)

lemma wf_delete_showTiers [wf_intros]: "sat wf_db s \<Longrightarrow> sat wf_db (showTiers_update (\<lambda>t. db_delete t i) s)"
  by (simp add: sat_def wf_db_def Let_def tbl.wf_del)

lemma wf_delete_callSignals [wf_intros]: "sat wf_db s \<Longrightarrow> sat wf_db (callSignals_update (\<lambda>t. db_delete t i) s)"
  by (simp add: sat_def wf_db_def Let_def tbl.wf_del)

lemma wf_delete_callerNotes [wf_intros]: "sat wf_db s \<Longrightarrow> sat wf_db (callerNotes_update (\<lambda>t. db_delete t i) s)"
  by (simp add: sat_def wf_db_def Let_def tbl.wf_del)

lemma wf_delete_follows [wf_intros]: "sat wf_db s \<Longrightarrow> sat wf_db (follows_update (\<lambda>t. db_delete t i) s)"
  by (simp add: sat_def wf_db_def Let_def tbl.wf_del)

lemma wf_delete_liveEvents [wf_intros]: "sat wf_db s \<Longrightarrow> sat wf_db (liveEvents_update (\<lambda>t. db_delete t i) s)"
  by (simp add: sat_def wf_db_def Let_def tbl.wf_del)

lemma wf_delete_notificationReads [wf_intros]: "sat wf_db s \<Longrightarrow> sat wf_db (notificationReads_update (\<lambda>t. db_delete t i) s)"
  by (simp add: sat_def wf_db_def Let_def tbl.wf_del)

lemma wf_delete_channelVisits [wf_intros]: "sat wf_db s \<Longrightarrow> sat wf_db (channelVisits_update (\<lambda>t. db_delete t i) s)"
  by (simp add: sat_def wf_db_def Let_def tbl.wf_del)

lemma wf_delete_channelStats [wf_intros]: "sat wf_db s \<Longrightarrow> sat wf_db (channelStats_update (\<lambda>t. db_delete t i) s)"
  by (simp add: sat_def wf_db_def Let_def tbl.wf_del)

lemma wf_filter_callPresence [wf_intros]: "sat wf_db s \<Longrightarrow> sat wf_db (callPresence_update (filter P) s)"
  by (simp add: sat_def wf_db_def Let_def wf_filter)

lemma wf_filter_followerProjections [wf_intros]: "sat wf_db s \<Longrightarrow> sat wf_db (followerProjections_update (filter P) s)"
  by (simp add: sat_def wf_db_def Let_def wf_filter)

lemma wf_table_post: "wf_table (nextId s) t \<Longrightarrow> wf_table (nextId (post c e s)) t"
  by (rule wf_table_mono [OF _ post_nextId])

lemma wf_db_post [wf_intros]:
  assumes "sat wf_db s"
  shows "sat wf_db (post c e s)"
proof -
  have "wf_table (nextId (post c e s)) (ledgerEntries (post c e s))"
    "wf_table (nextId (post c e s)) (creatorBalances (post c e s))"
    using assms by (auto simp: sat_def wf_db_def Let_def intro: post_wf_entries post_wf_balances)
  then show ?thesis
    using assms by (simp add: sat_def wf_db_def Let_def wf_table_post)
qed

section \<open>Operations\<close>

lemma did_joinFields [simp]: "did (joinFields c a t p e) = did e"
  by (simp add: joinFields_def)

lemma did_newEntry [simp]: "did (newEntry c i v a t p) = i"
  by (simp add: newEntry_def)

lemma did_callPatch [simp]: "did (callPatch c call t x) = did x"
  by (simp add: callPatch_def)

lemma did_fresh [simp]:
  "did (newCall c i sh e m ca) = i" "did (newAttempt c i p sh ti k cu f) = i"
  "did (outsideRefund c i a ca' r ii am) = i" "did (newItem c i ru ac am) = i"
  by (simp_all add: newCall_def newAttempt_def outsideRefund_def newItem_def)

lemma did_fields [simp]:
  "did (disputeFields d row) = did row" "did (payoutFields p row') = did row'"
  "did (savePatch p' a' q) = did q"
  by (simp_all add: disputeFields_def payoutFields_def savePatch_def Let_def)

lemma wf_ledger_ops [wf_intros]:
  assumes "sat wf_db s"
  shows "sat wf_db (creditEarning c a i t s)" "sat wf_db (reverseForRefund c r s)"
    "sat wf_db (adjustForDispute c d s)"
  using assms creditEarning_cases [of c a i t s] reverseForRefund_cases [of c r s]
    adjustForDispute_cases [of c d s] by (auto intro: wf_intros)

lemma wf_scheduleCancel [wf_intros]: "sat wf_db s \<Longrightarrow> sat wf_db (scheduleCancel c a r s)"
  unfolding scheduleCancel_def by (intro sat_intros wf_intros)

lemma wf_requestRefund [wf_intros]: "sat wf_db s \<Longrightarrow> sat wf_db (requestRefund c a i r s)"
  unfolding requestRefund_def by (intro sat_intros wf_intros) simp_all

lemma wf_failPendingCall [wf_intros]: "sat wf_db s \<Longrightarrow> sat wf_db (failPendingCall c call s)"
  unfolding failPendingCall_def by (intro sat_intros wf_intros) simp_all

lemma wf_markCaptured [wf_intros]: "sat wf_db s \<Longrightarrow> sat wf_db (markCaptured c a s)"
  unfolding markCaptured_def by (intro sat_intros wf_intros) simp_all

lemma wf_recordCaptured [wf_intros]: "sat wf_db s \<Longrightarrow> sat wf_db (recordCaptured c a s)"
  unfolding recordCaptured_def by (intro sat_intros wf_intros) simp_all

lemma wf_releaseEntry [wf_intros]: "sat wf_db s \<Longrightarrow> sat wf_db (releaseEntry c a call s)"
  unfolding releaseEntry_def by (intro sat_intros wf_intros) simp_all

lemma wf_recordNotCaptured [wf_intros]: "sat wf_db s \<Longrightarrow> sat wf_db (recordNotCaptured c a st code s)"
  unfolding recordNotCaptured_def by (intro sat_intros wf_intros) simp_all

lemma wf_transition_parts [wf_intros]:
  assumes "sat wf_db s"
  shows "sat wf_db (scheduleExpiry c call t s)" "sat wf_db (creditIfLive c call t s)"
    "sat wf_db (refundIfNeverLive c call t s)" "sat wf_db (dropPresence i s)"
  unfolding scheduleExpiry_def creditIfLive_def refundIfNeverLive_def dropPresence_def
  by (intro sat_intros wf_intros assms)+

lemma wf_cleanUpFinished [wf_intros]: "sat wf_db s \<Longrightarrow> sat wf_db (cleanUpFinished c call t s)"
  unfolding cleanUpFinished_def by (intro sat_intros wf_intros)

lemma wf_applyTransition [wf_intros]: "sat wf_db s \<Longrightarrow> ensures (wf_db) (applyTransition c call t s)"
  unfolding applyTransition_def by (intro sat_intros wf_intros) simp_all

lemma wf_onShow [wf_intros]:
  assumes "sat wf_db s"
  shows "sat wf_db (onShowCreated c i s)" "sat wf_db (onShowScheduled c i t s)"
    "sat wf_db (queueLiveAlert c sh s)" "sat wf_db (onShowEnded c sh s)"
  unfolding onShowCreated_def onShowScheduled_def queueLiveAlert_def onShowEnded_def
  by (intro sat_intros wf_intros assms; simp)+

lemma wf_onShowLive [wf_intros]: "sat wf_db s \<Longrightarrow> sat wf_db (onShowLive c sh s)"
  unfolding onShowLive_def by (intro sat_intros wf_intros) simp_all

section \<open>Requests\<close>

lemma wf_shows_create [wf_intros]: "sat wf_db s \<Longrightarrow> ensures wf_db (shows_create c s)"
  unfolding shows_create_def by (intro sat_intros wf_intros) simp_all

lemma wf_shows_schedule [wf_intros]: "sat wf_db s \<Longrightarrow> ensures wf_db (shows_schedule c i t s)"
  unfolding shows_schedule_def by (intro sat_intros wf_intros) simp_all

lemma wf_shows_start [wf_intros]: "sat wf_db s \<Longrightarrow> ensures wf_db (shows_start c i s)"
  unfolding shows_start_def by (intro sat_intros wf_intros) simp_all

lemma wf_endOpenCall [wf_intros]: "sat wf_db s \<Longrightarrow> ensuresDb wf_db (endOpenCall c i s)"
  unfolding endOpenCall_def by (intro ensures_bind_state(2) sat_intros wf_intros) simp_all

lemma wf_shows_end [wf_intros]: "sat wf_db s \<Longrightarrow> ensures wf_db (shows_end c i s)"
  unfolding shows_end_def by (intro ensures_bind_state(3) sat_intros wf_intros) simp_all

lemma wf_closeEntry [wf_intros]: "sat wf_db s \<Longrightarrow> sat wf_db (closeEntry c st e s)"
  unfolding closeEntry_def by (intro sat_intros wf_intros) simp_all

lemma wf_closeStatuses: "sat wf_db s \<Longrightarrow> sat wf_db (snd (closeStatuses c i n sts k s))"
proof (induction sts arbitrary: k s)
  case (Cons st sts)
  then show ?case by (auto simp: Let_def intro!: Cons.IH sat_fold wf_closeEntry)
qed simp

lemma wf_closeQueue [wf_intros]: "sat wf_db s \<Longrightarrow> sat wf_db (closeQueue c i s)"
  using wf_closeStatuses [of s c i CLOSE_BATCH ACTIVE_ENTRY_STATUSES 0]
  unfolding closeQueue_def closeEntries_def by (intro sat_intros wf_intros) (metis snd_conv)+

lemma wf_tier_writes [wf_intros]:
  assumes "sat wf_db s"
  shows "sat wf_db (insertTier c r s)" "sat wf_db (deleteTier t s)"
  unfolding insertTier_def deleteTier_def by (intro wf_intros assms; simp)+

lemma wf_tiers_replace [wf_intros]: "sat wf_db s \<Longrightarrow> ensures wf_db (tiers_replace c i ts s)"
  unfolding tiers_replace_def by (intro sat_intros wf_intros)

lemma wf_attachEntry [wf_intros]: "sat wf_db s \<Longrightarrow> sat wf_db (attachEntry a i s)"
  unfolding attachEntry_def by (intro sat_intros wf_intros) simp_all

lemma wf_writeEntry: "sat wf_db s \<Longrightarrow> writeEntry c v a t ex at' s = (i, s') \<Longrightarrow> sat wf_db s'"
  unfolding writeEntry_def by (auto intro!: wf_intros split: option.splits)

lemma wf_joinQueue [wf_intros]: "sat wf_db s \<Longrightarrow> ensures wf_db (joinQueue c v a p s)"
  unfolding joinQueue_def by (intro sat_intros; (assumption | metis wf_writeEntry))

lemma wf_queue_joins [wf_intros]:
  assumes "sat wf_db s"
  shows "ensures wf_db (queue_join c a s)" "ensures wf_db (joinWithPayment c a p s)"
  using ensuresD [OF wf_joinQueue [OF assms]]
  unfolding queue_join_def joinWithPayment_def by (intro sat_intros; blast)+

lemma wf_releaseHold [wf_intros]: "sat wf_db s \<Longrightarrow> sat wf_db (releaseHold c e r s)"
  unfolding releaseHold_def by (intro sat_intros wf_intros)

lemma wf_queue_leave [wf_intros]: "sat wf_db s \<Longrightarrow> ensures wf_db (queue_leave c i s)"
  unfolding queue_leave_def by (intro sat_intros wf_intros) simp_all

lemma wf_createCall [wf_intros]: "sat wf_db s \<Longrightarrow> ensures wf_db (createCall c sh e m s)"
  unfolding createCall_def openCall_def startCapture_def by (intro sat_intros wf_intros) simp_all

lemma wf_selects [wf_intros]:
  assumes "sat wf_db s"
  shows "ensures wf_db (calls_select c i e s)" "ensures wf_db (calls_selectRandom c i s)"
  unfolding calls_select_def calls_selectRandom_def by (intro sat_intros wf_intros assms)+

lemma wf_calls_transition [wf_intros]: "sat wf_db s \<Longrightarrow> ensures wf_db (calls_transition c i st s)"
  using ensuresD [OF wf_applyTransition] unfolding calls_transition_def by (intro sat_intros; blast)

lemma wf_calls_expire [wf_intros]: "sat wf_db s \<Longrightarrow> ensuresDb wf_db (calls_expire c i s)"
  using ensuresD [OF wf_applyTransition] unfolding calls_expire_def by (intro sat_intros; blast)

lemma wf_touchPresence [wf_intros]: "sat wf_db s \<Longrightarrow> sat wf_db (touchPresence c i r s)"
  unfolding touchPresence_def by (intro sat_intros wf_intros) simp_all

lemma wf_markDisconnected [wf_intros]: "sat wf_db s \<Longrightarrow> sat wf_db (markDisconnected c j i r s)"
  unfolding markDisconnected_def by (intro sat_intros wf_intros) simp_all

lemma wf_presence_ops [wf_intros]:
  assumes "sat wf_db s"
  shows "ensuresDb wf_db (presence_heartbeat c i s)" "ensuresDb wf_db (presence_leave c i s)"
    "sat wf_db (presence_checkSeen c i r t s)"
  unfolding presence_heartbeat_def presence_leave_def presence_checkSeen_def
  by (intro sat_intros wf_intros assms)+

lemma wf_presence_checkGrace [wf_intros]:
  "sat wf_db s \<Longrightarrow> ensuresDb wf_db (presence_checkGrace c i r t s)"
  using ensuresD [OF wf_applyTransition] unfolding presence_checkGrace_def by (intro sat_intros; blast)

lemma wf_sendEach [wf_intros]: "sat wf_db s \<Longrightarrow> ensuresDb wf_db (sendEach js c i r gs p s)"
proof (induction gs arbitrary: p s)
  case Nil
  then show ?case by (simp add: sat_intros)
next
  case (Cons g gs)
  obtain ty payload where g: "g = (ty, payload)" by (cases g)
  have ins: "sat wf_db (insertSignal c i (other r) ty' payload s)" for ty'
    unfolding insertSignal_def using Cons.prems by (intro wf_intros) simp_all
  show ?case
    unfolding g sendEach.simps Let_def
    using Cons.IH [OF ins] Cons.IH [OF Cons.prems] by (simp add: ensuresDb_control(1))
qed

lemma wf_signal_ops [wf_intros]:
  assumes "sat wf_db s"
  shows "ensuresDb wf_db (signals_send js c i gs s)" "ensuresDb wf_db (signals_ack c i ids s)"
    "sat wf_db (signals_purge c i s)"
  unfolding signals_send_def signals_ack_def ackOne_def signals_purge_def
  by (intro sat_intros wf_intros assms; assumption?)+


lemma wf_prepare [wf_intros]: "sat wf_db s \<Longrightarrow> ensures wf_db (prepare c i t k cu s)"
  unfolding prepare_def by (intro sat_intros wf_intros) simp_all

lemma wf_payment_ops [wf_intros]:
  assumes "sat wf_db s"
  shows "ensures wf_db (attachIntent i p s)" "sat wf_db (markAuthorized c i s)"
    "sat wf_db (payments_captured c i s)" "sat wf_db (payments_notCaptured c i st code s)"
  unfolding attachIntent_def markAuthorized_def payments_captured_def payments_notCaptured_def
  by (intro sat_intros wf_intros assms; simp)+

lemma wf_refunds_claim [wf_intros]: "sat wf_db s \<Longrightarrow> sat wf_db (snd (refunds_claim c i s))"
  by (auto simp: refunds_claim_def Let_def intro!: wf_intros split: option.split)

lemma wf_refund_ops [wf_intros]:
  assumes "sat wf_db s"
  shows "sat wf_db (refunds_record c i r st code s)" "sat wf_db (refunds_retry c i fc s)"
  unfolding refunds_record_def refunds_retry_def by (intro sat_intros wf_intros assms; simp)+

lemma wf_refundRow: "sat wf_db s \<Longrightarrow> refundRow c r s = (d, s') \<Longrightarrow> sat wf_db s'"
  by (auto simp: refundRow_def Let_def intro!: wf_intros split: option.splits)

lemma wf_saveDispute: "sat wf_db s \<Longrightarrow> saveDispute c d s = (i, s') \<Longrightarrow> sat wf_db s'"
  by (auto simp: saveDispute_def Let_def intro!: wf_intros split: option.splits)

lemma wf_apply_parts [wf_intros]:
  assumes "sat wf_db s"
  shows "sat wf_db (recordEvent c a s)" "sat wf_db (applyIntent c ty ia s)"
    "sat wf_db (settleRefund c ra rf s)" "sat wf_db (applyPayout c sa p s)"
  unfolding recordEvent_def applyIntent_def settleRefund_def applyPayout_def
  by (intro sat_intros wf_intros assms; simp)+

lemma wf_applyRefund [wf_intros]: "sat wf_db s \<Longrightarrow> sat wf_db (applyRefund c r s)"
  unfolding applyRefund_def by (intro sat_intros wf_intros; metis wf_refundRow)

lemma wf_applyDispute [wf_intros]: "sat wf_db s \<Longrightarrow> sat wf_db (applyDispute c d s)"
  unfolding applyDispute_def by (intro sat_intros wf_intros; metis wf_saveDispute)

lemma wf_webhooks_apply [wf_intros]: "sat wf_db s \<Longrightarrow> sat wf_db (webhooks_apply c a s)"
  unfolding webhooks_apply_def applyEvent_def by (intro sat_intros wf_intros)

lemma wf_saves [wf_intros]:
  assumes "sat wf_db s"
  shows "sat wf_db (snd (saveProfile c i cu s))" "sat wf_db (saveAccount c i a s)"
  using assms by (auto simp: saveProfile_def saveAccount_def intro!: wf_intros split: option.split)

lemma wf_openRun: "sat wf_db s \<Longrightarrow> openRun c p cur s = (i, s') \<Longrightarrow> sat wf_db s'"
  by (auto simp: openRun_def intro!: wf_intros split: option.splits)

lemma wf_runDue [wf_intros]: "sat wf_db s \<Longrightarrow> sat wf_db (runDue c s)"
  unfolding runDue_def by (intro sat_intros wf_intros; metis wf_openRun)

lemma wf_reserveItem [wf_intros]: "sat wf_db s \<Longrightarrow> sat wf_db (reserveItem c r a n s)"
  unfolding reserveItem_def by (intro sat_intros wf_intros) simp_all

lemma wf_reserveFor [wf_intros]: "sat wf_db s \<Longrightarrow> sat wf_db (reserveFor c r a s)"
  unfolding reserveFor_def by (intro sat_intros wf_intros)

lemma wf_reserveBatch [wf_intros]: "sat wf_db s \<Longrightarrow> sat wf_db (reserveBatch c i n s)"
  unfolding reserveBatch_def by (intro sat_intros wf_intros)

lemma wf_claimTransfer [wf_intros]: "sat wf_db s \<Longrightarrow> sat wf_db (snd (claimTransfer c i s))"
  by (auto simp: claimTransfer_def Let_def intro!: wf_intros split: option.split)

lemma wf_transfer_ops [wf_intros]:
  assumes "sat wf_db s"
  shows "sat wf_db (markPaid c i t s)" "sat wf_db (retryTransfer c i code s)" "sat wf_db (finishRun c r s)"
  unfolding markPaid_def retryTransfer_def finishRun_def by (intro sat_intros wf_intros assms; simp)+

lemma wf_finishRuns [wf_intros]: "sat wf_db s \<Longrightarrow> sat wf_db (finishRuns c s)"
  unfolding finishRuns_def by (intro sat_intros wf_intros)

lemma wf_insertUser [wf_intros]: "sat wf_db s \<Longrightarrow> sat wf_db (insertUser c u s)"
  unfolding insertUser_def by (intro wf_intros) simp_all

lemma wf_createProfile [wf_intros]: "sat wf_db s \<Longrightarrow> sat wf_db (createProfile c i u s)"
  unfolding createProfile_def by (intro wf_intros) simp_all

lemma wf_createOrUpdateUser [wf_intros]: "sat wf_db s \<Longrightarrow> ensures wf_db (createOrUpdateUser c i u s)"
  by (auto simp: createOrUpdateUser_def intro!: sat_intros wf_intros split: option.split list.split)

lemma wf_callerNotes_save [wf_intros]: "sat wf_db s \<Longrightarrow> ensures wf_db (callerNotes_save c i n s)"
  unfolding callerNotes_save_def writeNote_def by (intro sat_intros wf_intros) simp_all

lemma wf_rateLimit [wf_intros]: "sat wf_db s \<Longrightarrow> ensuresDb wf_db (rateLimit c k n w s)"
  by (auto simp: rateLimit_def Let_def intro!: sat_intros wf_intros split: option.split)

lemma wf_decShard: "sat wf_db s \<Longrightarrow> sat wf_db (decShard i n offs s)"
  by (induction offs) (auto simp: patchShard_def intro!: wf_intros split: option.split)

lemma wf_adjustShard [wf_intros]: "sat wf_db s \<Longrightarrow> sat wf_db (adjustShard c i up s)"
  unfolding adjustShard_def scheduleProjection_def incShard_def patchShard_def
  by (intro sat_intros wf_intros wf_decShard) simp_all

lemma wf_follow_writes [wf_intros]:
  assumes "sat wf_db s"
  shows "sat wf_db (setCount c u r n s)" "sat wf_db (writeFollow c u i e s)"
  unfolding setCount_def writeFollow_def by (intro sat_intros wf_intros assms; simp)+

lemma wf_applyFollow [wf_intros]: "sat wf_db s \<Longrightarrow> ensuresDb wf_db (applyFollow c u i e f s)"
  by (auto simp: applyFollow_def Let_def intro!: sat_intros wf_intros split: option.split)

lemma wf_setFollow [wf_intros]: "sat wf_db s \<Longrightarrow> ensures wf_db (setFollow c u f s)"
  unfolding setFollow_def by (intro sat_intros ensures_bind_state(3) wf_intros)


lemma wf_follows_project [wf_intros]: "sat wf_db s \<Longrightarrow> sat wf_db (follows_project i s)"
  unfolding follows_project_def by (intro sat_intros wf_intros) simp_all

lemma wf_profiles_save [wf_intros]: "sat wf_db s \<Longrightarrow> ensures wf_db (profiles_save pu gu c a s)"
  unfolding profiles_save_def by (intro sat_intros ensures_bind_state(3) wf_intros) simp_all

lemma wf_avatar_ops [wf_intros]:
  assumes "sat wf_db s"
  shows "ensures wf_db (avatarUploadUrl c s)" "ensures wf_db (attachAvatar gu c i s)"
  unfolding avatarUploadUrl_def attachAvatar_def
  by (intro sat_intros ensures_bind_state(3) wf_intros assms; simp)+

lemma wf_markRead [wf_intros]: "sat wf_db s \<Longrightarrow> ensuresDb wf_db (markRead c ids s)"
  unfolding markRead_def markOne_def
  by (intro sat_intros ensures_bind_state(4) wf_intros) simp_all

lemma wf_pruneEvents: "sat wf_db s \<Longrightarrow> sat wf_db (snd (pruneEvents es n s))"
  by (induction es n s rule: pruneEvents.induct) (auto simp: Let_def intro!: sat_intros wf_intros)

lemma wf_notifications_prune [wf_intros]: "sat wf_db s \<Longrightarrow> sat wf_db (notifications_prune c s)"
  unfolding notifications_prune_def by (intro sat_intros wf_intros; metis wf_pruneEvents snd_conv)

lemma wf_channel_writes [wf_intros]:
  assumes "sat wf_db s"
  shows "sat wf_db (touchVisit c i v s)" "sat wf_db (startCounting c i s)" "sat wf_db (storeStats c i n l b s)"
  unfolding touchVisit_def startCounting_def storeStats_def by (intro sat_intros wf_intros assms; simp)+

lemma wf_channel_ops [wf_intros]:
  assumes "sat wf_db s"
  shows "ensures wf_db (channels_heartbeat c u s)" "sat wf_db (storeCount c i n t s)"
  unfolding channels_heartbeat_def storeCount_def by (intro sat_intros wf_intros assms; assumption?)+

lemma wf_savePreference [wf_intros]: "sat wf_db s \<Longrightarrow> sat wf_db (savePreference c u b s)"
  unfolding savePreference_def by (intro sat_intros wf_intros) simp_all

lemma wf_liveAlerts_collect [wf_intros]: "sat wf_db s \<Longrightarrow> sat wf_db (liveAlerts_collect c i n b s)"
  unfolding liveAlerts_collect_def by (intro sat_intros wf_intros)

lemma wf_setLiveAlerts [wf_intros]: "sat wf_db s \<Longrightarrow> ensuresDb wf_db (setLiveAlerts c e s)"
  unfolding setLiveAlerts_def by (intro sat_intros wf_intros)

lemma wf_alerts_unsubscribe [wf_intros]: "sat wf_db s \<Longrightarrow> sat wf_db (alerts_unsubscribe c u s)"
  unfolding alerts_unsubscribe_def by (intro sat_intros wf_intros)

lemma wf_allowSend [wf_intros]: "sat wf_db s \<Longrightarrow> ensuresDb wf_db (allowSend c m s)"
  unfolding allowSend_def by (intro wf_intros)

section \<open>Every reachable database is well formed\<close>

lemma exec_wf: "sat wf_db s \<Longrightarrow> sat wf_db (exec h c req s)"
proof (cases req)
  case (Stage r)
  assume "sat wf_db s"
  then show ?thesis unfolding Stage by (cases r) (auto intro!: sat_intros wf_intros)
next
  case (Money r)
  assume "sat wf_db s"
  then show ?thesis unfolding Money by (cases r) (auto intro!: sat_intros wf_intros)
next
  case (Social r)
  assume "sat wf_db s"
  then show ?thesis unfolding Social by (cases r) (auto intro!: sat_intros wf_intros)
qed

interpretation wf: inductive_invariant h "\<lambda>_. True" wf_db for h
  using exec_wf by unfold_locales (simp_all add: wf_empty_db sat_def)

lemmas reachable_wf = wf.holds

end
