(* ===== verification/Footprint.thy ===== *)
theory Footprint
  imports Wellformed
begin

text \<open>
  Which tables an operation writes.  \<open>same W s s'\<close> says that every table outside \<open>W\<close> is
  the same in both databases; an operation has a rule saying which tables must be in \<open>W\<close>, proved
  from the rules of the operations it calls.  \<open>writes\<close> collects them per request: an invariant
  over some tables then only has to be shown for the requests that write one of them.
\<close>

datatype table_name = T_users | T_shows | T_showTiers | T_queueEntries | T_calls | T_callerNotes | T_callSignals | T_callPresence | T_paymentAttempts | T_paymentRefunds | T_paymentDisputes | T_stripeEvents | T_paymentProfiles | T_payoutAccounts | T_ledgerEntries | T_creatorBalances | T_payoutRuns | T_payoutItems | T_payoutEvents | T_profiles | T_follows | T_followingCounts | T_followerShards | T_followerProjections | T_liveEvents | T_emailPreferences | T_notificationReads | T_channelVisits | T_channelStats | T_rateLimits

definition same :: "table_name set \<Rightarrow> db \<Rightarrow> db \<Rightarrow> bool" where
  "same W s s' \<longleftrightarrow>
     (T_users \<notin> W \<longrightarrow> users s' = users s) \<and>
     (T_shows \<notin> W \<longrightarrow> shows_tbl s' = shows_tbl s) \<and>
     (T_showTiers \<notin> W \<longrightarrow> showTiers s' = showTiers s) \<and>
     (T_queueEntries \<notin> W \<longrightarrow> queueEntries s' = queueEntries s) \<and>
     (T_calls \<notin> W \<longrightarrow> calls s' = calls s) \<and>
     (T_callerNotes \<notin> W \<longrightarrow> callerNotes s' = callerNotes s) \<and>
     (T_callSignals \<notin> W \<longrightarrow> callSignals s' = callSignals s) \<and>
     (T_callPresence \<notin> W \<longrightarrow> callPresence s' = callPresence s) \<and>
     (T_paymentAttempts \<notin> W \<longrightarrow> paymentAttempts s' = paymentAttempts s) \<and>
     (T_paymentRefunds \<notin> W \<longrightarrow> paymentRefunds s' = paymentRefunds s) \<and>
     (T_paymentDisputes \<notin> W \<longrightarrow> paymentDisputes s' = paymentDisputes s) \<and>
     (T_stripeEvents \<notin> W \<longrightarrow> stripeEvents s' = stripeEvents s) \<and>
     (T_paymentProfiles \<notin> W \<longrightarrow> paymentProfiles s' = paymentProfiles s) \<and>
     (T_payoutAccounts \<notin> W \<longrightarrow> payoutAccounts s' = payoutAccounts s) \<and>
     (T_ledgerEntries \<notin> W \<longrightarrow> ledgerEntries s' = ledgerEntries s) \<and>
     (T_creatorBalances \<notin> W \<longrightarrow> creatorBalances s' = creatorBalances s) \<and>
     (T_payoutRuns \<notin> W \<longrightarrow> payoutRuns s' = payoutRuns s) \<and>
     (T_payoutItems \<notin> W \<longrightarrow> payoutItems s' = payoutItems s) \<and>
     (T_payoutEvents \<notin> W \<longrightarrow> payoutEvents s' = payoutEvents s) \<and>
     (T_profiles \<notin> W \<longrightarrow> profiles s' = profiles s) \<and>
     (T_follows \<notin> W \<longrightarrow> follows s' = follows s) \<and>
     (T_followingCounts \<notin> W \<longrightarrow> followingCounts s' = followingCounts s) \<and>
     (T_followerShards \<notin> W \<longrightarrow> followerShards s' = followerShards s) \<and>
     (T_followerProjections \<notin> W \<longrightarrow> followerProjections s' = followerProjections s) \<and>
     (T_liveEvents \<notin> W \<longrightarrow> liveEvents s' = liveEvents s) \<and>
     (T_emailPreferences \<notin> W \<longrightarrow> emailPreferences s' = emailPreferences s) \<and>
     (T_notificationReads \<notin> W \<longrightarrow> notificationReads s' = notificationReads s) \<and>
     (T_channelVisits \<notin> W \<longrightarrow> channelVisits s' = channelVisits s) \<and>
     (T_channelStats \<notin> W \<longrightarrow> channelStats s' = channelStats s) \<and>
     (T_rateLimits \<notin> W \<longrightarrow> rateLimits s' = rateLimits s)"

named_theorems mod_intros \<open>which tables an operation may write\<close>

lemma same_refl [simp]: "same W s s"
  by (simp add: same_def)

lemma sameD:
  "same W s s' \<Longrightarrow> T_users \<notin> W \<Longrightarrow> users s' = users s"
  "same W s s' \<Longrightarrow> T_shows \<notin> W \<Longrightarrow> shows_tbl s' = shows_tbl s"
  "same W s s' \<Longrightarrow> T_showTiers \<notin> W \<Longrightarrow> showTiers s' = showTiers s"
  "same W s s' \<Longrightarrow> T_queueEntries \<notin> W \<Longrightarrow> queueEntries s' = queueEntries s"
  "same W s s' \<Longrightarrow> T_calls \<notin> W \<Longrightarrow> calls s' = calls s"
  "same W s s' \<Longrightarrow> T_callerNotes \<notin> W \<Longrightarrow> callerNotes s' = callerNotes s"
  "same W s s' \<Longrightarrow> T_callSignals \<notin> W \<Longrightarrow> callSignals s' = callSignals s"
  "same W s s' \<Longrightarrow> T_callPresence \<notin> W \<Longrightarrow> callPresence s' = callPresence s"
  "same W s s' \<Longrightarrow> T_paymentAttempts \<notin> W \<Longrightarrow> paymentAttempts s' = paymentAttempts s"
  "same W s s' \<Longrightarrow> T_paymentRefunds \<notin> W \<Longrightarrow> paymentRefunds s' = paymentRefunds s"
  "same W s s' \<Longrightarrow> T_paymentDisputes \<notin> W \<Longrightarrow> paymentDisputes s' = paymentDisputes s"
  "same W s s' \<Longrightarrow> T_stripeEvents \<notin> W \<Longrightarrow> stripeEvents s' = stripeEvents s"
  "same W s s' \<Longrightarrow> T_paymentProfiles \<notin> W \<Longrightarrow> paymentProfiles s' = paymentProfiles s"
  "same W s s' \<Longrightarrow> T_payoutAccounts \<notin> W \<Longrightarrow> payoutAccounts s' = payoutAccounts s"
  "same W s s' \<Longrightarrow> T_ledgerEntries \<notin> W \<Longrightarrow> ledgerEntries s' = ledgerEntries s"
  "same W s s' \<Longrightarrow> T_creatorBalances \<notin> W \<Longrightarrow> creatorBalances s' = creatorBalances s"
  "same W s s' \<Longrightarrow> T_payoutRuns \<notin> W \<Longrightarrow> payoutRuns s' = payoutRuns s"
  "same W s s' \<Longrightarrow> T_payoutItems \<notin> W \<Longrightarrow> payoutItems s' = payoutItems s"
  "same W s s' \<Longrightarrow> T_payoutEvents \<notin> W \<Longrightarrow> payoutEvents s' = payoutEvents s"
  "same W s s' \<Longrightarrow> T_profiles \<notin> W \<Longrightarrow> profiles s' = profiles s"
  "same W s s' \<Longrightarrow> T_follows \<notin> W \<Longrightarrow> follows s' = follows s"
  "same W s s' \<Longrightarrow> T_followingCounts \<notin> W \<Longrightarrow> followingCounts s' = followingCounts s"
  "same W s s' \<Longrightarrow> T_followerShards \<notin> W \<Longrightarrow> followerShards s' = followerShards s"
  "same W s s' \<Longrightarrow> T_followerProjections \<notin> W \<Longrightarrow> followerProjections s' = followerProjections s"
  "same W s s' \<Longrightarrow> T_liveEvents \<notin> W \<Longrightarrow> liveEvents s' = liveEvents s"
  "same W s s' \<Longrightarrow> T_emailPreferences \<notin> W \<Longrightarrow> emailPreferences s' = emailPreferences s"
  "same W s s' \<Longrightarrow> T_notificationReads \<notin> W \<Longrightarrow> notificationReads s' = notificationReads s"
  "same W s s' \<Longrightarrow> T_channelVisits \<notin> W \<Longrightarrow> channelVisits s' = channelVisits s"
  "same W s s' \<Longrightarrow> T_channelStats \<notin> W \<Longrightarrow> channelStats s' = channelStats s"
  "same W s s' \<Longrightarrow> T_rateLimits \<notin> W \<Longrightarrow> rateLimits s' = rateLimits s"
  by (simp_all add: same_def)

section \<open>Writes\<close>

lemma mod_jobs [mod_intros]:
  "sat (same W s0) s \<Longrightarrow> sat (same W s0) (runAfter c d j s)"
  "sat (same W s0) s \<Longrightarrow> sat (same W s0) (runAt t j s)"
  "sat (same W s0) s \<Longrightarrow> sat (same W s0) (nextId_update g s)"
  by (simp_all add: sat_def same_def runAt_def)

lemma mod_post [mod_intros]:
  "T_ledgerEntries \<in> W \<Longrightarrow> T_creatorBalances \<in> W \<Longrightarrow> sat (same W s0) s \<Longrightarrow> sat (same W s0) (post c e s)"
  by (simp add: sat_def same_def)

lemma mod_users [mod_intros]:
  "T_users \<in> W \<Longrightarrow> sat (same W s0) s \<Longrightarrow> sat (same W s0) (users_update g s)"
  by (simp add: sat_def same_def)

lemma mod_shows_tbl [mod_intros]:
  "T_shows \<in> W \<Longrightarrow> sat (same W s0) s \<Longrightarrow> sat (same W s0) (shows_tbl_update g s)"
  by (simp add: sat_def same_def)

lemma mod_showTiers [mod_intros]:
  "T_showTiers \<in> W \<Longrightarrow> sat (same W s0) s \<Longrightarrow> sat (same W s0) (showTiers_update g s)"
  by (simp add: sat_def same_def)

lemma mod_queueEntries [mod_intros]:
  "T_queueEntries \<in> W \<Longrightarrow> sat (same W s0) s \<Longrightarrow> sat (same W s0) (queueEntries_update g s)"
  by (simp add: sat_def same_def)

lemma mod_calls [mod_intros]:
  "T_calls \<in> W \<Longrightarrow> sat (same W s0) s \<Longrightarrow> sat (same W s0) (calls_update g s)"
  by (simp add: sat_def same_def)

lemma mod_callerNotes [mod_intros]:
  "T_callerNotes \<in> W \<Longrightarrow> sat (same W s0) s \<Longrightarrow> sat (same W s0) (callerNotes_update g s)"
  by (simp add: sat_def same_def)

lemma mod_callSignals [mod_intros]:
  "T_callSignals \<in> W \<Longrightarrow> sat (same W s0) s \<Longrightarrow> sat (same W s0) (callSignals_update g s)"
  by (simp add: sat_def same_def)

lemma mod_callPresence [mod_intros]:
  "T_callPresence \<in> W \<Longrightarrow> sat (same W s0) s \<Longrightarrow> sat (same W s0) (callPresence_update g s)"
  by (simp add: sat_def same_def)

lemma mod_paymentAttempts [mod_intros]:
  "T_paymentAttempts \<in> W \<Longrightarrow> sat (same W s0) s \<Longrightarrow> sat (same W s0) (paymentAttempts_update g s)"
  by (simp add: sat_def same_def)

lemma mod_paymentRefunds [mod_intros]:
  "T_paymentRefunds \<in> W \<Longrightarrow> sat (same W s0) s \<Longrightarrow> sat (same W s0) (paymentRefunds_update g s)"
  by (simp add: sat_def same_def)

lemma mod_paymentDisputes [mod_intros]:
  "T_paymentDisputes \<in> W \<Longrightarrow> sat (same W s0) s \<Longrightarrow> sat (same W s0) (paymentDisputes_update g s)"
  by (simp add: sat_def same_def)

lemma mod_stripeEvents [mod_intros]:
  "T_stripeEvents \<in> W \<Longrightarrow> sat (same W s0) s \<Longrightarrow> sat (same W s0) (stripeEvents_update g s)"
  by (simp add: sat_def same_def)

lemma mod_paymentProfiles [mod_intros]:
  "T_paymentProfiles \<in> W \<Longrightarrow> sat (same W s0) s \<Longrightarrow> sat (same W s0) (paymentProfiles_update g s)"
  by (simp add: sat_def same_def)

lemma mod_payoutAccounts [mod_intros]:
  "T_payoutAccounts \<in> W \<Longrightarrow> sat (same W s0) s \<Longrightarrow> sat (same W s0) (payoutAccounts_update g s)"
  by (simp add: sat_def same_def)

lemma mod_payoutRuns [mod_intros]:
  "T_payoutRuns \<in> W \<Longrightarrow> sat (same W s0) s \<Longrightarrow> sat (same W s0) (payoutRuns_update g s)"
  by (simp add: sat_def same_def)

lemma mod_payoutItems [mod_intros]:
  "T_payoutItems \<in> W \<Longrightarrow> sat (same W s0) s \<Longrightarrow> sat (same W s0) (payoutItems_update g s)"
  by (simp add: sat_def same_def)

lemma mod_payoutEvents [mod_intros]:
  "T_payoutEvents \<in> W \<Longrightarrow> sat (same W s0) s \<Longrightarrow> sat (same W s0) (payoutEvents_update g s)"
  by (simp add: sat_def same_def)

lemma mod_profiles [mod_intros]:
  "T_profiles \<in> W \<Longrightarrow> sat (same W s0) s \<Longrightarrow> sat (same W s0) (profiles_update g s)"
  by (simp add: sat_def same_def)

lemma mod_follows [mod_intros]:
  "T_follows \<in> W \<Longrightarrow> sat (same W s0) s \<Longrightarrow> sat (same W s0) (follows_update g s)"
  by (simp add: sat_def same_def)

lemma mod_followingCounts [mod_intros]:
  "T_followingCounts \<in> W \<Longrightarrow> sat (same W s0) s \<Longrightarrow> sat (same W s0) (followingCounts_update g s)"
  by (simp add: sat_def same_def)

lemma mod_followerShards [mod_intros]:
  "T_followerShards \<in> W \<Longrightarrow> sat (same W s0) s \<Longrightarrow> sat (same W s0) (followerShards_update g s)"
  by (simp add: sat_def same_def)

lemma mod_followerProjections [mod_intros]:
  "T_followerProjections \<in> W \<Longrightarrow> sat (same W s0) s \<Longrightarrow> sat (same W s0) (followerProjections_update g s)"
  by (simp add: sat_def same_def)

lemma mod_liveEvents [mod_intros]:
  "T_liveEvents \<in> W \<Longrightarrow> sat (same W s0) s \<Longrightarrow> sat (same W s0) (liveEvents_update g s)"
  by (simp add: sat_def same_def)

lemma mod_emailPreferences [mod_intros]:
  "T_emailPreferences \<in> W \<Longrightarrow> sat (same W s0) s \<Longrightarrow> sat (same W s0) (emailPreferences_update g s)"
  by (simp add: sat_def same_def)

lemma mod_notificationReads [mod_intros]:
  "T_notificationReads \<in> W \<Longrightarrow> sat (same W s0) s \<Longrightarrow> sat (same W s0) (notificationReads_update g s)"
  by (simp add: sat_def same_def)

lemma mod_channelVisits [mod_intros]:
  "T_channelVisits \<in> W \<Longrightarrow> sat (same W s0) s \<Longrightarrow> sat (same W s0) (channelVisits_update g s)"
  by (simp add: sat_def same_def)

lemma mod_channelStats [mod_intros]:
  "T_channelStats \<in> W \<Longrightarrow> sat (same W s0) s \<Longrightarrow> sat (same W s0) (channelStats_update g s)"
  by (simp add: sat_def same_def)

lemma mod_rateLimits [mod_intros]:
  "T_rateLimits \<in> W \<Longrightarrow> sat (same W s0) s \<Longrightarrow> sat (same W s0) (rateLimits_update g s)"
  by (simp add: sat_def same_def)

section \<open>Operations\<close>

lemma mod_creditEarning [mod_intros]:
  "T_creatorBalances \<in> W \<Longrightarrow> T_ledgerEntries \<in> W \<Longrightarrow> sat (same W s0) s \<Longrightarrow> sat (same W s0) (creditEarning c a i t s)"
  using creditEarning_cases [of c a i t s] by (auto intro: mod_intros)

lemma mod_reverseForRefund [mod_intros]:
  "T_creatorBalances \<in> W \<Longrightarrow> T_ledgerEntries \<in> W \<Longrightarrow> sat (same W s0) s \<Longrightarrow> sat (same W s0) (reverseForRefund c r s)"
  using reverseForRefund_cases [of c r s] by (auto intro: mod_intros)

lemma mod_adjustForDispute [mod_intros]:
  "T_creatorBalances \<in> W \<Longrightarrow> T_ledgerEntries \<in> W \<Longrightarrow> sat (same W s0) s \<Longrightarrow> sat (same W s0) (adjustForDispute c d s)"
  using adjustForDispute_cases [of c d s] by (auto intro: mod_intros)

lemma mod_scheduleCancel [mod_intros]:
  "sat (same W s0) s \<Longrightarrow> sat (same W s0) (scheduleCancel c a r s)"
  unfolding scheduleCancel_def by (intro sat_intros mod_intros) simp_all

lemma mod_requestRefund [mod_intros]:
  "T_paymentRefunds \<in> W \<Longrightarrow> sat (same W s0) s \<Longrightarrow> sat (same W s0) (requestRefund c a i r s)"
  unfolding requestRefund_def by (intro sat_intros mod_intros) simp_all

lemma mod_failPendingCall [mod_intros]:
  "T_calls \<in> W \<Longrightarrow> T_queueEntries \<in> W \<Longrightarrow> sat (same W s0) s \<Longrightarrow> sat (same W s0) (failPendingCall c call s)"
  unfolding failPendingCall_def by (intro sat_intros mod_intros) simp_all

lemma mod_markCaptured [mod_intros]:
  "T_paymentAttempts \<in> W \<Longrightarrow> sat (same W s0) s \<Longrightarrow> sat (same W s0) (markCaptured c a s)"
  unfolding markCaptured_def by (intro sat_intros mod_intros) simp_all

lemma mod_recordCaptured [mod_intros]:
  "T_calls \<in> W \<Longrightarrow> T_paymentAttempts \<in> W \<Longrightarrow> T_paymentRefunds \<in> W \<Longrightarrow> T_queueEntries \<in> W \<Longrightarrow> sat (same W s0) s \<Longrightarrow> sat (same W s0) (recordCaptured c a s)"
  unfolding recordCaptured_def by (intro sat_intros mod_intros) simp_all

lemma mod_releaseEntry [mod_intros]:
  "T_queueEntries \<in> W \<Longrightarrow> sat (same W s0) s \<Longrightarrow> sat (same W s0) (releaseEntry c a call s)"
  unfolding releaseEntry_def by (intro sat_intros mod_intros) simp_all

lemma mod_recordNotCaptured [mod_intros]:
  "T_calls \<in> W \<Longrightarrow> T_paymentAttempts \<in> W \<Longrightarrow> T_queueEntries \<in> W \<Longrightarrow> sat (same W s0) s \<Longrightarrow> sat (same W s0) (recordNotCaptured c a st code s)"
  unfolding recordNotCaptured_def by (intro sat_intros mod_intros) simp_all

lemma mod_scheduleExpiry [mod_intros]:
  "sat (same W s0) s \<Longrightarrow> sat (same W s0) (scheduleExpiry c call t s)"
  unfolding scheduleExpiry_def by (intro sat_intros mod_intros) simp_all

lemma mod_creditIfLive [mod_intros]:
  "T_creatorBalances \<in> W \<Longrightarrow> T_ledgerEntries \<in> W \<Longrightarrow> sat (same W s0) s \<Longrightarrow> sat (same W s0) (creditIfLive c call t s)"
  unfolding creditIfLive_def by (intro sat_intros mod_intros) simp_all

lemma mod_refundIfNeverLive [mod_intros]:
  "T_paymentRefunds \<in> W \<Longrightarrow> sat (same W s0) s \<Longrightarrow> sat (same W s0) (refundIfNeverLive c call t s)"
  unfolding refundIfNeverLive_def by (intro sat_intros mod_intros) simp_all

lemma mod_dropPresence [mod_intros]:
  "T_callPresence \<in> W \<Longrightarrow> sat (same W s0) s \<Longrightarrow> sat (same W s0) (dropPresence i s)"
  unfolding dropPresence_def by (intro sat_intros mod_intros) simp_all

lemma mod_cleanUpFinished [mod_intros]:
  "T_callPresence \<in> W \<Longrightarrow> T_paymentRefunds \<in> W \<Longrightarrow> sat (same W s0) s \<Longrightarrow> sat (same W s0) (cleanUpFinished c call t s)"
  unfolding cleanUpFinished_def by (intro sat_intros mod_intros) simp_all

lemma mod_applyTransition [mod_intros]:
  "T_callPresence \<in> W \<Longrightarrow> T_calls \<in> W \<Longrightarrow> T_creatorBalances \<in> W \<Longrightarrow> T_ledgerEntries \<in> W \<Longrightarrow> T_paymentRefunds \<in> W \<Longrightarrow> T_queueEntries \<in> W \<Longrightarrow> sat (same W s0) s \<Longrightarrow> ensures (same W s0) (applyTransition c call t s)"
  unfolding applyTransition_def by (intro sat_intros mod_intros) simp_all

lemma mod_onShowCreated [mod_intros]:
  "T_profiles \<in> W \<Longrightarrow> sat (same W s0) s \<Longrightarrow> sat (same W s0) (onShowCreated c i s)"
  unfolding onShowCreated_def by (intro sat_intros mod_intros) simp_all

lemma mod_onShowScheduled [mod_intros]:
  "T_profiles \<in> W \<Longrightarrow> sat (same W s0) s \<Longrightarrow> sat (same W s0) (onShowScheduled c i t s)"
  unfolding onShowScheduled_def by (intro sat_intros mod_intros) simp_all

lemma mod_queueLiveAlert [mod_intros]:
  "T_profiles \<in> W \<Longrightarrow> sat (same W s0) s \<Longrightarrow> sat (same W s0) (queueLiveAlert c sh s)"
  unfolding queueLiveAlert_def by (intro sat_intros mod_intros) simp_all

lemma mod_onShowEnded [mod_intros]:
  "T_profiles \<in> W \<Longrightarrow> sat (same W s0) s \<Longrightarrow> sat (same W s0) (onShowEnded c sh s)"
  unfolding onShowEnded_def by (intro sat_intros mod_intros) simp_all

lemma mod_onShowLive [mod_intros]:
  "T_liveEvents \<in> W \<Longrightarrow> T_profiles \<in> W \<Longrightarrow> sat (same W s0) s \<Longrightarrow> sat (same W s0) (onShowLive c sh s)"
  unfolding onShowLive_def by (intro sat_intros mod_intros) simp_all

section \<open>Requests\<close>

lemma mod_shows_create [mod_intros]:
  "T_profiles \<in> W \<Longrightarrow> T_showTiers \<in> W \<Longrightarrow> T_shows \<in> W \<Longrightarrow> sat (same W s0) s \<Longrightarrow> ensures (same W s0) (shows_create c s)"
  unfolding shows_create_def by (intro sat_intros mod_intros) simp_all

lemma mod_shows_schedule [mod_intros]:
  "T_profiles \<in> W \<Longrightarrow> T_shows \<in> W \<Longrightarrow> sat (same W s0) s \<Longrightarrow> ensures (same W s0) (shows_schedule c i t s)"
  unfolding shows_schedule_def by (intro sat_intros mod_intros) simp_all

lemma mod_shows_start [mod_intros]:
  "T_liveEvents \<in> W \<Longrightarrow> T_profiles \<in> W \<Longrightarrow> T_shows \<in> W \<Longrightarrow> sat (same W s0) s \<Longrightarrow> ensures (same W s0) (shows_start c i s)"
  unfolding shows_start_def by (intro sat_intros mod_intros) simp_all

lemma mod_endOpenCall [mod_intros]:
  "T_callPresence \<in> W \<Longrightarrow> T_calls \<in> W \<Longrightarrow> T_creatorBalances \<in> W \<Longrightarrow> T_ledgerEntries \<in> W \<Longrightarrow> T_paymentRefunds \<in> W \<Longrightarrow> T_queueEntries \<in> W \<Longrightarrow> sat (same W s0) s \<Longrightarrow> ensuresDb (same W s0) (endOpenCall c i s)"
  unfolding endOpenCall_def by (intro ensures_bind_state(2) sat_intros mod_intros) simp_all

lemma mod_shows_end [mod_intros]:
  "T_callPresence \<in> W \<Longrightarrow> T_calls \<in> W \<Longrightarrow> T_creatorBalances \<in> W \<Longrightarrow> T_ledgerEntries \<in> W \<Longrightarrow> T_paymentRefunds \<in> W \<Longrightarrow> T_profiles \<in> W \<Longrightarrow> T_queueEntries \<in> W \<Longrightarrow> T_shows \<in> W \<Longrightarrow> sat (same W s0) s \<Longrightarrow> ensures (same W s0) (shows_end c i s)"
  unfolding shows_end_def by (intro ensures_bind_state(3) sat_intros mod_intros) simp_all

lemma mod_closeEntry [mod_intros]:
  "T_queueEntries \<in> W \<Longrightarrow> sat (same W s0) s \<Longrightarrow> sat (same W s0) (closeEntry c st e s)"
  unfolding closeEntry_def by (intro sat_intros mod_intros) simp_all

lemma mod_closeStatuses [mod_intros]:
  "T_queueEntries \<in> W \<Longrightarrow> sat (same W s0) s \<Longrightarrow> sat (same W s0) (snd (closeStatuses c i n sts k s))"
proof (induction sts arbitrary: k s)
  case (Cons st sts)
  then show ?case by (auto simp: Let_def intro!: Cons.IH sat_fold mod_closeEntry)
qed simp

lemma mod_closeQueue [mod_intros]:
  "T_queueEntries \<in> W \<Longrightarrow> sat (same W s0) s \<Longrightarrow> sat (same W s0) (closeQueue c i s)"
  using mod_closeStatuses [of W s0 s c i CLOSE_BATCH ACTIVE_ENTRY_STATUSES 0]
  unfolding closeQueue_def closeEntries_def by (intro sat_intros mod_intros) (metis snd_conv)+

lemma mod_insertTier [mod_intros]:
  "T_showTiers \<in> W \<Longrightarrow> sat (same W s0) s \<Longrightarrow> sat (same W s0) (insertTier c r s)"
  unfolding insertTier_def by (intro sat_intros mod_intros) simp_all

lemma mod_deleteTier [mod_intros]:
  "T_showTiers \<in> W \<Longrightarrow> sat (same W s0) s \<Longrightarrow> sat (same W s0) (deleteTier t s)"
  unfolding deleteTier_def by (intro sat_intros mod_intros) simp_all

lemma mod_tiers_replace [mod_intros]:
  "T_showTiers \<in> W \<Longrightarrow> sat (same W s0) s \<Longrightarrow> ensures (same W s0) (tiers_replace c i ts s)"
  unfolding tiers_replace_def by (intro sat_intros mod_intros) simp_all

lemma mod_attachEntry [mod_intros]:
  "T_paymentAttempts \<in> W \<Longrightarrow> sat (same W s0) s \<Longrightarrow> sat (same W s0) (attachEntry a i s)"
  unfolding attachEntry_def by (intro sat_intros mod_intros) simp_all

lemma mod_writeEntry:
  "T_paymentAttempts \<in> W \<Longrightarrow> T_queueEntries \<in> W \<Longrightarrow> sat (same W s0) s \<Longrightarrow> writeEntry c v a t ex p s = (x, s') \<Longrightarrow> sat (same W s0) s'"
  by (auto simp: writeEntry_def Let_def intro!: sat_intros mod_intros split: option.splits)

lemma mod_joinQueue [mod_intros]:
  "T_paymentAttempts \<in> W \<Longrightarrow> T_queueEntries \<in> W \<Longrightarrow> sat (same W s0) s \<Longrightarrow> ensures (same W s0) (joinQueue c v a p s)"
  unfolding joinQueue_def by (intro sat_intros; (assumption | metis mod_writeEntry))

lemma mod_queue_join [mod_intros]:
  "T_paymentAttempts \<in> W \<Longrightarrow> T_queueEntries \<in> W \<Longrightarrow> sat (same W s0) s \<Longrightarrow> ensures (same W s0) (queue_join c a s)"
  unfolding queue_join_def by (intro ensures_bind_state sat_intros mod_intros) simp_all

lemma mod_joinWithPayment [mod_intros]:
  "T_paymentAttempts \<in> W \<Longrightarrow> T_queueEntries \<in> W \<Longrightarrow> sat (same W s0) s \<Longrightarrow> ensures (same W s0) (joinWithPayment c a p s)"
  unfolding joinWithPayment_def by (intro ensures_bind_state sat_intros mod_intros) simp_all

lemma mod_releaseHold [mod_intros]:
  "sat (same W s0) s \<Longrightarrow> sat (same W s0) (releaseHold c e r s)"
  unfolding releaseHold_def by (intro sat_intros mod_intros) simp_all

lemma mod_queue_leave [mod_intros]:
  "T_queueEntries \<in> W \<Longrightarrow> sat (same W s0) s \<Longrightarrow> ensures (same W s0) (queue_leave c i s)"
  unfolding queue_leave_def by (intro sat_intros mod_intros) simp_all

lemma mod_createCall [mod_intros]:
  "T_calls \<in> W \<Longrightarrow> T_paymentAttempts \<in> W \<Longrightarrow> T_queueEntries \<in> W \<Longrightarrow> sat (same W s0) s \<Longrightarrow> ensures (same W s0) (createCall c sh e m s)"
  unfolding createCall_def openCall_def startCapture_def by (intro sat_intros mod_intros) simp_all

lemma mod_calls_select [mod_intros]:
  "T_calls \<in> W \<Longrightarrow> T_paymentAttempts \<in> W \<Longrightarrow> T_queueEntries \<in> W \<Longrightarrow> sat (same W s0) s \<Longrightarrow> ensures (same W s0) (calls_select c i e s)"
  unfolding calls_select_def by (intro sat_intros mod_intros) simp_all

lemma mod_calls_selectRandom [mod_intros]:
  "T_calls \<in> W \<Longrightarrow> T_paymentAttempts \<in> W \<Longrightarrow> T_queueEntries \<in> W \<Longrightarrow> sat (same W s0) s \<Longrightarrow> ensures (same W s0) (calls_selectRandom c i s)"
  unfolding calls_selectRandom_def by (intro sat_intros mod_intros) simp_all

lemma mod_calls_transition [mod_intros]:
  "T_callPresence \<in> W \<Longrightarrow> T_calls \<in> W \<Longrightarrow> T_creatorBalances \<in> W \<Longrightarrow> T_ledgerEntries \<in> W \<Longrightarrow> T_paymentRefunds \<in> W \<Longrightarrow> T_queueEntries \<in> W \<Longrightarrow> sat (same W s0) s \<Longrightarrow> ensures (same W s0) (calls_transition c i st s)"
  unfolding calls_transition_def by (intro ensures_bind_state sat_intros mod_intros) simp_all

lemma mod_calls_expire [mod_intros]:
  "T_callPresence \<in> W \<Longrightarrow> T_calls \<in> W \<Longrightarrow> T_creatorBalances \<in> W \<Longrightarrow> T_ledgerEntries \<in> W \<Longrightarrow> T_paymentRefunds \<in> W \<Longrightarrow> T_queueEntries \<in> W \<Longrightarrow> sat (same W s0) s \<Longrightarrow> ensuresDb (same W s0) (calls_expire c i s)"
  unfolding calls_expire_def by (intro ensures_bind_state sat_intros mod_intros) simp_all

lemma mod_touchPresence [mod_intros]:
  "T_callPresence \<in> W \<Longrightarrow> sat (same W s0) s \<Longrightarrow> sat (same W s0) (touchPresence c i r s)"
  unfolding touchPresence_def by (intro sat_intros mod_intros) simp_all

lemma mod_markDisconnected [mod_intros]:
  "T_callPresence \<in> W \<Longrightarrow> sat (same W s0) s \<Longrightarrow> sat (same W s0) (markDisconnected c j i r s)"
  unfolding markDisconnected_def by (intro sat_intros mod_intros) simp_all

lemma mod_presence_heartbeat [mod_intros]:
  "T_callPresence \<in> W \<Longrightarrow> sat (same W s0) s \<Longrightarrow> ensuresDb (same W s0) (presence_heartbeat c i s)"
  unfolding presence_heartbeat_def by (intro sat_intros mod_intros) simp_all

lemma mod_presence_leave [mod_intros]:
  "T_callPresence \<in> W \<Longrightarrow> sat (same W s0) s \<Longrightarrow> ensuresDb (same W s0) (presence_leave c i s)"
  unfolding presence_leave_def by (intro sat_intros mod_intros) simp_all

lemma mod_presence_checkSeen [mod_intros]:
  "T_callPresence \<in> W \<Longrightarrow> sat (same W s0) s \<Longrightarrow> sat (same W s0) (presence_checkSeen c i r t s)"
  unfolding presence_checkSeen_def by (intro sat_intros mod_intros) simp_all

lemma mod_presence_checkGrace [mod_intros]:
  "T_callPresence \<in> W \<Longrightarrow> T_calls \<in> W \<Longrightarrow> T_creatorBalances \<in> W \<Longrightarrow> T_ledgerEntries \<in> W \<Longrightarrow> T_paymentRefunds \<in> W \<Longrightarrow> T_queueEntries \<in> W \<Longrightarrow> sat (same W s0) s \<Longrightarrow> ensuresDb (same W s0) (presence_checkGrace c i r t s)"
  unfolding presence_checkGrace_def by (intro ensures_bind_state sat_intros mod_intros) simp_all

lemma mod_insertSignal [mod_intros]:
  "T_callSignals \<in> W \<Longrightarrow> sat (same W s0) s \<Longrightarrow> sat (same W s0) (insertSignal c i r ty p s)"
  unfolding insertSignal_def by (intro sat_intros mod_intros) simp_all

lemma mod_sendEach [mod_intros]:
  "T_callSignals \<in> W \<Longrightarrow> sat (same W s0) s \<Longrightarrow> ensuresDb (same W s0) (sendEach js c i r gs p s)"
proof (induction gs arbitrary: p s)
  case Nil
  then show ?case by (simp add: sat_intros)
next
  case (Cons g gs)
  obtain ty payload where g: "g = (ty, payload)" by (cases g)
  have ins: "sat (same W s0) (insertSignal c i (other r) ty' payload s)" for ty'
    using Cons.prems by (rule mod_insertSignal)
  show ?case
    unfolding g sendEach.simps Let_def
    using Cons.IH [OF Cons.prems(1) ins] Cons.IH [OF Cons.prems] by (simp add: ensuresDb_control(1))
qed

lemma mod_signals_send [mod_intros]:
  "T_callSignals \<in> W \<Longrightarrow> sat (same W s0) s \<Longrightarrow> ensuresDb (same W s0) (signals_send js c i gs s)"
  unfolding signals_send_def by (intro sat_intros mod_intros) simp_all

lemma mod_ackOne [mod_intros]:
  "T_callSignals \<in> W \<Longrightarrow> sat (same W s0) s \<Longrightarrow> sat (same W s0) (ackOne i r j s)"
  unfolding ackOne_def by (intro sat_intros mod_intros) simp_all

lemma mod_signals_ack [mod_intros]:
  "T_callSignals \<in> W \<Longrightarrow> sat (same W s0) s \<Longrightarrow> ensuresDb (same W s0) (signals_ack c i ids s)"
  unfolding signals_ack_def by (intro sat_intros mod_intros) simp_all

lemma mod_signals_purge [mod_intros]:
  "T_callSignals \<in> W \<Longrightarrow> sat (same W s0) s \<Longrightarrow> sat (same W s0) (signals_purge c i s)"
  unfolding signals_purge_def by (intro sat_intros mod_intros) simp_all

lemma mod_prepare [mod_intros]:
  "T_paymentAttempts \<in> W \<Longrightarrow> sat (same W s0) s \<Longrightarrow> ensures (same W s0) (prepare c i t k cu s)"
  unfolding prepare_def by (intro sat_intros mod_intros) simp_all

lemma mod_attachIntent [mod_intros]:
  "T_paymentAttempts \<in> W \<Longrightarrow> sat (same W s0) s \<Longrightarrow> ensures (same W s0) (attachIntent i p s)"
  unfolding attachIntent_def by (intro sat_intros mod_intros) simp_all

lemma mod_markAuthorized [mod_intros]:
  "T_paymentAttempts \<in> W \<Longrightarrow> sat (same W s0) s \<Longrightarrow> sat (same W s0) (markAuthorized c i s)"
  unfolding markAuthorized_def by (intro sat_intros mod_intros) simp_all

lemma mod_payments_captured [mod_intros]:
  "T_calls \<in> W \<Longrightarrow> T_paymentAttempts \<in> W \<Longrightarrow> T_paymentRefunds \<in> W \<Longrightarrow> T_queueEntries \<in> W \<Longrightarrow> sat (same W s0) s \<Longrightarrow> sat (same W s0) (payments_captured c i s)"
  unfolding payments_captured_def by (intro sat_intros mod_intros) simp_all

lemma mod_payments_notCaptured [mod_intros]:
  "T_calls \<in> W \<Longrightarrow> T_paymentAttempts \<in> W \<Longrightarrow> T_queueEntries \<in> W \<Longrightarrow> sat (same W s0) s \<Longrightarrow> sat (same W s0) (payments_notCaptured c i st code s)"
  unfolding payments_notCaptured_def by (intro sat_intros mod_intros) simp_all

lemma mod_refunds_claim [mod_intros]:
  "T_paymentRefunds \<in> W \<Longrightarrow> sat (same W s0) s \<Longrightarrow> sat (same W s0) (snd (refunds_claim c i s))"
  by (auto simp: refunds_claim_def Let_def intro!: mod_intros split: option.split)

lemma mod_refunds_record [mod_intros]:
  "T_creatorBalances \<in> W \<Longrightarrow> T_ledgerEntries \<in> W \<Longrightarrow> T_paymentRefunds \<in> W \<Longrightarrow> sat (same W s0) s \<Longrightarrow> sat (same W s0) (refunds_record c i r st code s)"
  unfolding refunds_record_def by (intro sat_intros mod_intros) simp_all

lemma mod_refunds_retry [mod_intros]:
  "T_paymentRefunds \<in> W \<Longrightarrow> sat (same W s0) s \<Longrightarrow> sat (same W s0) (refunds_retry c i fc s)"
  unfolding refunds_retry_def by (intro sat_intros mod_intros) simp_all

lemma mod_refundRow:
  "T_paymentRefunds \<in> W \<Longrightarrow> sat (same W s0) s \<Longrightarrow> refundRow c r s = (x, s') \<Longrightarrow> sat (same W s0) s'"
  by (auto simp: refundRow_def Let_def intro!: mod_intros split: option.splits)

lemma mod_saveDispute:
  "T_paymentDisputes \<in> W \<Longrightarrow> sat (same W s0) s \<Longrightarrow> saveDispute c d s = (x, s') \<Longrightarrow> sat (same W s0) s'"
  by (auto simp: saveDispute_def Let_def intro!: mod_intros split: option.splits)

lemma mod_recordEvent [mod_intros]:
  "T_stripeEvents \<in> W \<Longrightarrow> sat (same W s0) s \<Longrightarrow> sat (same W s0) (recordEvent c a s)"
  unfolding recordEvent_def by (intro sat_intros mod_intros) simp_all

lemma mod_applyIntent [mod_intros]:
  "T_calls \<in> W \<Longrightarrow> T_paymentAttempts \<in> W \<Longrightarrow> T_paymentRefunds \<in> W \<Longrightarrow> T_queueEntries \<in> W \<Longrightarrow> sat (same W s0) s \<Longrightarrow> sat (same W s0) (applyIntent c ty ia s)"
  unfolding applyIntent_def by (intro sat_intros mod_intros) simp_all

lemma mod_settleRefund [mod_intros]:
  "T_creatorBalances \<in> W \<Longrightarrow> T_ledgerEntries \<in> W \<Longrightarrow> T_paymentRefunds \<in> W \<Longrightarrow> sat (same W s0) s \<Longrightarrow> sat (same W s0) (settleRefund c ra rf s)"
  unfolding settleRefund_def by (intro sat_intros mod_intros) simp_all

lemma mod_applyPayout [mod_intros]:
  "T_payoutEvents \<in> W \<Longrightarrow> sat (same W s0) s \<Longrightarrow> sat (same W s0) (applyPayout c sa p s)"
  unfolding applyPayout_def by (intro sat_intros mod_intros) simp_all

lemma mod_applyRefund [mod_intros]:
  "T_creatorBalances \<in> W \<Longrightarrow> T_ledgerEntries \<in> W \<Longrightarrow> T_paymentRefunds \<in> W \<Longrightarrow> sat (same W s0) s \<Longrightarrow> sat (same W s0) (applyRefund c r s)"
  unfolding applyRefund_def by (intro sat_intros mod_intros; simp; metis mod_refundRow)

lemma mod_applyDispute [mod_intros]:
  "T_creatorBalances \<in> W \<Longrightarrow> T_ledgerEntries \<in> W \<Longrightarrow> T_paymentDisputes \<in> W \<Longrightarrow> sat (same W s0) s \<Longrightarrow> sat (same W s0) (applyDispute c d s)"
  unfolding applyDispute_def by (intro sat_intros mod_intros; simp; metis mod_saveDispute)

lemma mod_webhooks_apply [mod_intros]:
  "T_calls \<in> W \<Longrightarrow> T_creatorBalances \<in> W \<Longrightarrow> T_ledgerEntries \<in> W \<Longrightarrow> T_paymentAttempts \<in> W \<Longrightarrow> T_paymentDisputes \<in> W \<Longrightarrow> T_paymentRefunds \<in> W \<Longrightarrow> T_payoutEvents \<in> W \<Longrightarrow> T_queueEntries \<in> W \<Longrightarrow> T_stripeEvents \<in> W \<Longrightarrow> sat (same W s0) s \<Longrightarrow> sat (same W s0) (webhooks_apply c a s)"
  unfolding webhooks_apply_def applyEvent_def by (intro sat_intros mod_intros) simp_all

lemma mod_saveProfile [mod_intros]:
  "T_paymentProfiles \<in> W \<Longrightarrow> sat (same W s0) s \<Longrightarrow> sat (same W s0) (snd (saveProfile c i cu s))"
  by (auto simp: saveProfile_def Let_def intro!: mod_intros split: option.split)

lemma mod_saveAccount [mod_intros]:
  "T_payoutAccounts \<in> W \<Longrightarrow> sat (same W s0) s \<Longrightarrow> sat (same W s0) (saveAccount c i a s)"
  unfolding saveAccount_def by (intro sat_intros mod_intros) simp_all

lemma mod_openRun:
  "T_payoutRuns \<in> W \<Longrightarrow> sat (same W s0) s \<Longrightarrow> openRun c p cur s = (x, s') \<Longrightarrow> sat (same W s0) s'"
  by (auto simp: openRun_def Let_def intro!: mod_intros split: option.splits)

lemma mod_runDue [mod_intros]:
  "T_payoutRuns \<in> W \<Longrightarrow> sat (same W s0) s \<Longrightarrow> sat (same W s0) (runDue c s)"
  unfolding runDue_def by (intro sat_intros mod_intros; simp; metis mod_openRun)

lemma mod_reserveItem [mod_intros]:
  "T_creatorBalances \<in> W \<Longrightarrow> T_ledgerEntries \<in> W \<Longrightarrow> T_payoutItems \<in> W \<Longrightarrow> T_payoutRuns \<in> W \<Longrightarrow> sat (same W s0) s \<Longrightarrow> sat (same W s0) (reserveItem c r a n s)"
  unfolding reserveItem_def by (intro sat_intros mod_intros) simp_all

lemma mod_reserveFor [mod_intros]:
  "T_creatorBalances \<in> W \<Longrightarrow> T_ledgerEntries \<in> W \<Longrightarrow> T_payoutItems \<in> W \<Longrightarrow> T_payoutRuns \<in> W \<Longrightarrow> sat (same W s0) s \<Longrightarrow> sat (same W s0) (reserveFor c r a s)"
  unfolding reserveFor_def by (intro sat_intros mod_intros) simp_all

lemma mod_reserveBatch [mod_intros]:
  "T_creatorBalances \<in> W \<Longrightarrow> T_ledgerEntries \<in> W \<Longrightarrow> T_payoutItems \<in> W \<Longrightarrow> T_payoutRuns \<in> W \<Longrightarrow> sat (same W s0) s \<Longrightarrow> sat (same W s0) (reserveBatch c i n s)"
  unfolding reserveBatch_def by (intro sat_intros mod_intros) simp_all

lemma mod_claimTransfer [mod_intros]:
  "T_payoutItems \<in> W \<Longrightarrow> sat (same W s0) s \<Longrightarrow> sat (same W s0) (snd (claimTransfer c i s))"
  by (auto simp: claimTransfer_def Let_def intro!: mod_intros split: option.split)

lemma mod_markPaid [mod_intros]:
  "T_payoutItems \<in> W \<Longrightarrow> sat (same W s0) s \<Longrightarrow> sat (same W s0) (markPaid c i t s)"
  unfolding markPaid_def by (intro sat_intros mod_intros) simp_all

lemma mod_retryTransfer [mod_intros]:
  "T_payoutItems \<in> W \<Longrightarrow> sat (same W s0) s \<Longrightarrow> sat (same W s0) (retryTransfer c i code s)"
  unfolding retryTransfer_def by (intro sat_intros mod_intros) simp_all

lemma mod_finishRun [mod_intros]:
  "T_payoutRuns \<in> W \<Longrightarrow> sat (same W s0) s \<Longrightarrow> sat (same W s0) (finishRun c r s)"
  unfolding finishRun_def by (intro sat_intros mod_intros) simp_all

lemma mod_finishRuns [mod_intros]:
  "T_payoutRuns \<in> W \<Longrightarrow> sat (same W s0) s \<Longrightarrow> sat (same W s0) (finishRuns c s)"
  unfolding finishRuns_def by (intro sat_intros mod_intros) simp_all

lemma mod_insertUser [mod_intros]:
  "T_users \<in> W \<Longrightarrow> sat (same W s0) s \<Longrightarrow> sat (same W s0) (insertUser c u s)"
  unfolding insertUser_def by (intro sat_intros mod_intros) simp_all

lemma mod_createProfile [mod_intros]:
  "T_profiles \<in> W \<Longrightarrow> sat (same W s0) s \<Longrightarrow> sat (same W s0) (createProfile c i u s)"
  unfolding createProfile_def by (intro sat_intros mod_intros) simp_all

lemma mod_createOrUpdateUser [mod_intros]:
  "T_profiles \<in> W \<Longrightarrow> T_users \<in> W \<Longrightarrow> sat (same W s0) s \<Longrightarrow> ensures (same W s0) (createOrUpdateUser c i u s)"
  by (auto simp: createOrUpdateUser_def intro!: sat_intros mod_intros split: option.split list.split)

lemma mod_callerNotes_save [mod_intros]:
  "T_callerNotes \<in> W \<Longrightarrow> sat (same W s0) s \<Longrightarrow> ensures (same W s0) (callerNotes_save c i n s)"
  unfolding callerNotes_save_def writeNote_def by (intro sat_intros mod_intros) simp_all

lemma mod_rateLimit [mod_intros]:
  "T_rateLimits \<in> W \<Longrightarrow> sat (same W s0) s \<Longrightarrow> ensuresDb (same W s0) (rateLimit c k n w s)"
  by (auto simp: rateLimit_def Let_def intro!: sat_intros mod_intros split: option.splits)

lemma mod_decShard [mod_intros]:
  "T_followerShards \<in> W \<Longrightarrow> sat (same W s0) s \<Longrightarrow> sat (same W s0) (decShard i n offs s)"
  by (induction offs) (auto simp: patchShard_def intro!: mod_intros split: option.split)

lemma mod_adjustShard [mod_intros]:
  "T_followerProjections \<in> W \<Longrightarrow> T_followerShards \<in> W \<Longrightarrow> sat (same W s0) s \<Longrightarrow> sat (same W s0) (adjustShard c i up s)"
  unfolding adjustShard_def scheduleProjection_def incShard_def patchShard_def by (intro sat_intros mod_intros) simp_all

lemma mod_setCount [mod_intros]:
  "T_followingCounts \<in> W \<Longrightarrow> sat (same W s0) s \<Longrightarrow> sat (same W s0) (setCount c u r n s)"
  unfolding setCount_def by (intro sat_intros mod_intros) simp_all

lemma mod_writeFollow [mod_intros]:
  "T_follows \<in> W \<Longrightarrow> sat (same W s0) s \<Longrightarrow> sat (same W s0) (writeFollow c u i e s)"
  unfolding writeFollow_def by (intro sat_intros mod_intros) simp_all

lemma mod_applyFollow [mod_intros]:
  "T_followerProjections \<in> W \<Longrightarrow> T_followerShards \<in> W \<Longrightarrow> T_followingCounts \<in> W \<Longrightarrow> T_follows \<in> W \<Longrightarrow> sat (same W s0) s \<Longrightarrow> ensuresDb (same W s0) (applyFollow c u i e f s)"
  by (auto simp: applyFollow_def Let_def intro!: sat_intros mod_intros split: option.splits)

lemma mod_setFollow [mod_intros]:
  "T_followerProjections \<in> W \<Longrightarrow> T_followerShards \<in> W \<Longrightarrow> T_followingCounts \<in> W \<Longrightarrow> T_follows \<in> W \<Longrightarrow> T_rateLimits \<in> W \<Longrightarrow> sat (same W s0) s \<Longrightarrow> ensures (same W s0) (setFollow c u f s)"
  unfolding setFollow_def by (intro ensures_bind_state(3) sat_intros mod_intros) simp_all

lemma mod_follows_project [mod_intros]:
  "T_followerProjections \<in> W \<Longrightarrow> T_profiles \<in> W \<Longrightarrow> sat (same W s0) s \<Longrightarrow> sat (same W s0) (follows_project i s)"
  unfolding follows_project_def by (intro sat_intros mod_intros) simp_all

lemma mod_profiles_save [mod_intros]:
  "T_profiles \<in> W \<Longrightarrow> T_rateLimits \<in> W \<Longrightarrow> sat (same W s0) s \<Longrightarrow> ensures (same W s0) (profiles_save pu gu c a s)"
  unfolding profiles_save_def by (intro ensures_bind_state(3) sat_intros mod_intros) simp_all

lemma mod_avatarUploadUrl [mod_intros]:
  "T_rateLimits \<in> W \<Longrightarrow> sat (same W s0) s \<Longrightarrow> ensures (same W s0) (avatarUploadUrl c s)"
  unfolding avatarUploadUrl_def by (intro ensures_bind_state(3) sat_intros mod_intros) simp_all

lemma mod_attachAvatar [mod_intros]:
  "T_profiles \<in> W \<Longrightarrow> sat (same W s0) s \<Longrightarrow> ensures (same W s0) (attachAvatar gu c i s)"
  unfolding attachAvatar_def by (intro sat_intros mod_intros) simp_all

lemma mod_markOne [mod_intros]:
  "T_notificationReads \<in> W \<Longrightarrow> sat (same W s0) s \<Longrightarrow> sat (same W s0) (markOne c u i s)"
  unfolding markOne_def by (intro sat_intros mod_intros) simp_all

lemma mod_markRead [mod_intros]:
  "T_notificationReads \<in> W \<Longrightarrow> T_rateLimits \<in> W \<Longrightarrow> sat (same W s0) s \<Longrightarrow> ensuresDb (same W s0) (markRead c ids s)"
  unfolding markRead_def by (intro ensures_bind_state(4) sat_intros mod_intros) simp_all

lemma mod_pruneEvents [mod_intros]:
  "T_liveEvents \<in> W \<Longrightarrow> T_notificationReads \<in> W \<Longrightarrow> sat (same W s0) s \<Longrightarrow> sat (same W s0) (snd (pruneEvents es n s))"
  by (induction es n s rule: pruneEvents.induct) (auto simp: Let_def intro!: sat_intros mod_intros)

lemma mod_notifications_prune [mod_intros]:
  "T_liveEvents \<in> W \<Longrightarrow> T_notificationReads \<in> W \<Longrightarrow> sat (same W s0) s \<Longrightarrow> sat (same W s0) (notifications_prune c s)"
  unfolding notifications_prune_def by (intro sat_intros mod_intros; simp; metis mod_pruneEvents snd_conv)

lemma mod_touchVisit [mod_intros]:
  "T_channelVisits \<in> W \<Longrightarrow> sat (same W s0) s \<Longrightarrow> sat (same W s0) (touchVisit c i v s)"
  unfolding touchVisit_def by (intro sat_intros mod_intros) simp_all

lemma mod_startCounting [mod_intros]:
  "T_channelStats \<in> W \<Longrightarrow> sat (same W s0) s \<Longrightarrow> sat (same W s0) (startCounting c i s)"
  unfolding startCounting_def by (intro sat_intros mod_intros) simp_all

lemma mod_storeStats [mod_intros]:
  "T_channelStats \<in> W \<Longrightarrow> sat (same W s0) s \<Longrightarrow> sat (same W s0) (storeStats c i n l b s)"
  unfolding storeStats_def by (intro sat_intros mod_intros) simp_all

lemma mod_channels_heartbeat [mod_intros]:
  "T_channelStats \<in> W \<Longrightarrow> T_channelVisits \<in> W \<Longrightarrow> sat (same W s0) s \<Longrightarrow> ensures (same W s0) (channels_heartbeat c u s)"
  unfolding channels_heartbeat_def by (intro sat_intros mod_intros) simp_all

lemma mod_storeCount [mod_intros]:
  "T_channelStats \<in> W \<Longrightarrow> T_channelVisits \<in> W \<Longrightarrow> sat (same W s0) s \<Longrightarrow> sat (same W s0) (storeCount c i n t s)"
  unfolding storeCount_def by (intro sat_intros mod_intros) simp_all

lemma mod_savePreference [mod_intros]:
  "T_emailPreferences \<in> W \<Longrightarrow> sat (same W s0) s \<Longrightarrow> sat (same W s0) (savePreference c u b s)"
  unfolding savePreference_def by (intro sat_intros mod_intros) simp_all

lemma mod_liveAlerts_collect [mod_intros]:
  "sat (same W s0) s \<Longrightarrow> sat (same W s0) (liveAlerts_collect c i n b s)"
  unfolding liveAlerts_collect_def by (intro sat_intros mod_intros) simp_all

lemma mod_setLiveAlerts [mod_intros]:
  "T_emailPreferences \<in> W \<Longrightarrow> sat (same W s0) s \<Longrightarrow> ensuresDb (same W s0) (setLiveAlerts c e s)"
  unfolding setLiveAlerts_def by (intro sat_intros mod_intros) simp_all

lemma mod_alerts_unsubscribe [mod_intros]:
  "T_emailPreferences \<in> W \<Longrightarrow> sat (same W s0) s \<Longrightarrow> sat (same W s0) (alerts_unsubscribe c u s)"
  unfolding alerts_unsubscribe_def by (intro sat_intros mod_intros) simp_all

lemma mod_allowSend [mod_intros]:
  "T_rateLimits \<in> W \<Longrightarrow> sat (same W s0) s \<Longrightarrow> ensuresDb (same W s0) (allowSend c m s)"
  unfolding allowSend_def by (intro sat_intros mod_intros) simp_all

section \<open>Requests and what they write\<close>

primrec writes_stage :: "stage_request \<Rightarrow> table_name set" where
  "writes_stage CreateShow = {T_profiles, T_showTiers, T_shows}"
| "writes_stage (ScheduleShow _ _) = {T_profiles, T_shows}"
| "writes_stage (StartShow _) = {T_liveEvents, T_profiles, T_shows}"
| "writes_stage (EndShow _) = {T_callPresence, T_calls, T_creatorBalances, T_ledgerEntries, T_paymentRefunds, T_profiles, T_queueEntries, T_shows}"
| "writes_stage (CloseQueue _) = {T_queueEntries}"
| "writes_stage (ReplaceTiers _ _) = {T_showTiers}"
| "writes_stage (JoinQueue _) = {T_paymentAttempts, T_queueEntries}"
| "writes_stage (JoinWithPayment _ _) = {T_paymentAttempts, T_queueEntries}"
| "writes_stage (LeaveQueue _) = {T_queueEntries}"
| "writes_stage (SelectCaller _ _) = {T_calls, T_paymentAttempts, T_queueEntries}"
| "writes_stage (SelectRandom _) = {T_calls, T_paymentAttempts, T_queueEntries}"
| "writes_stage (TransitionCall _ _) = {T_callPresence, T_calls, T_creatorBalances, T_ledgerEntries, T_paymentRefunds, T_queueEntries}"
| "writes_stage (ExpireCall _) = {T_callPresence, T_calls, T_creatorBalances, T_ledgerEntries, T_paymentRefunds, T_queueEntries}"
| "writes_stage (CallHeartbeat _) = {T_callPresence}"
| "writes_stage (LeaveCall _) = {T_callPresence}"
| "writes_stage (CheckSeen _ _ _) = {T_callPresence}"
| "writes_stage (CheckGrace _ _ _) = {T_callPresence, T_calls, T_creatorBalances, T_ledgerEntries, T_paymentRefunds, T_queueEntries}"
| "writes_stage (SendSignals _ _) = {T_callSignals}"
| "writes_stage (AckSignals _ _) = {T_callSignals}"
| "writes_stage (PurgeSignals _) = {T_callSignals}"

primrec writes_money :: "money_request \<Rightarrow> table_name set" where
  "writes_money (PreparePayment _ _ _ _) = {T_paymentAttempts}"
| "writes_money (AttachIntent _ _) = {T_paymentAttempts}"
| "writes_money (MarkAuthorized _) = {T_paymentAttempts}"
| "writes_money (CapturedPayment _) = {T_calls, T_paymentAttempts, T_paymentRefunds, T_queueEntries}"
| "writes_money (NotCapturedPayment _ _ _) = {T_calls, T_paymentAttempts, T_queueEntries}"
| "writes_money (ClaimRefund _) = {T_paymentRefunds}"
| "writes_money (RecordRefund _ _ _ _) = {T_creatorBalances, T_ledgerEntries, T_paymentRefunds}"
| "writes_money (RetryRefund _ _) = {T_paymentRefunds}"
| "writes_money (StripeEvent _) = {T_calls, T_creatorBalances, T_ledgerEntries, T_paymentAttempts, T_paymentDisputes, T_paymentRefunds, T_payoutEvents, T_queueEntries, T_stripeEvents}"
| "writes_money (SaveCustomer _ _) = {T_paymentProfiles}"
| "writes_money (SaveAccount _ _) = {T_payoutAccounts}"
| "writes_money RunDue = {T_payoutRuns}"
| "writes_money (ReserveBatch _ _) = {T_creatorBalances, T_ledgerEntries, T_payoutItems, T_payoutRuns}"
| "writes_money (ClaimTransfer _) = {T_payoutItems}"
| "writes_money (MarkPaid _ _) = {T_payoutItems}"
| "writes_money (RetryTransfer _ _) = {T_payoutItems}"
| "writes_money FinishRuns = {T_payoutRuns}"

primrec writes_social :: "social_request \<Rightarrow> table_name set" where
  "writes_social (CreateUser _ _) = {T_profiles, T_users}"
| "writes_social (SaveNote _ _) = {T_callerNotes}"
| "writes_social (SetFollow _ _) = {T_followerProjections, T_followerShards, T_followingCounts, T_follows, T_rateLimits}"
| "writes_social (ProjectFollowers _) = {T_followerProjections, T_profiles}"
| "writes_social (SaveCreatorProfile _) = {T_profiles, T_rateLimits}"
| "writes_social AvatarUploadUrl = {T_rateLimits}"
| "writes_social (AttachAvatar _) = {T_profiles}"
| "writes_social (MarkRead _) = {T_notificationReads, T_rateLimits}"
| "writes_social PruneNotifications = {T_liveEvents, T_notificationReads}"
| "writes_social (ChannelHeartbeat _) = {T_channelStats, T_channelVisits}"
| "writes_social (StoreCount _ _ _) = {T_channelStats, T_channelVisits}"
| "writes_social (CollectAlerts _ _ _) = {}"
| "writes_social (SetLiveAlerts _) = {T_emailPreferences}"
| "writes_social (Unsubscribe _) = {T_emailPreferences}"
| "writes_social (AllowSend _) = {T_rateLimits}"
| "writes_social (ScheduleJob _ _) = {}"

primrec writes :: "request \<Rightarrow> table_name set" where
  "writes (Stage r) = writes_stage r"
| "writes (Money r) = writes_money r"
| "writes (Social r) = writes_social r"

lemma exec_stage_same: "same (writes_stage r) s (exec_stage h c r s)"
proof -
  have "sat (same (writes_stage r) s) (exec_stage h c r s)"
    by (cases r; simp split del: if_split; intro sat_intros mod_intros; simp add: sat_def)
  then show ?thesis by (simp add: sat_def)
qed

lemma exec_money_same: "same (writes_money r) s (exec_money h c r s)"
proof -
  have "sat (same (writes_money r) s) (exec_money h c r s)"
    by (cases r; simp split del: if_split; intro sat_intros mod_intros; simp add: sat_def)
  then show ?thesis by (simp add: sat_def)
qed

lemma exec_social_same: "same (writes_social r) s (exec_social h c r s)"
proof -
  have "sat (same (writes_social r) s) (exec_social h c r s)"
    by (cases r; simp split del: if_split; intro sat_intros mod_intros; simp add: sat_def)
  then show ?thesis by (simp add: sat_def)
qed

lemma exec_same: "same (writes r) s (exec h c r s)"
  by (cases r) (simp_all add: exec_stage_same exec_money_same exec_social_same)

end
