(* ===== verification/Stage_Safety.thy ===== *)
theory Stage_Safety
  imports Footprint
begin

text \<open>
  Shows, calls and payments together.  \<open>calls_ok\<close> relates every call to its show and to its
  payment attempt: a call that can carry media belongs to a live show and, when it was paid for, to a
  captured payment; a pending call waits for a capture in progress; a show has at most one call in
  progress and a payment at most one call.  It is shown for each way the code writes calls, then for
  every request.
\<close>

section \<open>The invariant\<close>

definition connectable :: "call_doc \<Rightarrow> bool" where
  "connectable c \<longleftrightarrow> c_status c \<in> set CONNECTABLE_STATUSES"

definition in_progress :: "call_doc \<Rightarrow> bool" where
  "in_progress c \<longleftrightarrow> c_status c \<in> set ACTIVE_CALL_STATUSES"

definition attempt_status :: "db \<Rightarrow> id \<Rightarrow> payment_status option" where
  "attempt_status s a = map_option pa_status (db_get (paymentAttempts s) a)"

definition paid_ok :: "(id \<Rightarrow> payment_status option) \<Rightarrow> call_doc \<Rightarrow> bool" where
  "paid_ok A c = (case c_paymentAttemptId c of
     None \<Rightarrow> c_status c \<noteq> Call_PAYMENT_PENDING
   | Some a \<Rightarrow> A a \<noteq> None \<and> A a \<noteq> Some Pay_CREATED \<and> A a \<noteq> Some Pay_AUTHORIZED \<and>
       (c_status c = Call_PAYMENT_PENDING \<longrightarrow> A a = Some Pay_CAPTURING) \<and>
       (connectable c \<or> c_startedAt c \<noteq> None \<longrightarrow> A a = Some Pay_CAPTURED))"

definition times_ok :: "call_doc \<Rightarrow> bool" where
  "times_ok c \<longleftrightarrow>
     (c_status c \<in> {Call_PAYMENT_PENDING, Call_CREATED, Call_CONNECTING} \<longrightarrow> c_startedAt c = None) \<and>
     (c_status c = Call_LIVE \<longrightarrow> (\<exists>t. c_startedAt c = Some t
        \<and> c_expiresAt c = Some (t + c_callDurationSeconds c * 1000)))"

definition call_ok :: "(id \<Rightarrow> bool) \<Rightarrow> (id \<Rightarrow> payment_status option) \<Rightarrow> call_doc \<Rightarrow> bool" where
  "call_ok L A c \<longleftrightarrow> (connectable c \<longrightarrow> L (c_showId c)) \<and> paid_ok A c \<and> times_ok c"

definition calls_ok :: "(id \<Rightarrow> bool) \<Rightarrow> (id \<Rightarrow> payment_status option) \<Rightarrow> call_doc list \<Rightarrow> bool" where
  "calls_ok L A cs \<longleftrightarrow> (\<forall>c\<in>set cs. call_ok L A c) \<and>
     (\<forall>x\<in>set cs. \<forall>y\<in>set cs. in_progress x \<and> in_progress y \<and> c_showId x = c_showId y \<longrightarrow> x = y) \<and>
     (\<forall>x\<in>set cs. \<forall>y\<in>set cs. \<forall>a. c_paymentAttemptId x = Some a \<longrightarrow> c_paymentAttemptId y = Some a \<longrightarrow> x = y)"

definition stage_ok :: "db \<Rightarrow> bool" where
  "stage_ok s \<longleftrightarrow> calls_ok (showIsLive s) (attempt_status s) (calls s)"

lemmas status_defs = connectable_def in_progress_def CONNECTABLE_STATUSES_def ACTIVE_CALL_STATUSES_def

section \<open>How writes move it\<close>

lemma calls_okD:
  assumes "calls_ok L A cs"
  shows "c \<in> set cs \<Longrightarrow> call_ok L A c"
    and "x \<in> set cs \<Longrightarrow> y \<in> set cs \<Longrightarrow> in_progress x \<Longrightarrow> in_progress y \<Longrightarrow> c_showId x = c_showId y \<Longrightarrow> x = y"
    and "x \<in> set cs \<Longrightarrow> y \<in> set cs \<Longrightarrow> c_paymentAttemptId x = Some a \<Longrightarrow> c_paymentAttemptId y = Some a \<Longrightarrow> x = y"
  using assms by (simp_all add: calls_ok_def)

lemma calls_okI:
  assumes "\<And>c. c \<in> set cs \<Longrightarrow> call_ok L A c"
    and "\<And>x y. x \<in> set cs \<Longrightarrow> y \<in> set cs \<Longrightarrow> in_progress x \<Longrightarrow> in_progress y \<Longrightarrow> c_showId x = c_showId y \<Longrightarrow> x = y"
    and "\<And>x y a. x \<in> set cs \<Longrightarrow> y \<in> set cs \<Longrightarrow> c_paymentAttemptId x = Some a \<Longrightarrow> c_paymentAttemptId y = Some a \<Longrightarrow> x = y"
  shows "calls_ok L A cs"
  using assms by (simp add: calls_ok_def)

lemma calls_ok_same:
  assumes "calls_ok L A cs" "\<And>c. c \<in> set cs \<Longrightarrow> call_ok L A c \<Longrightarrow> call_ok L' A' c"
  shows "calls_ok L' A' cs"
  using assms calls_okD [OF assms(1)] by (intro calls_okI) blast+

lemma calls_ok_patch:
  assumes ok: "calls_ok L A cs" and wf: "wf_table n cs" and c: "db_get cs i = Some c"
    and others: "\<And>x. x \<in> set cs \<Longrightarrow> x \<noteq> c \<Longrightarrow> call_ok L A x \<Longrightarrow> call_ok L' A' x"
    and patched: "call_ok L' A' (f c)"
    and keeps: "c_showId (f c) = c_showId c" "c_paymentAttemptId (f c) = c_paymentAttemptId c"
    and mono: "in_progress (f c) \<Longrightarrow> in_progress c"
  shows "calls_ok L' A' (db_patch cs i f)"
proof -
  have mem: "c \<in> set cs" "did c = i" using c by (auto dest: db_get_SomeD)
  have uniq: "x = c" if "x \<in> set cs" "did x = i" for x
    using wf_table_inj [OF wf that(1) mem(1)] that mem by simp
  have new: "x = f c \<or> (x \<in> set cs \<and> x \<noteq> c)" if "x \<in> set (db_patch cs i f)" for x
    using in_db_patchE [OF that] uniq mem by metis
  show ?thesis
  proof (rule calls_okI)
    fix x assume "x \<in> set (db_patch cs i f)"
    then show "call_ok L' A' x" using new [of x] patched others calls_okD(1) [OF ok] by blast
  next
    fix x y
    assume "x \<in> set (db_patch cs i f)" "y \<in> set (db_patch cs i f)"
      "in_progress x" "in_progress y" "c_showId x = c_showId y"
    then show "x = y"
      using new [of x] new [of y] calls_okD(2) [OF ok] mono keeps(1) mem(1) by metis
  next
    fix x y a
    assume "x \<in> set (db_patch cs i f)" "y \<in> set (db_patch cs i f)"
      "c_paymentAttemptId x = Some a" "c_paymentAttemptId y = Some a"
    then show "x = y"
      using new [of x] new [of y] calls_okD(3) [OF ok] keeps(2) mem(1) by metis
  qed
qed

lemma calls_ok_insert:
  assumes ok: "calls_ok L A cs"
    and others: "\<And>x. x \<in> set cs \<Longrightarrow> call_ok L A x \<Longrightarrow> call_ok L A' x"
    and new: "call_ok L A' c"
    and idle: "\<And>x. x \<in> set cs \<Longrightarrow> in_progress x \<Longrightarrow> c_showId x \<noteq> c_showId c"
    and free: "\<And>x a. x \<in> set cs \<Longrightarrow> c_paymentAttemptId c = Some a \<Longrightarrow> c_paymentAttemptId x \<noteq> Some a"
  shows "calls_ok L A' (db_insert cs c)"
proof (rule calls_okI)
  fix x assume "x \<in> set (db_insert cs c)"
  then show "call_ok L A' x" using new others calls_okD(1) [OF ok] by auto
next
  fix x y
  assume "x \<in> set (db_insert cs c)" "y \<in> set (db_insert cs c)"
    "in_progress x" "in_progress y" "c_showId x = c_showId y"
  then show "x = y" using idle calls_okD(2) [OF ok] by (simp only: set_db_insert insert_iff) metis
next
  fix x y a
  assume "x \<in> set (db_insert cs c)" "y \<in> set (db_insert cs c)"
    "c_paymentAttemptId x = Some a" "c_paymentAttemptId y = Some a"
  then show "x = y" using free calls_okD(3) [OF ok] by (simp only: set_db_insert insert_iff) metis
qed

lemma call_ok_attempt:
  assumes "call_ok L A c" "c_paymentAttemptId c \<noteq> Some a" "\<And>b. b \<noteq> a \<Longrightarrow> A' b = A b"
  shows "call_ok L A' c"
  using assms by (auto simp: call_ok_def paid_ok_def split: option.splits)

lemma attempt_status_patch:
  assumes "\<And>d. did (f d) = did d"
  shows "attempt_status (patchAttempt i f s) b =
    (if b = i then map_option (\<lambda>d. pa_status (f d)) (db_get (paymentAttempts s) i) else attempt_status s b)"
  using assms by (simp add: attempt_status_def db_get_patch option.map_comp comp_def)

lemma stage_ok_cong:
  "shows_tbl s' = shows_tbl s \<Longrightarrow> paymentAttempts s' = paymentAttempts s \<Longrightarrow> calls s' = calls s \<Longrightarrow>
   stage_ok s' = stage_ok s"
  by (simp add: stage_ok_def showIsLive_def [abs_def] attempt_status_def [abs_def])

section \<open>What the call operations write\<close>

lemma requestRefund_frame [simp]:
  "calls (requestRefund c a i r s) = calls s" "queueEntries (requestRefund c a i r s) = queueEntries s"
  "shows_tbl (requestRefund c a i r s) = shows_tbl s" "showTiers (requestRefund c a i r s) = showTiers s"
  "callPresence (requestRefund c a i r s) = callPresence s"
  "paymentAttempts (requestRefund c a i r s) = paymentAttempts s"
  by (simp_all add: requestRefund_def Let_def split: option.split)

lemma creditEarning_frame [simp]:
  "calls (creditEarning c a i t s) = calls s" "queueEntries (creditEarning c a i t s) = queueEntries s"
  "shows_tbl (creditEarning c a i t s) = shows_tbl s" "showTiers (creditEarning c a i t s) = showTiers s"
  "callPresence (creditEarning c a i t s) = callPresence s"
  "paymentAttempts (creditEarning c a i t s) = paymentAttempts s"
  by (simp_all add: creditEarning_def)

lemma creditIfLive_frame [simp]:
  "calls (creditIfLive c call t s) = calls s" "queueEntries (creditIfLive c call t s) = queueEntries s"
  "shows_tbl (creditIfLive c call t s) = shows_tbl s" "showTiers (creditIfLive c call t s) = showTiers s"
  "callPresence (creditIfLive c call t s) = callPresence s"
  "paymentAttempts (creditIfLive c call t s) = paymentAttempts s"
  by (simp_all add: creditIfLive_def split: option.split)

lemma scheduleExpiry_frame [simp]:
  "calls (scheduleExpiry c call t s) = calls s" "queueEntries (scheduleExpiry c call t s) = queueEntries s"
  "shows_tbl (scheduleExpiry c call t s) = shows_tbl s" "showTiers (scheduleExpiry c call t s) = showTiers s"
  "callPresence (scheduleExpiry c call t s) = callPresence s"
  "paymentAttempts (scheduleExpiry c call t s) = paymentAttempts s"
  by (simp_all add: scheduleExpiry_def runAt_def)

lemma cleanUpFinished_frame [simp]:
  "calls (cleanUpFinished c call t s) = calls s" "queueEntries (cleanUpFinished c call t s) = queueEntries s"
  "shows_tbl (cleanUpFinished c call t s) = shows_tbl s" "showTiers (cleanUpFinished c call t s) = showTiers s"
  "paymentAttempts (cleanUpFinished c call t s) = paymentAttempts s"
  "callPresence (cleanUpFinished c call t s) =
     (if finishes t then filter (\<lambda>p. pr_callId p \<noteq> did call) (callPresence s) else callPresence s)"
  by (simp_all add: cleanUpFinished_def dropPresence_def refundIfNeverLive_def split: option.split)

text \<open>A transition either finds the call where it should go, or moves it along the table.\<close>

lemma applyTransition_cases:
  assumes "applyTransition c call t s = Inr (x, s')"
  obtains "c_status call = t" "s' = s" "x = call"
  | "canTransition (c_status call) t" "c_status call \<noteq> t"
    "calls s' = db_patch (calls s) (did call) (callPatch c call t)"
    "queueEntries s' = db_patch (queueEntries s) (c_queueEntryId call) (\<lambda>e. e\<lparr>q_status := entryStatusFor t\<rparr>)"
    "callPresence s' = (if finishes t then filter (\<lambda>p. pr_callId p \<noteq> did call) (callPresence s)
                        else callPresence s)"
    "shows_tbl s' = shows_tbl s" "paymentAttempts s' = paymentAttempts s" "showTiers s' = showTiers s"
proof (cases "c_status call = t")
  case True
  have "applyTransition c call t s = Inr (call, s)"
    unfolding applyTransition_def True by (simp only: simp_thms if_True)
  then show ?thesis using assms that(1) [OF True] by auto
next
  case False
  have can: "canTransition (c_status call) t"
  proof (rule ccontr)
    assume "\<not> canTransition (c_status call) t"
    then show False using assms False by (simp add: applyTransition_def)
  qed
  then have "s' = cleanUpFinished c call t (patchEntry (c_queueEntryId call)
      (\<lambda>e. e\<lparr>q_status := entryStatusFor t\<rparr>) (patchCall (did call) (callPatch c call t)
        (creditIfLive c call t (scheduleExpiry c call t s))))"
    using assms False
    by (simp only: applyTransition_def Let_def not_True_eq_False if_False sum.inject prod.inject)
  then show ?thesis using can False that(2) by simp
qed

lemma transition_targets:
  assumes "canTransition st t"
  shows "st \<in> set CONNECTABLE_STATUSES" "t \<noteq> Call_PAYMENT_PENDING" "t \<noteq> Call_CREATED"
    "t = Call_LIVE \<Longrightarrow> st = Call_CONNECTING" "t = Call_CONNECTING \<Longrightarrow> st = Call_CREATED"
    "finishes t \<or> t = Call_LIVE \<or> t = Call_CONNECTING"
  using assms by (cases st; auto simp: canTransition_def CONNECTABLE_STATUSES_def finishes_def)+

lemma applyTransition_stage:
  assumes "applyTransition c call t s = Inr (x, s')" "stage_ok s" "wf_db s"
    and "db_get (calls s) (did call) = Some call"
  shows "stage_ok s'"
proof (cases rule: applyTransition_cases [OF assms(1)])
  case 1
  then show ?thesis using assms(2) by simp
next
  case 2
  let ?L = "showIsLive s" and ?A = "attempt_status s"
  have L: "showIsLive s' = ?L" and A: "attempt_status s' = ?A"
    using 2 by (simp_all add: showIsLive_def [abs_def] attempt_status_def [abs_def])
  have old: "call_ok ?L ?A call"
    using assms(2,4) by (auto simp: stage_ok_def calls_ok_def dest: db_get_SomeD)
  have conn: "connectable call"
    using transition_targets(1) [OF 2(1)] by (simp add: connectable_def)
  have "c_startedAt call = None" if "t = Call_LIVE \<or> t = Call_CONNECTING"
    using old transition_targets(4,5) [OF 2(1)] that by (auto simp: call_ok_def times_ok_def)
  then have "call_ok ?L ?A (callPatch c call t call)"
    using old conn transition_targets(2,3) [OF 2(1)]
    by (auto simp: call_ok_def paid_ok_def times_ok_def callPatch_def goesLive_def expiryOf_def
        connectable_def split: option.splits)
  then show ?thesis
    unfolding stage_ok_def L A 2(3)
    using assms(2,3,4) conn
    by (intro calls_ok_patch [where n = "nextId s" and c = call])
       (auto simp: stage_ok_def callPatch_def wf_db_def Let_def status_defs)
qed

section \<open>What payments do to calls\<close>

text \<open>
  When one attempt moves, only the call it pays for is affected, and there is at most one.
\<close>

lemma calls_ok_attempt:
  assumes ok: "calls_ok L A cs" and wf: "wf_table n cs" and frame: "\<And>b. b \<noteq> a \<Longrightarrow> A' b = A b"
    and c: "db_get cs i = Some c" "c_paymentAttemptId c = Some a"
    and patched: "call_ok L A' (f c)"
    and keeps: "c_showId (f c) = c_showId c" "c_paymentAttemptId (f c) = c_paymentAttemptId c"
    and mono: "in_progress (f c) \<Longrightarrow> in_progress c"
  shows "calls_ok L A' (db_patch cs i f)"
proof (rule calls_ok_patch [where L' = L and A' = A' and f = f, OF ok wf c(1)])
  fix x assume x: "x \<in> set cs" "x \<noteq> c" "call_ok L A x"
  have "c_paymentAttemptId x \<noteq> Some a"
    using calls_okD(3) [OF ok x(1)] db_get_SomeD [OF c(1)] c(2) x(2) by metis
  then show "call_ok L A' x" by (rule call_ok_attempt [OF x(3) _ frame])
qed (use patched keeps mono in simp_all)

lemma calls_ok_unattached:
  assumes "calls_ok L A cs" "\<And>b. b \<noteq> a \<Longrightarrow> A' b = A b" "\<And>c. c \<in> set cs \<Longrightarrow> c_paymentAttemptId c \<noteq> Some a"
  shows "calls_ok L A' cs"
  using assms(1) by (rule calls_ok_same) (use assms in \<open>blast intro: call_ok_attempt\<close>)

lemma calls_ok_attempt_only:
  assumes ok: "calls_ok L A cs" and wf: "wf_table n cs" and frame: "\<And>b. b \<noteq> a \<Longrightarrow> A' b = A b"
    and keep: "\<And>c. c \<in> set cs \<Longrightarrow> c_paymentAttemptId c = Some a \<Longrightarrow> call_ok L A c \<Longrightarrow> call_ok L A' c"
  shows "calls_ok L A' cs"
  using ok
proof (rule calls_ok_same)
  fix c assume "c \<in> set cs" "call_ok L A c"
  then show "call_ok L A' c" using keep frame call_ok_attempt by metis
qed

lemma callForAttempt_SomeD:
  "callForAttempt s a = Some c \<Longrightarrow> c \<in> set (calls s) \<and> c_paymentAttemptId c = Some a"
  by (auto simp: callForAttempt_def dest: first_by_SomeD)

lemma callForAttempt_None: "callForAttempt s a = None \<longleftrightarrow> (\<forall>c\<in>set (calls s). c_paymentAttemptId c \<noteq> Some a)"
  by (simp add: callForAttempt_def first_by_None)

lemma callForAttempt_cong: "calls s' = calls s \<Longrightarrow> callForAttempt s' a = callForAttempt s a"
  by (simp add: callForAttempt_def)

lemma showIsLive_cong: "shows_tbl s' = shows_tbl s \<Longrightarrow> showIsLive s' = showIsLive s"
  by (simp add: showIsLive_def [abs_def])

lemma attempt_status_cong: "paymentAttempts s' = paymentAttempts s \<Longrightarrow> attempt_status s' = attempt_status s"
  by (simp add: attempt_status_def [abs_def])

lemma wf_calls: "wf_db s \<Longrightarrow> wf_table (nextId s) (calls s)"
  and wf_attempts: "wf_db s \<Longrightarrow> wf_table (nextId s) (paymentAttempts s)"
  and wf_shows: "wf_db s \<Longrightarrow> wf_table (nextId s) (shows_tbl s)"
  by (simp_all add: wf_db_def Let_def)

lemma stage_okD:
  assumes "stage_ok s"
  shows "c \<in> set (calls s) \<Longrightarrow> call_ok (showIsLive s) (attempt_status s) c"
  using assms by (simp add: stage_ok_def calls_okD(1))

lemma markCaptured_simps:
  assumes "db_get (paymentAttempts s) (did a) = Some a"
  shows "calls (markCaptured c a s) = calls s" "shows_tbl (markCaptured c a s) = shows_tbl s"
    "queueEntries (markCaptured c a s) = queueEntries s"
    "attempt_status (markCaptured c a s) = (attempt_status s)(did a := Some Pay_CAPTURED)"
  using assms
  by (auto simp: markCaptured_def attempt_status_patch fun_eq_iff, auto simp: attempt_status_def)

lemma failPendingCall_simps [simp]:
  "shows_tbl (failPendingCall c call s) = shows_tbl s"
  "paymentAttempts (failPendingCall c call s) = paymentAttempts s"
  "calls (failPendingCall c call s) = (if c_status call = Call_PAYMENT_PENDING
     then db_patch (calls s) (did call) (\<lambda>d. d\<lparr>c_status := Call_FAILED, c_endedAt := Some (now c)\<rparr>) else calls s)"
  by (simp_all add: failPendingCall_def)

lemma recordCaptured_cases:
  assumes a: "db_get (paymentAttempts s) (did a) = Some a"
  obtains "callForAttempt s (did a) = None" "calls (recordCaptured c a s) = calls s"
  | call where "callForAttempt s (did a) = Some call" "c_status call = Call_PAYMENT_PENDING"
      "showIsLive s (c_showId call)"
      "calls (recordCaptured c a s) = db_patch (calls s) (did call) (\<lambda>d. d\<lparr>c_status := Call_CREATED\<rparr>)"
  | call where "callForAttempt s (did a) = Some call" "c_status call = Call_PAYMENT_PENDING"
      "\<not> showIsLive s (c_showId call)" "c_startedAt call = None"
      "calls (recordCaptured c a s) = db_patch (calls s) (did call)
         (\<lambda>d. d\<lparr>c_status := Call_FAILED, c_endedAt := Some (now c)\<rparr>)"
  | call where "callForAttempt s (did a) = Some call"
      "c_status call \<noteq> Call_PAYMENT_PENDING \<or> c_startedAt call \<noteq> None"
      "calls (recordCaptured c a s) = calls s"
proof -
  note m = markCaptured_simps [OF a]
  have live: "showIsLive (markCaptured c a s) = showIsLive s" by (rule showIsLive_cong) (rule m)
  have cf: "callForAttempt (markCaptured c a s) (did a) = callForAttempt s (did a)"
    by (rule callForAttempt_cong) (rule m)
  show ?thesis
  proof (cases "callForAttempt s (did a)")
    case None
    then show ?thesis by (intro that(1)) (simp_all add: recordCaptured_def Let_def cf m)
  next
    case (Some call)
    consider "c_status call = Call_PAYMENT_PENDING" "showIsLive s (c_showId call)"
      | "c_status call = Call_PAYMENT_PENDING" "\<not> showIsLive s (c_showId call)" "c_startedAt call = None"
      | "c_status call \<noteq> Call_PAYMENT_PENDING \<or> c_startedAt call \<noteq> None"
      by blast
    then show ?thesis
    proof cases
      case 1
      then show ?thesis
        using Some by (intro that(2)) (simp_all add: recordCaptured_def Let_def cf live m)
    next
      case 2
      then show ?thesis
        using Some by (intro that(3)) (simp_all add: recordCaptured_def Let_def cf live m)
    next
      case 3
      show ?thesis
      proof (cases "c_status call = Call_PAYMENT_PENDING \<and> showIsLive s (c_showId call)")
        case True
        then show ?thesis using Some by (intro that(2)) (simp_all add: recordCaptured_def Let_def cf live m)
      next
        case False
        then show ?thesis
          using Some 3 by (intro that(4)) (auto simp add: recordCaptured_def Let_def cf live m)
      qed
    qed
  qed
qed

lemma recordCaptured_tables:
  assumes "db_get (paymentAttempts s) (did a) = Some a"
  shows "shows_tbl (recordCaptured c a s) = shows_tbl s"
    "attempt_status (recordCaptured c a s) = (attempt_status s)(did a := Some Pay_CAPTURED)"
  by (auto simp: recordCaptured_def Let_def markCaptured_simps [OF assms] split: option.split
      intro: trans [OF attempt_status_cong markCaptured_simps(4) [OF assms]])

lemma recordCaptured_stage:
  assumes ok: "stage_ok s" and wf: "wf_db s" and a: "db_get (paymentAttempts s) (did a) = Some a"
  shows "stage_ok (recordCaptured c a s)"
proof -
  let ?L = "showIsLive s" and ?A = "attempt_status s" and ?A' = "(attempt_status s)(did a := Some Pay_CAPTURED)"
  note tables = recordCaptured_tables [OF a, of c]
  have ok': "calls_ok ?L ?A (calls s)" using ok by (simp add: stage_ok_def)
  have call: "db_get (calls s) (did call) = Some call \<and> c_paymentAttemptId call = Some (did a) \<and> call_ok ?L ?A call"
    if "callForAttempt s (did a) = Some call" for call
    using callForAttempt_SomeD [OF that] wf_calls [OF wf] stage_okD [OF ok] by (simp add: db_get_in)
  have "calls_ok ?L ?A' (calls (recordCaptured c a s))"
  proof (cases rule: recordCaptured_cases [OF a, of c])
    case 1
    then show ?thesis
      using calls_ok_unattached [OF ok', of "did a" ?A'] by (simp add: callForAttempt_None)
  next
    case (2 x)
    then show ?thesis unfolding 2(4) using call [OF 2(1)]
      by (intro calls_ok_attempt [OF ok' wf_calls [OF wf], of "did a" _ _ x])
         (auto simp: call_ok_def paid_ok_def times_ok_def status_defs)
  next
    case (3 x)
    then show ?thesis unfolding 3(5) using call [OF 3(1)]
      by (intro calls_ok_attempt [OF ok' wf_calls [OF wf], of "did a" _ _ x])
         (auto simp: call_ok_def paid_ok_def times_ok_def status_defs)
  next
    case (4 x)
    then have "c_status x \<noteq> Call_PAYMENT_PENDING"
      using call [OF 4(1)] by (auto simp: call_ok_def times_ok_def)
    moreover have "y = x" if "y \<in> set (calls s)" "c_paymentAttemptId y = Some (did a)" for y
      using calls_okD(3) [OF ok' that(1) _ that(2)] callForAttempt_SomeD [OF 4(1)] by blast
    ultimately show ?thesis unfolding 4(3)
      by (intro calls_ok_attempt_only [OF ok' wf_calls [OF wf], of "did a"])
         (auto simp: call_ok_def paid_ok_def split: option.splits)
  qed
  then show ?thesis
    unfolding stage_ok_def tables(2) showIsLive_cong [OF tables(1)] .
qed

lemma recordNotCaptured_stage:
  assumes ok: "stage_ok s" and wf: "wf_db s" and a: "db_get (paymentAttempts s) (did a) = Some a"
    and st: "st = Pay_CANCELED \<or> st = Pay_FAILED"
  shows "stage_ok (recordNotCaptured c a st code s)"
proof (cases "pa_status a = Pay_CAPTURED")
  case True
  then show ?thesis using ok by (simp add: recordNotCaptured_def)
next
  case False
  let ?s' = "recordNotCaptured c a st code s"
  let ?L = "showIsLive s" and ?A = "attempt_status s" and ?A' = "(attempt_status s)(did a := Some st)"
  have ok': "calls_ok ?L ?A (calls s)" using ok by (simp add: stage_ok_def)
  have shows': "shows_tbl ?s' = shows_tbl s"
    by (simp add: recordNotCaptured_def releaseEntry_def Let_def split: option.split)
  have attempts: "attempt_status ?s' = ?A'"
    using False a by (auto simp: fun_eq_iff attempt_status_def recordNotCaptured_def releaseEntry_def Let_def
        db_get_patch split: option.splits)
  have calls': "calls ?s' = (case callForAttempt s (did a) of
      Some x \<Rightarrow> if c_status x = Call_PAYMENT_PENDING
        then db_patch (calls s) (did x) (\<lambda>d. d\<lparr>c_status := Call_FAILED, c_endedAt := Some (now c)\<rparr>) else calls s
    | None \<Rightarrow> calls s)"
    using False by (simp add: recordNotCaptured_def releaseEntry_def Let_def callForAttempt_def split: option.split)
  have "calls_ok ?L ?A' (calls ?s')"
  proof (cases "callForAttempt s (did a)")
    case None
    then have "calls_ok ?L ?A' (calls s)"
      using calls_ok_unattached [OF ok', of "did a" ?A'] by (simp add: callForAttempt_None)
    then show ?thesis by (simp add: calls' None)
  next
    case (Some x)
    have x: "db_get (calls s) (did x) = Some x" "c_paymentAttemptId x = Some (did a)" "call_ok ?L ?A x"
      using callForAttempt_SomeD [OF Some] wf_calls [OF wf] stage_okD [OF ok] by (simp_all add: db_get_in)
    have A: "?A (did a) = Some (pa_status a)" using a by (simp add: attempt_status_def)
    have same: "y = x" if "y \<in> set (calls s)" "c_paymentAttemptId y = Some (did a)" for y
      using calls_okD(3) [OF ok' that(1) _ that(2)] callForAttempt_SomeD [OF Some] by blast
    show ?thesis
    proof (cases "c_status x = Call_PAYMENT_PENDING")
      case True
      then show ?thesis unfolding calls' Some using x st
        by (simp, intro calls_ok_attempt [OF ok' wf_calls [OF wf], of "did a" _ _ x])
           (auto simp: call_ok_def paid_ok_def times_ok_def status_defs)
    next
      case pending: False
      have "call_ok ?L ?A' x"
        using x A False pending st by (auto simp: call_ok_def paid_ok_def)
      then show ?thesis unfolding calls' Some using pending same
        by (simp, intro calls_ok_attempt_only [OF ok' wf_calls [OF wf], of "did a"]) auto
    qed
  qed
  then show ?thesis unfolding stage_ok_def attempts showIsLive_cong [OF shows'] .
qed

text \<open>Writes to an attempt that leave its status alone, and a new attempt.\<close>

lemma stage_ok_same_status:
  assumes "stage_ok s" "shows_tbl s' = shows_tbl s" "calls s' = calls s" "attempt_status s' = attempt_status s"
  shows "stage_ok s'"
  using assms showIsLive_cong [of s' s] by (simp add: stage_ok_def)

lemma attempt_status_neutral:
  assumes "\<And>d. did (f d) = did d" "\<And>d. pa_status (f d) = pa_status d"
  shows "attempt_status (patchAttempt i f s) = attempt_status s"
  using assms by (simp add: fun_eq_iff attempt_status_def db_get_patch option.map_comp comp_def)

lemma stage_ok_patchAttempt:
  assumes "stage_ok s" "\<And>d. did (f d) = did d" "\<And>d. pa_status (f d) = pa_status d"
  shows "stage_ok (patchAttempt i f s)"
  using assms(1) by (rule stage_ok_same_status) (use attempt_status_neutral [OF assms(2,3)] in simp_all)

lemma call_attempt_known:
  assumes "stage_ok s" "c \<in> set (calls s)" "c_paymentAttemptId c = Some a"
  shows "attempt_status s a \<noteq> None" "attempt_status s a \<noteq> Some Pay_CREATED" "attempt_status s a \<noteq> Some Pay_AUTHORIZED"
  using stage_okD [OF assms(1,2)] assms(3) by (auto simp: call_ok_def paid_ok_def)

lemma stage_ok_unused_attempt:
  assumes ok: "stage_ok s"
    and unused: "attempt_status s a \<in> {None, Some Pay_CREATED, Some Pay_AUTHORIZED}"
    and "shows_tbl s' = shows_tbl s" "calls s' = calls s" "\<And>b. b \<noteq> a \<Longrightarrow> attempt_status s' b = attempt_status s b"
  shows "stage_ok s'"
proof -
  have "calls_ok (showIsLive s) (attempt_status s') (calls s)"
  proof (rule calls_ok_unattached [OF ok [unfolded stage_ok_def] assms(5)])
    fix c assume "c \<in> set (calls s)"
    then show "c_paymentAttemptId c \<noteq> Some a" using call_attempt_known [OF ok] unused by blast
  qed
  then show ?thesis using assms(3,4) showIsLive_cong [of s' s] by (simp add: stage_ok_def)
qed

lemma markAuthorized_stage:
  assumes "stage_ok s"
  shows "stage_ok (markAuthorized c i s)"
proof (cases "attempt_status s i = Some Pay_CREATED")
  case True
  then show ?thesis
    by (intro stage_ok_unused_attempt [OF assms, of i])
       (auto simp: markAuthorized_def attempt_status_def db_get_patch split: option.split)
next
  case False
  then have "markAuthorized c i s = s"
    by (auto simp: markAuthorized_def attempt_status_def split: option.splits)
  then show ?thesis using assms by simp
qed

lemma prepare_stage:
  assumes "stage_ok s" "wf_db s"
  shows "ensures stage_ok (prepare c i t k cu s)"
proof -
  have new: "stage_ok (bumpId (paymentAttempts_update (\<lambda>tb. db_insert tb a) s))" if "did a = nextId s" for a
    using that tbl.get_ins [OF wf_attempts [OF assms(2)], of a] tbl.get_fresh [OF wf_attempts [OF assms(2)]]
    by (intro stage_ok_unused_attempt [OF assms(1), of "nextId s"]) (auto simp: attempt_status_def)
  show ?thesis
    unfolding prepare_def using assms
    by (intro sat_intros) (auto simp: sat_def ensures_def Let_def newAttempt_def split: option.splits if_splits
        intro!: new [unfolded newAttempt_def])
qed

lemma attachIntent_stage: "stage_ok s \<Longrightarrow> ensures stage_ok (attachIntent i p s)"
  unfolding attachIntent_def by (intro sat_intros) (auto simp: sat_def intro!: stage_ok_patchAttempt)

lemma attachEntry_stage: "stage_ok s \<Longrightarrow> stage_ok (attachEntry a i s)"
  by (auto simp: attachEntry_def split: option.split intro!: stage_ok_patchAttempt)

lemma writeEntry_stage: "stage_ok s \<Longrightarrow> stage_ok (snd (writeEntry c v args t e a s))"
  by (auto simp: writeEntry_def split: option.split intro!: attachEntry_stage)
     (auto elim: stage_ok_same_status simp: attempt_status_def [abs_def])

lemma joinQueue_stage: "stage_ok s \<Longrightarrow> ensures stage_ok (joinQueue c v args p s)"
  unfolding joinQueue_def
  by (intro sat_intros ensures_Let) (simp_all add: sat_def, metis writeEntry_stage snd_conv)

lemma join_stage: "stage_ok s \<Longrightarrow> ensures stage_ok (queue_join c args s)"
  "stage_ok s \<Longrightarrow> ensures stage_ok (joinWithPayment c args p s)"
  unfolding queue_join_def joinWithPayment_def
  by (intro sat_intros; auto simp: sat_def dest: ensuresD [OF joinQueue_stage])+

section \<open>Opening calls, starting and ending shows\<close>

lemma showForCreator_InrD:
  "showForCreator s i u = Inr sh \<Longrightarrow> db_get (shows_tbl s) i = Some sh \<and> did sh = i \<and> sh_creatorId sh = u"
  by (auto simp: showForCreator_def split: option.splits if_splits dest: db_get_SomeD)

lemma firstCallWithStatus_None:
  "firstCallWithStatus s i sts = None \<longleftrightarrow> (\<forall>c\<in>set (calls s). c_showId c = i \<longrightarrow> c_status c \<notin> set sts)"
  by (induction sts) (auto simp: first_by_None split: option.splits dest: first_by_SomeD)

lemma firstCallWithStatus_SomeD:
  "firstCallWithStatus s i sts = Some c \<Longrightarrow> c \<in> set (calls s) \<and> c_showId c = i \<and> c_status c \<in> set sts"
  by (induction sts) (auto split: option.splits dest: first_by_SomeD)

lemma activeCallForShow_None:
  "activeCallForShow s i = None \<longleftrightarrow> (\<forall>c\<in>set (calls s). c_showId c = i \<longrightarrow> \<not> in_progress c)"
  by (simp add: activeCallForShow_def firstCallWithStatus_None in_progress_def)

lemma activeCallForShow_SomeD:
  "activeCallForShow s i = Some c \<Longrightarrow> c \<in> set (calls s) \<and> c_showId c = i \<and> in_progress c"
  by (auto simp: activeCallForShow_def in_progress_def dest: firstCallWithStatus_SomeD)

lemma activeCallForShow_cong:
  assumes "calls s' = calls s"
  shows "activeCallForShow s' i = activeCallForShow s i"
proof -
  have "firstCallWithStatus s' i sts = firstCallWithStatus s i sts" for sts
    by (induction sts) (simp_all add: assms split: option.split)
  then show ?thesis by (simp add: activeCallForShow_def)
qed

text \<open>With at most one call in progress per show, the lookup finds exactly that call.\<close>

lemma activeCallForShow_iff:
  assumes "stage_ok s"
  shows "activeCallForShow s i = Some c \<longleftrightarrow> c \<in> set (calls s) \<and> c_showId c = i \<and> in_progress c"
proof
  assume c: "c \<in> set (calls s) \<and> c_showId c = i \<and> in_progress c"
  then obtain x where x: "activeCallForShow s i = Some x"
    using activeCallForShow_None by (cases "activeCallForShow s i") auto
  then show "activeCallForShow s i = Some c"
    using calls_okD(2) [OF assms [unfolded stage_ok_def], of x c] activeCallForShow_SomeD [OF x] c by auto
qed (rule activeCallForShow_SomeD)

lemma prepareSelection_InrD:
  assumes "prepareSelection c i s = Inr sh"
  shows "showIsLive s i" "did sh = i" "activeCallForShow s i = None" "db_get (shows_tbl s) i = Some sh"
  using assms by (auto simp: prepareSelection_def showIsLive_def split: if_splits dest!: showForCreator_InrD)

lemma openCall_stage:
  assumes ok: "stage_ok s" and live: "showIsLive s (did sh)" and idle: "activeCallForShow s (did sh) = None"
    and hold: "case holdOf s e of Some a \<Rightarrow> pa_status a = Pay_AUTHORIZED | None \<Rightarrow> \<not> q_tierPriceCents e > 0"
  shows "stage_ok (openCall c sh e m (holdOf s e) s)"
proof -
  let ?s' = "openCall c sh e m (holdOf s e) s"
  let ?A' = "attempt_status ?s'" and ?new = "newCall c (nextId s) sh e m (holdOf s e)"
  have tables: "shows_tbl ?s' = shows_tbl s" "calls ?s' = db_insert (calls s) ?new"
    by (simp_all add: openCall_def startCapture_def split: option.split)
  have paid: "q_tierPriceCents e > 0" if "holdOf s e = Some a" for a
    using that by (simp add: holdOf_def split: if_splits)
  have get: "db_get (paymentAttempts s) (did a) = Some a" if "holdOf s e = Some a" for a
    using that by (auto simp: holdOf_def split: if_splits option.splits dest: db_get_SomeD)
  have other: "?A' b = attempt_status s b" if "\<And>a. holdOf s e = Some a \<Longrightarrow> b \<noteq> did a" for b
    using that by (auto simp: openCall_def startCapture_def attempt_status_def db_get_patch split: option.split)
  have own: "?A' (did a) = Some Pay_CAPTURING" if "holdOf s e = Some a" for a
    using that get [OF that] by (simp add: openCall_def startCapture_def attempt_status_def db_get_patch)
  have unused: "c_paymentAttemptId x \<noteq> Some (did a)" if "x \<in> set (calls s)" "holdOf s e = Some a" for x a
    using call_attempt_known(3) [OF ok that(1)] get [OF that(2)] hold that(2) by (auto simp: attempt_status_def)
  have "calls_ok (showIsLive s) ?A' (db_insert (calls s) ?new)"
  proof (rule calls_ok_insert [OF ok [unfolded stage_ok_def]])
    fix x assume x: "x \<in> set (calls s)" "call_ok (showIsLive s) (attempt_status s) x"
    show "call_ok (showIsLive s) ?A' x"
    proof (cases "holdOf s e")
      case None
      then have "?A' = attempt_status s" using other by (intro ext) simp
      then show ?thesis using x by simp
    next
      case (Some a)
      then show ?thesis using x other unused [OF x(1) Some] by (intro call_ok_attempt [OF x(2), of "did a"]) auto
    qed
  next
    show "call_ok (showIsLive s) ?A' ?new"
      using live hold own paid
      by (cases "holdOf s e") (auto simp: call_ok_def paid_ok_def times_ok_def status_defs newCall_def)
  next
    fix x assume "x \<in> set (calls s)" "in_progress x"
    then show "c_showId x \<noteq> c_showId ?new"
      using idle by (auto simp: activeCallForShow_None newCall_def)
  next
    fix x a assume "x \<in> set (calls s)" "c_paymentAttemptId ?new = Some a"
    then show "c_paymentAttemptId x \<noteq> Some a" using unused by (auto simp: newCall_def)
  qed
  then show ?thesis
    unfolding stage_ok_def tables(2) showIsLive_cong [OF tables(1)] .
qed

lemma createCall_stage:
  assumes "stage_ok s" "showIsLive s (did sh)" "activeCallForShow s (did sh) = None"
  shows "ensures stage_ok (createCall c sh e m s)"
  unfolding createCall_def
  using openCall_stage [OF assms, of e c m]
  by (intro ensures_Let sat_intros) (auto simp: sat_def holdOf_def split: option.splits)

lemma selection_stage:
  "stage_ok s \<Longrightarrow> ensures stage_ok (calls_select c i e s)"
  "stage_ok s \<Longrightarrow> ensures stage_ok (calls_selectRandom c i s)"
  unfolding calls_select_def calls_selectRandom_def
  by (intro sat_intros createCall_stage; simp add: prepareSelection_InrD; fail)+

lemma callForParticipant_InrD:
  "callForParticipant c i s = Inr (call, r) \<Longrightarrow> db_get (calls s) i = Some call \<and> did call = i"
  by (auto simp: callForParticipant_def split: option.splits if_splits dest: db_get_SomeD)

lemma transition_stage:
  assumes "stage_ok s" "wf_db s"
  shows "ensures stage_ok (calls_transition c i t s)" "ensuresDb stage_ok (calls_expire c i s)"
    "ensuresDb stage_ok (presence_checkGrace c i r d s)"
proof -
  have step: "stage_ok s'" if "applyTransition c call u s = Inr (x, s')" "db_get (calls s) j = Some call" for call u x s' j
    using applyTransition_stage [OF that(1) assms] that(2) db_get_SomeD [OF that(2)] by simp
  show "ensures stage_ok (calls_transition c i t s)" "ensuresDb stage_ok (calls_expire c i s)"
    "ensuresDb stage_ok (presence_checkGrace c i r d s)"
    using assms(1) step
    by (auto simp: calls_transition_def calls_expire_def presence_checkGrace_def ensures_def ensuresDb_def sat_def
        split: option.splits if_splits dest!: callForParticipant_InrD)
qed

lemma showIsLive_patch:
  assumes "\<And>d. did (f d) = did d"
  shows "showIsLive (patchShow i f s) j = (if j = i
    then (case db_get (shows_tbl s) i of Some d \<Rightarrow> sh_status (f d) = Show_LIVE | None \<Rightarrow> False) else showIsLive s j)"
  using assms by (simp add: showIsLive_def db_get_patch split: option.split)

lemma stage_ok_more_live:
  assumes "stage_ok s" "calls s' = calls s" "paymentAttempts s' = paymentAttempts s"
    "\<And>i. showIsLive s i \<Longrightarrow> showIsLive s' i"
  shows "stage_ok s'"
  unfolding stage_ok_def assms(2) attempt_status_cong [OF assms(3)]
  by (rule calls_ok_same [OF assms(1) [unfolded stage_ok_def]]) (auto simp: call_ok_def assms(4))


lemma stage_ok_runAfter [simp]: "stage_ok (runAfter c d j s) = stage_ok s"
  by (rule stage_ok_cong) simp_all

lemma onShow_frame [simp]:
  "calls (onShowLive c sh s) = calls s" "paymentAttempts (onShowLive c sh s) = paymentAttempts s"
  "shows_tbl (onShowLive c sh s) = shows_tbl s"
  "calls (onShowEnded c sh s) = calls s" "paymentAttempts (onShowEnded c sh s) = paymentAttempts s"
  "shows_tbl (onShowEnded c sh s) = shows_tbl s" "nextId (onShowEnded c sh s) = nextId s"
  "calls (onShowCreated c u s) = calls s" "paymentAttempts (onShowCreated c u s) = paymentAttempts s"
  "shows_tbl (onShowCreated c u s) = shows_tbl s"
  "calls (onShowScheduled c u t s) = calls s" "paymentAttempts (onShowScheduled c u t s) = paymentAttempts s"
  "shows_tbl (onShowScheduled c u t s) = shows_tbl s"
  by (simp_all add: onShowLive_def onShowEnded_def onShowCreated_def onShowScheduled_def queueLiveAlert_def Let_def
      split: option.split)

lemma shows_create_stage:
  assumes "stage_ok s" "wf_db s"
  shows "ensures stage_ok (shows_create c s)"
  unfolding shows_create_def Let_def using assms(1)
  by (intro sat_intros)
     (auto simp: sat_def showIsLive_def tbl.get_ins_other [OF wf_shows [OF assms(2)]]
       split: option.splits elim!: stage_ok_more_live)

lemma shows_schedule_stage: "stage_ok s \<Longrightarrow> ensures stage_ok (shows_schedule c i t s)"
  unfolding shows_schedule_def Let_def
  by (intro sat_intros)
     (auto simp: sat_def showIsLive_def db_get_patch split: option.splits elim!: stage_ok_more_live)

lemma shows_start_stage: "stage_ok s \<Longrightarrow> ensures stage_ok (shows_start c i s)"
  unfolding shows_start_def Let_def
  by (intro sat_intros)
     (auto simp: sat_def showIsLive_def db_get_patch split: option.splits elim!: stage_ok_more_live)

text \<open>
  Ending a show: its call in progress, if it carries media, is ended in the same transaction, so no
  connectable call is left behind.  A call still waiting for its capture stays.
\<close>

lemma shows_end_stage:
  assumes "stage_ok s" "wf_db s"
  shows "ensures stage_ok (shows_end c i s)"
proof -
  have ended: "stage_ok s2" if sh: "db_get (shows_tbl s) i = Some sh" "sh_status sh = Show_LIVE"
    and s1: "s1 = onShowEnded c sh (patchShow i (\<lambda>d. d\<lparr>sh_status := Show_ENDED, sh_endedAt := Some (now c)\<rparr>) s)"
    and s2: "endOpenCall c i s1 = Inr s2" for sh s1 s2
  proof -
    have tables: "calls s1 = calls s" "paymentAttempts s1 = paymentAttempts s" by (simp_all add: s1)
    have live: "showIsLive s1 = (showIsLive s)(i := False)"
      using sh by (auto simp: fun_eq_iff s1 showIsLive_patch showIsLive_cong [OF onShow_frame(6)])
    have act: "activeCallForShow s1 i = Some x \<longleftrightarrow> x \<in> set (calls s) \<and> c_showId x = i \<and> in_progress x" for x
      using activeCallForShow_iff [OF assms(1)] activeCallForShow_cong [OF tables(1)] by simp
    have ok: "calls_ok (showIsLive s) (attempt_status s) (calls s)" using assms(1) by (simp add: stage_ok_def)
    have others: "call_ok ((showIsLive s)(i := False)) (attempt_status s) x"
      if "call_ok (showIsLive s) (attempt_status s) x" "c_showId x = i \<Longrightarrow> \<not> connectable x" for x
      using that by (auto simp: call_ok_def)
    show ?thesis
    proof (cases "\<exists>call. activeCallForShow s1 i = Some call \<and> connectable call")
      case True
      then obtain call where call: "activeCallForShow s1 i = Some call" "connectable call" by blast
      then obtain x where x: "applyTransition c call Call_ENDED s1 = Inr (x, s2)"
        using s2 by (auto simp: endOpenCall_def connectable_def split: if_splits)
      have mem: "call \<in> set (calls s)" "c_showId call = i" using call act by blast+
      have ended: "calls s2 = db_patch (calls s) (did call) (callPatch c call Call_ENDED)"
        "shows_tbl s2 = shows_tbl s1" "paymentAttempts s2 = paymentAttempts s"
        using call(2) by (cases rule: applyTransition_cases [OF x];
            simp add: tables connectable_def CONNECTABLE_STATUSES_def)+
      have "calls_ok ((showIsLive s)(i := False)) (attempt_status s) (calls s2)" unfolding ended(1)
      proof (rule calls_ok_patch [OF ok wf_calls [OF assms(2)] db_get_in [OF wf_calls [OF assms(2)] mem(1)]])
        fix y assume y: "y \<in> set (calls s)" "y \<noteq> call" "call_ok (showIsLive s) (attempt_status s) y"
        have "\<not> connectable y" if "c_showId y = i"
          using calls_okD(2) [OF ok y(1) mem(1)] y(2) that mem(2) call(2) by (auto simp: status_defs)
        then show "call_ok ((showIsLive s)(i := False)) (attempt_status s) y" using others y(3) by blast
      qed (use calls_okD(1) [OF ok mem(1)] call(2) in
            \<open>auto simp: call_ok_def paid_ok_def times_ok_def callPatch_def goesLive_def status_defs split: option.splits\<close>)
      then show ?thesis
        by (simp add: stage_ok_def attempt_status_cong [OF ended(3)] showIsLive_cong [OF ended(2)] live)
    next
      case False
      then have eq: "s2 = s1" using s2
        by (auto simp: endOpenCall_def connectable_def split: option.splits if_splits)
      have "\<not> connectable x" if "x \<in> set (calls s)" "c_showId x = i" for x
        using False act that by (auto simp: status_defs)
      then have "calls_ok ((showIsLive s)(i := False)) (attempt_status s) (calls s)"
        using others by (intro calls_ok_same [OF ok]) blast
      then show ?thesis by (simp add: stage_ok_def eq live tables attempt_status_cong [OF tables(2)])
    qed
  qed
  show ?thesis
    unfolding shows_end_def Let_def using assms(1)
    by (intro sat_intros) (auto simp: sat_def dest!: showForCreator_InrD intro: ended [OF _ _ refl])
qed

section \<open>Every request keeps it\<close>

lemma applyIntent_stage:
  assumes "stage_ok s" "wf_db s"
  shows "stage_ok (applyIntent c ty i s)"
proof (cases "attemptForIntent s (Some (wi_id i))")
  case None
  then show ?thesis using assms by (simp add: applyIntent_def)
next
  case (Some a)
  then have "a \<in> set (paymentAttempts s)"
    by (auto simp: attemptForIntent_def split: if_splits dest: first_by_SomeD)
  then have a: "db_get (paymentAttempts s) (did a) = Some a"
    using wf_attempts [OF assms(2)] by (simp add: db_get_in)
  show ?thesis
    using Some recordCaptured_stage [OF assms a, of c] recordNotCaptured_stage [OF assms a, of _ c]
    by (auto simp: applyIntent_def Let_def intro!: stage_ok_patchAttempt)
qed

lemma stage_ok_frame:
  "same W s s' \<Longrightarrow> {T_shows, T_calls, T_paymentAttempts} \<inter> W = {} \<Longrightarrow> stage_ok s \<Longrightarrow> stage_ok s'"
  using stage_ok_cong [of s' s] by (simp add: sameD)

lemma recordEvent_stage: "stage_ok s \<Longrightarrow> stage_ok (recordEvent c a s)"
  by (erule stage_ok_same_status) (simp_all add: recordEvent_def attempt_status_def [abs_def])

lemma other_event_same:
  assumes "wh_intent a = None"
  shows "same {T_creatorBalances, T_ledgerEntries, T_paymentRefunds, T_paymentDisputes, T_payoutEvents} s (applyEvent c a s)"
proof -
  have "sat (same {T_creatorBalances, T_ledgerEntries, T_paymentRefunds, T_paymentDisputes, T_payoutEvents} s)
      (applyEvent c a s)"
    unfolding applyEvent_def assms option.case by (intro sat_intros mod_intros) (simp_all add: sat_def)
  then show ?thesis by (simp add: sat_def)
qed

lemma webhook_stage:
  assumes "stage_ok s" "wf_db s"
  shows "stage_ok (webhooks_apply c a s)"
proof (cases "wh_intent a")
  case None
  then show ?thesis
    using stage_ok_frame [OF other_event_same [OF None] _ recordEvent_stage [OF assms(1)]] assms(1)
    by (simp add: webhooks_apply_def)
next
  case (Some i)
  have "wf_db (recordEvent c a s)"
    using assms(2) wf_intros by (simp add: sat_def)
  then show ?thesis
    using applyIntent_stage [OF recordEvent_stage [OF assms(1)]] assms(1) Some
    by (simp add: webhooks_apply_def applyEvent_def)
qed

lemma db_get_self: "db_get t i = Some d \<Longrightarrow> db_get t (did d) = Some d"
  by (auto dest: db_get_SomeD)

lemma captures_stage:
  assumes "stage_ok s" "wf_db s"
  shows "stage_ok (payments_captured c i s)"
    and "stage_ok (payments_notCaptured c i (if b then Pay_CANCELED else Pay_FAILED) code s)"
  using assms recordCaptured_stage [OF assms] recordNotCaptured_stage [OF assms]
  by (auto simp: payments_captured_def payments_notCaptured_def split: option.split dest: db_get_self)

lemma exec_stage_ok:
  assumes "stage_ok s" "wf_db s"
  shows "stage_ok (exec h c r s)"
proof (cases "{T_shows, T_calls, T_paymentAttempts} \<inter> writes r = {}")
  case True
  then show ?thesis using stage_ok_frame [OF exec_same] assms(1) by blast
next
  case False
  have sat: "sat stage_ok s" using assms(1) by (simp add: sat_def)
  note rules = shows_create_stage [OF assms] shows_schedule_stage [OF assms(1)] shows_start_stage [OF assms(1)]
    shows_end_stage [OF assms] join_stage [OF assms(1)] selection_stage [OF assms(1)] transition_stage [OF assms]
    prepare_stage [OF assms] attachIntent_stage [OF assms(1)]
  show ?thesis
  proof (cases r)
    case (Stage q)
    then show ?thesis using False
      by (cases q) (simp_all add: sat_commit [OF sat, unfolded sat_def] sat_commitDb [OF sat, unfolded sat_def] rules)
  next
    case (Money q)
    then show ?thesis using False
      by (cases q) (simp_all add: sat_commit [OF sat, unfolded sat_def] rules captures_stage [OF assms]
          webhook_stage [OF assms] markAuthorized_stage [OF assms(1)] del: if_split split del: if_split)
  next
    case (Social q)
    then show ?thesis using False by (cases q) simp_all
  qed
qed

lemma stage_ok_empty: "stage_ok empty_db"
  by (simp add: stage_ok_def calls_ok_def empty_db_def)

interpretation stage: inductive_invariant h wf_db stage_ok for h
  using exec_stage_ok by unfold_locales (auto intro: reachable_wf stage_ok_empty)

lemmas reachable_stage = stage.holds

end
