(* ===== verification/Call_Lifecycle.thy ===== *)
theory Call_Lifecycle
  imports Stage_Safety
begin

text \<open>
  The life of a call as an abstract machine, and that the backend refines it: every request moves
  every call by at most one step of \<open>lifecycle\<close>, keeps the parties, the duration and the payment
  of the call, and never rewrites the moment it went live.  The same is said of payment attempts with
  \<open>attempt_step\<close>.  Both are instances of \<open>evolves\<close>, which relates a table to a later one.
\<close>

section \<open>Tables that evolve\<close>

definition evolves :: "('a doc_scheme \<Rightarrow> 'a doc_scheme \<Rightarrow> bool) \<Rightarrow> 'a table \<Rightarrow> 'a table \<Rightarrow> bool" where
  "evolves R t t' \<longleftrightarrow> (\<forall>i d. db_get t i = Some d \<longrightarrow> (\<exists>d'. db_get t' i = Some d' \<and> R d d'))"

lemma evolvesD: "evolves R t t' \<Longrightarrow> db_get t i = Some d \<Longrightarrow> \<exists>d'. db_get t' i = Some d' \<and> R d d'"
  by (simp add: evolves_def)

lemma evolves_insert:
  assumes "wf_table n t" "n \<le> did x" "\<And>d. R d d"
  shows "evolves R t (db_insert t x)"
  using assms(3) tbl.get_ins [OF assms(1,2)] tbl.get_below [OF assms(1)] assms(2)
  by (fastforce simp: evolves_def)

lemma evolves_patch:
  assumes "\<And>d. did (f d) = did d" "\<And>d. R d d" "\<And>d. db_get t i = Some d \<Longrightarrow> R d (f d)"
  shows "evolves R t (db_patch t i f)"
  using assms by (auto simp: evolves_def db_get_patch)

text \<open>What a preorder between documents gives along a run of the system.\<close>

inductive leads_to :: "host \<Rightarrow> db \<Rightarrow> db \<Rightarrow> bool" for h :: host where
  here: "leads_to h s s"
| later: "leads_to h s s' \<Longrightarrow> valid_ctx ctx \<Longrightarrow> leads_to h s (exec h ctx req s')"

lemma leads_to_reachable: "leads_to h s s' \<Longrightarrow> reachable h s \<Longrightarrow> reachable h s'"
  by (induction rule: leads_to.induct) (auto intro: reachable.step)

locale document_history =
  fixes h :: host and T :: "db \<Rightarrow> 'a table" and R :: "'a doc_scheme \<Rightarrow> 'a doc_scheme \<Rightarrow> bool"
  assumes R_refl: "R d d"
    and R_trans: "R d d' \<Longrightarrow> R d' d'' \<Longrightarrow> R d d''"
    and one_step: "reachable h s \<Longrightarrow> valid_ctx ctx \<Longrightarrow> evolves R (T s) (T (exec h ctx req s))"
begin

lemma along_run:
  assumes "leads_to h s s'" "reachable h s"
  shows "evolves R (T s) (T s')"
  using assms
proof (induction rule: leads_to.induct)
  case (here s)
  then show ?case using R_refl by (simp add: evolves_def)
next
  case (later s s' ctx req)
  have "evolves R (T s') (T (exec h ctx req s'))"
    using later.hyps leads_to_reachable later.prems by (blast intro: one_step)
  then show ?case using later.IH [OF later.prems] R_trans unfolding evolves_def by meson
qed

lemma persists:
  "leads_to h s s' \<Longrightarrow> reachable h s \<Longrightarrow> db_get (T s) i = Some d \<Longrightarrow> \<exists>d'. db_get (T s') i = Some d' \<and> R d d'"
  by (blast dest: evolvesD along_run)

end

section \<open>The life of a call\<close>

inductive lifecycle :: "call_status \<Rightarrow> call_status \<Rightarrow> bool" where
  opens: "lifecycle Call_PAYMENT_PENDING Call_CREATED"
| declined: "lifecycle Call_PAYMENT_PENDING Call_FAILED"
| connects: "lifecycle Call_CREATED Call_CONNECTING"
| goes_live: "lifecycle Call_CONNECTING Call_LIVE"
| finishes: "from \<in> {Call_CREATED, Call_CONNECTING, Call_LIVE} \<Longrightarrow> t \<in> {Call_ENDED, Call_FAILED} \<Longrightarrow> lifecycle from t"

code_pred lifecycle .

inductive_simps lifecycle_from [simp]:
  "lifecycle Call_PAYMENT_PENDING t" "lifecycle Call_CREATED t" "lifecycle Call_CONNECTING t"
  "lifecycle Call_LIVE t" "lifecycle Call_ENDED t" "lifecycle Call_FAILED t"

lemma canTransition_lifecycle: "canTransition st t \<Longrightarrow> lifecycle st t"
  by (cases st) (auto simp: canTransition_def)

text \<open>Everything about a call that is fixed when it is created.\<close>

definition call_terms :: "call_doc \<Rightarrow> id \<times> id \<times> id \<times> id \<times> id \<times> selection_mode \<times> int \<times> id option" where
  "call_terms c = (did c, c_showId c, c_queueEntryId c, c_creatorId c, c_viewerId c, c_selectionMode c,
     c_callDurationSeconds c, c_paymentAttemptId c)"

definition call_step :: "call_doc \<Rightarrow> call_doc \<Rightarrow> bool" where
  "call_step c c' \<longleftrightarrow> c' = c \<or> (lifecycle (c_status c) (c_status c') \<and> call_terms c' = call_terms c \<and>
     (if c_status c' = Call_LIVE then c_startedAt c = None \<longrightarrow> c_startedAt c' \<noteq> None
      else c_startedAt c' = c_startedAt c \<and> c_expiresAt c' = c_expiresAt c) \<and>
     (c_startedAt c \<noteq> None \<longrightarrow> c_startedAt c' = c_startedAt c \<and> c_expiresAt c' = c_expiresAt c))"

lemma call_step_refl [simp]: "call_step c c"
  by (simp add: call_step_def)

text \<open>
  What a request does to the calls: nothing, one new call, or one step of one call.  Only requests
  with \<open>live\<close> can make a call go live.
\<close>

definition call_move :: "bool \<Rightarrow> db \<Rightarrow> db \<Rightarrow> bool" where
  "call_move live s s' \<longleftrightarrow> calls s' = calls s
     \<or> (\<exists>x. nextId s \<le> did x \<and> c_status x \<in> {Call_PAYMENT_PENDING, Call_CREATED} \<and> c_startedAt x = None
          \<and> calls s' = db_insert (calls s) x)
     \<or> (\<exists>x f. db_get (calls s) (did x) = Some x \<and> (\<forall>d. did (f d) = did d) \<and> call_step x (f x)
          \<and> (live \<or> c_startedAt (f x) = c_startedAt x) \<and> calls s' = db_patch (calls s) (did x) f)"

lemma call_move_same: "calls s' = calls s \<Longrightarrow> call_move b s s'"
  by (simp add: call_move_def)

lemma call_move_patch:
  "db_get (calls s) (did x) = Some x \<Longrightarrow> (\<And>d. did (f d) = did d) \<Longrightarrow> call_step x (f x) \<Longrightarrow>
   b \<or> c_startedAt (f x) = c_startedAt x \<Longrightarrow> calls s' = db_patch (calls s) (did x) f \<Longrightarrow> call_move b s s'"
  unfolding call_move_def by blast

lemma call_move_from:
  "call_move b s1 s' \<Longrightarrow> calls s1 = calls s \<Longrightarrow> nextId s \<le> nextId s1 \<Longrightarrow> call_move b s s'"
  unfolding call_move_def by (auto intro: le_trans)

lemma call_move_evolves:
  assumes "call_move b s s'" "wf_db s"
  shows "evolves call_step (calls s) (calls s')"
proof -
  consider "calls s' = calls s"
    | x where "nextId s \<le> did x" "calls s' = db_insert (calls s) x"
    | x f where "db_get (calls s) (did x) = Some x" "\<forall>d. did (f d) = did d" "call_step x (f x)"
        "calls s' = db_patch (calls s) (did x) f"
    using assms(1) unfolding call_move_def by blast
  then show ?thesis
  proof cases
    case 1
    then show ?thesis by (simp add: evolves_def)
  next
    case 2
    then show ?thesis using evolves_insert [OF wf_calls [OF assms(2)]] by simp
  next
    case 3
    then show ?thesis by (simp, intro evolves_patch) auto
  qed
qed

lemma applyTransition_move:
  assumes "applyTransition c call t s = Inr (x, s')" "db_get (calls s) (did call) = Some call" "t = Call_LIVE \<Longrightarrow> b"
  shows "call_move b s s'"
proof (cases rule: applyTransition_cases [OF assms(1)])
  case 1
  then show ?thesis by (simp add: call_move_same)
next
  case 2
  then show ?thesis
    using canTransition_lifecycle [OF 2(1)] assms(3)
    by (intro call_move_patch [OF assms(2) _ _ _ 2(3)])
       (auto simp: callPatch_def call_step_def call_terms_def goesLive_def)
qed

lemma recordCaptured_move:
  assumes "wf_db s" "db_get (paymentAttempts s) (did a) = Some a"
  shows "call_move b s (recordCaptured c a s)"
proof -
  have get: "db_get (calls s) (did x) = Some x" if "callForAttempt s (did a) = Some x" for x
    using callForAttempt_SomeD [OF that] wf_calls [OF assms(1)] by (simp add: db_get_in)
  show ?thesis
  proof (cases rule: recordCaptured_cases [OF assms(2), of c])
    case 1
    then show ?thesis by (simp add: call_move_same)
  next
    case (2 x)
    then show ?thesis
      by (intro call_move_patch [OF get [OF 2(1)] _ _ _ 2(4)]) (auto simp: call_step_def call_terms_def)
  next
    case (3 x)
    then show ?thesis
      by (intro call_move_patch [OF get [OF 3(1)] _ _ _ 3(5)]) (auto simp: call_step_def call_terms_def)
  next
    case (4 x)
    then show ?thesis by (simp add: call_move_same)
  qed
qed

lemma recordNotCaptured_calls:
  "calls (recordNotCaptured c a st code s) = (case callForAttempt s (did a) of
      Some x \<Rightarrow> if c_status x = Call_PAYMENT_PENDING \<and> pa_status a \<noteq> Pay_CAPTURED
        then db_patch (calls s) (did x) (\<lambda>d. d\<lparr>c_status := Call_FAILED, c_endedAt := Some (now c)\<rparr>) else calls s
    | None \<Rightarrow> calls s)"
  by (simp add: recordNotCaptured_def releaseEntry_def Let_def callForAttempt_def split: option.split)

lemma recordNotCaptured_move:
  assumes "wf_db s"
  shows "call_move b s (recordNotCaptured c a st code s)"
proof (cases "callForAttempt s (did a)")
  case None
  then show ?thesis by (simp add: call_move_same recordNotCaptured_calls)
next
  case (Some x)
  then have x: "db_get (calls s) (did x) = Some x"
    using callForAttempt_SomeD [OF Some] wf_calls [OF assms] by (simp add: db_get_in)
  show ?thesis
  proof (cases "c_status x = Call_PAYMENT_PENDING \<and> pa_status a \<noteq> Pay_CAPTURED")
    case True
    then show ?thesis
      by (intro call_move_patch [OF x]) (auto simp: recordNotCaptured_calls Some call_step_def call_terms_def)
  next
    case False
    then show ?thesis by (auto simp: call_move_same recordNotCaptured_calls Some)
  qed
qed

lemma createCall_move:
  assumes "createCall c sh e m s = Inr (v, s')"
  shows "call_move b s s'"
proof -
  have "calls s' = db_insert (calls s) (newCall c (nextId s) sh e m (holdOf s e))"
    using assms by (auto simp: createCall_def Let_def openCall_def startCapture_def split: if_splits option.splits)
  then show ?thesis by (auto simp: call_move_def newCall_def intro!: exI)
qed


lemma transition_move:
  assumes "applyTransition c call t s = Inr (x, s')" "db_get (calls s) i = Some call" "t = Call_LIVE \<Longrightarrow> b"
  shows "call_move b s s'"
  using applyTransition_move [OF assms(1) db_get_self [OF assms(2)] assms(3)] .

lemma endOpenCall_move:
  assumes "endOpenCall c i s = Inr s'" "wf_db s"
  shows "call_move b s s'"
  using assms(1)
  by (auto simp: endOpenCall_def call_move_same split: option.splits if_splits
      dest!: activeCallForShow_SomeD intro: transition_move db_get_in [OF wf_calls [OF assms(2)]])

lemma recordEvent_frame: "calls (recordEvent c a s) = calls s" "paymentAttempts (recordEvent c a s) = paymentAttempts s"
  "nextId s \<le> nextId (recordEvent c a s)" "shows_tbl (recordEvent c a s) = shows_tbl s"
  by (simp_all add: recordEvent_def)

lemma recordEvent_wf: "wf_db s \<Longrightarrow> wf_db (recordEvent c a s)"
  using wf_intros by (simp add: sat_def)

lemma applyIntent_move:
  assumes "wf_db s"
  shows "call_move b s (applyIntent c ty i s)"
proof (cases "attemptForIntent s (Some (wi_id i))")
  case None
  then show ?thesis by (simp add: applyIntent_def call_move_same)
next
  case (Some a)
  then have "a \<in> set (paymentAttempts s)"
    by (auto simp: attemptForIntent_def split: if_splits dest: first_by_SomeD)
  then have a: "db_get (paymentAttempts s) (did a) = Some a"
    using wf_attempts [OF assms] by (simp add: db_get_in)
  have "call_move b s s1 \<Longrightarrow> call_move b s (patchAttempt j f s1)" for s1 j f
    by (simp add: call_move_def)
  then show ?thesis
    using recordCaptured_move [OF assms a, of b c] recordNotCaptured_move [OF assms, of b c a]
    by (simp add: applyIntent_def Some Let_def)
qed

lemma webhook_move:
  assumes "wf_db s"
  shows "call_move b s (webhooks_apply c a s)"
proof (cases "wh_intent a")
  case None
  then show ?thesis
    using sameD(5) [OF other_event_same [OF None, of "recordEvent c a s" c]]
    by (simp add: webhooks_apply_def call_move_same recordEvent_frame)
next
  case (Some i)
  have "call_move b s (applyIntent c (wh_type a) i (recordEvent c a s))"
    by (rule call_move_from [OF applyIntent_move [OF recordEvent_wf [OF assms]]]) (simp_all add: recordEvent_frame)
  then show ?thesis using Some by (simp add: webhooks_apply_def applyEvent_def call_move_same)
qed

lemma captures_move:
  assumes "wf_db s"
  shows "call_move b s (payments_captured c i s)" "call_move b s (payments_notCaptured c i st code s)"
  using recordCaptured_move [OF assms] recordNotCaptured_move [OF assms]
  by (auto simp: payments_captured_def payments_notCaptured_def call_move_same split: option.split dest: db_get_self)

lemma shows_end_move:
  assumes "wf_db s"
  shows "ensures (call_move b s) (shows_end c i s)"
proof -
  have "call_move b s s2" if "endOpenCall c i (onShowEnded c sh (patchShow i f s)) = Inr s2"
    "\<And>d. did (f d) = did d" for sh f s2
  proof -
    have "sat wf_db (onShowEnded c sh (patchShow i f s))"
      using assms that(2) by (intro wf_intros) (auto simp: sat_def)
    then show ?thesis
      using call_move_from [OF endOpenCall_move [OF that(1)]] by (simp add: sat_def)
  qed
  moreover have "call_move b s (runAfter c d j s') = call_move b s s'" for d j s'
    by (simp add: call_move_def)
  ultimately show ?thesis
    unfolding shows_end_def Let_def by (intro sat_intros) (auto simp: sat_def call_move_same)
qed

lemma stage_moves:
  assumes "wf_db s"
  shows "ensures (call_move b s) (calls_select c i e s)" "ensures (call_move b s) (calls_selectRandom c i s)"
    "(t = Call_LIVE \<Longrightarrow> b) \<Longrightarrow> ensures (call_move b s) (calls_transition c i t s)" "ensuresDb (call_move b s) (calls_expire c i s)"
    "ensuresDb (call_move b s) (presence_checkGrace c i r d s)"
  by (auto simp: calls_select_def calls_selectRandom_def calls_transition_def calls_expire_def
      presence_checkGrace_def ensures_def ensuresDb_def sat_def call_move_same
      split: option.splits if_splits dest!: callForParticipant_InrD
      intro: createCall_move transition_move)

definition may_go_live :: "request \<Rightarrow> bool" where
  "may_go_live r \<longleftrightarrow> (\<exists>i. r = Stage (TransitionCall i Call_LIVE))"

lemma exec_call_move:
  assumes "wf_db s"
  shows "call_move (may_go_live r) s (exec h c r s)"
proof (cases "T_calls \<in> writes r")
  case False
  then show ?thesis using sameD(5) [OF exec_same] by (simp add: call_move_same)
next
  case True
  have sat: "sat (call_move b s) s" for b by (simp add: sat_def call_move_same)
  show ?thesis
  proof (cases r)
    case (Stage q)
    then show ?thesis using True
      by (cases q) (simp_all add: sat_commit [OF sat, unfolded sat_def] sat_commitDb [OF sat, unfolded sat_def]
          stage_moves [OF assms] shows_end_move [OF assms] may_go_live_def)
  next
    case (Money q)
    then show ?thesis using True
      by (cases q) (simp_all add: captures_move [OF assms] webhook_move [OF assms])
  next
    case (Social q)
    then show ?thesis using True by (cases q) simp_all
  qed
qed


definition call_future :: "call_doc \<Rightarrow> call_doc \<Rightarrow> bool" where
  "call_future c c' \<longleftrightarrow> lifecycle\<^sup>*\<^sup>* (c_status c) (c_status c') \<and> call_terms c' = call_terms c \<and>
     (c_startedAt c \<noteq> None \<longrightarrow> c_startedAt c' = c_startedAt c \<and> c_expiresAt c' = c_expiresAt c) \<and>
     (c_status c \<in> {Call_ENDED, Call_FAILED} \<longrightarrow> c' = c)"

lemma call_step_future: "call_step c c' \<Longrightarrow> call_future c c'"
  by (auto simp: call_step_def call_future_def)

lemma call_future_trans: "call_future c c' \<Longrightarrow> call_future c' c'' \<Longrightarrow> call_future c c''"
  by (auto simp: call_future_def)

interpretation call_log: document_history h calls call_future for h
proof unfold_locales
  fix d d' d'' :: call_doc and s ctx req
  show "call_future d d" by (simp add: call_future_def)
  show "call_future d d' \<Longrightarrow> call_future d' d'' \<Longrightarrow> call_future d d''" by (rule call_future_trans)
  assume "reachable h s" "valid_ctx ctx"
  then show "evolves call_future (calls s) (calls (exec h ctx req s))"
    using call_move_evolves [OF exec_call_move] call_step_future reachable_wf unfolding evolves_def by meson
qed

section \<open>The life of a payment attempt\<close>

text \<open>The order in which an attempt moves; a capture that succeeds is final.\<close>

fun pay_rank :: "payment_status \<Rightarrow> nat" where
  "pay_rank Pay_CREATED = 0"
| "pay_rank Pay_AUTHORIZED = 1"
| "pay_rank Pay_CAPTURING = 2"
| "pay_rank Pay_CANCELED = 3"
| "pay_rank Pay_FAILED = 3"
| "pay_rank Pay_CAPTURED = 4"

lemma pay_rank_captured: "4 \<le> pay_rank st \<longleftrightarrow> st = Pay_CAPTURED"
  by (cases st) simp_all

text \<open>What \<open>prepare\<close> fixes: parties, tier, amount and the fee snapshot.\<close>

definition attempt_terms :: "attempt_doc \<Rightarrow> attempt_doc" where
  "attempt_terms a = a\<lparr>pa_queueEntryId := None, pa_stripePaymentIntentId := None, pa_status := Pay_CREATED,
     pa_failureCode := None, pa_authorizedAt := None, pa_capturedAt := None, pa_canceledAt := None,
     pa_savedPaymentMethodId := None\<rparr>"

definition attempt_step :: "attempt_doc \<Rightarrow> attempt_doc \<Rightarrow> bool" where
  "attempt_step a a' \<longleftrightarrow> attempt_terms a' = attempt_terms a \<and> pay_rank (pa_status a) \<le> pay_rank (pa_status a') \<and>
     (truthy (pa_stripePaymentIntentId a) \<longrightarrow> pa_stripePaymentIntentId a' = pa_stripePaymentIntentId a) \<and>
     (pa_queueEntryId a \<noteq> None \<longrightarrow> pa_queueEntryId a' = pa_queueEntryId a)"

lemma attempt_step_refl [simp]: "attempt_step a a"
  by (simp add: attempt_step_def)

lemma attempt_step_trans: "attempt_step a b \<Longrightarrow> attempt_step b c \<Longrightarrow> attempt_step a c"
  by (auto simp: attempt_step_def)

text \<open>A new attempt is priced from a tier of its show, with the fees of the show's creator.\<close>

definition priced :: "db \<Rightarrow> attempt_doc \<Rightarrow> bool" where
  "priced s a \<longleftrightarrow> (\<exists>tier\<in>set (showTiers s). \<exists>sh\<in>set (shows_tbl s).
     pa_showId a = did sh \<and> pa_tierId a = did tier \<and> ti_showId tier = did sh \<and> pa_creatorId a = sh_creatorId sh \<and>
     pa_amountCents a = ti_priceCents tier \<and> 0 < ti_priceCents tier \<and> pa_currency a = ''usd'' \<and>
     (let f = paymentFees (ti_priceCents tier) (creatorFeeBps (db_get (users s) (sh_creatorId sh)))
      in pa_platformFeeBps a = fee_platformFeeBps f \<and> pa_platformFeeCents a = fee_platformFeeCents f \<and>
         pa_basicCardFeeCents a = fee_basicCardFeeCents f \<and>
         pa_creatorProcessingFeeCents a = fee_creatorProcessingFeeCents f))"

lemma attempt_terms_fields:
  assumes "attempt_terms a' = attempt_terms a"
  shows "did a' = did a" "pa_showId a' = pa_showId a" "pa_creatorId a' = pa_creatorId a" "pa_tierId a' = pa_tierId a"
    "pa_payerId a' = pa_payerId a" "pa_amountCents a' = pa_amountCents a" "pa_currency a' = pa_currency a"
    "pa_platformFeeBps a' = pa_platformFeeBps a" "pa_platformFeeCents a' = pa_platformFeeCents a"
    "pa_basicCardFeeCents a' = pa_basicCardFeeCents a"
    "pa_creatorProcessingFeeCents a' = pa_creatorProcessingFeeCents a"
  using arg_cong [OF assms, of did] arg_cong [OF assms, of pa_showId] arg_cong [OF assms, of pa_creatorId]
    arg_cong [OF assms, of pa_tierId] arg_cong [OF assms, of pa_payerId] arg_cong [OF assms, of pa_amountCents]
    arg_cong [OF assms, of pa_currency] arg_cong [OF assms, of pa_platformFeeBps]
    arg_cong [OF assms, of pa_platformFeeCents] arg_cong [OF assms, of pa_basicCardFeeCents]
    arg_cong [OF assms, of pa_creatorProcessingFeeCents]
  by (simp_all add: attempt_terms_def)

lemma priced_terms:
  assumes "attempt_terms a' = attempt_terms a"
  shows "priced s a' = priced s a"
  unfolding priced_def by (simp only: attempt_terms_fields [OF assms])

definition attempts_from :: "db \<Rightarrow> db \<Rightarrow> bool" where
  "attempts_from s0 s \<longleftrightarrow> evolves attempt_step (paymentAttempts s0) (paymentAttempts s) \<and>
     (\<forall>a\<in>set (paymentAttempts s). did a \<in> did ` set (paymentAttempts s0) \<or> priced s0 a)"

lemma attempts_from_refl: "attempts_from s s"
  by (simp add: attempts_from_def evolves_def)

lemma attempts_from_same:
  "sat (attempts_from s0) s \<Longrightarrow> paymentAttempts s' = paymentAttempts s \<Longrightarrow> sat (attempts_from s0) s'"
  by (simp add: sat_def attempts_from_def)

lemma attempts_from_patch:
  assumes "sat (attempts_from s0) s" "\<And>d. did (f d) = did d" "\<And>d. attempt_terms (f d) = attempt_terms d"
    "\<And>d. db_get (paymentAttempts s) i = Some d \<Longrightarrow> attempt_step d (f d)"
  shows "sat (attempts_from s0) (patchAttempt i f s)"
proof -
  have "evolves attempt_step (paymentAttempts s) (paymentAttempts (patchAttempt i f s))"
    using assms(2,4) by (simp add: evolves_patch)
  then have "evolves attempt_step (paymentAttempts s0) (paymentAttempts (patchAttempt i f s))"
    using assms(1) attempt_step_trans unfolding sat_def attempts_from_def evolves_def by meson
  moreover have "did a \<in> did ` set (paymentAttempts s0) \<or> priced s0 a"
    if "a \<in> set (paymentAttempts (patchAttempt i f s))" for a
  proof -
    from that obtain d where "d \<in> set (paymentAttempts s)" "did a = did d" "attempt_terms a = attempt_terms d"
      using assms(2,3) by (auto elim: in_db_patchE)
    then show ?thesis
      using assms(1) priced_terms [of a d] by (auto simp: sat_def attempts_from_def)
  qed
  ultimately show ?thesis by (simp add: sat_def attempts_from_def)
qed

lemma recordCaptured_attempts:
  assumes "sat (attempts_from s0) s" "db_get (paymentAttempts s) (did a) = Some a"
  shows "sat (attempts_from s0) (recordCaptured c a s)"
proof -
  have "sat (attempts_from s0) (markCaptured c a s)"
    unfolding markCaptured_def using assms
    by (auto intro!: attempts_from_patch simp: attempt_step_def attempt_terms_def) (metis pay_rank.simps(6) nat_le_linear pay_rank_captured)
  then show ?thesis
    by (rule attempts_from_same)
       (simp add: recordCaptured_def Let_def failPendingCall_def split: option.split)
qed

lemma recordNotCaptured_attempts:
  assumes "sat (attempts_from s0) s" "db_get (paymentAttempts s) (did a) = Some a"
    "st = Pay_CANCELED \<or> st = Pay_FAILED"
  shows "sat (attempts_from s0) (recordNotCaptured c a st code s)"
proof (cases "pa_status a = Pay_CAPTURED")
  case True
  then show ?thesis using assms(1) by (simp add: recordNotCaptured_def)
next
  case False
  let ?f = "\<lambda>d. d\<lparr>pa_status := st, pa_failureCode := code, pa_canceledAt := (if st = Pay_CANCELED
      then Some (case pa_canceledAt a of Some t \<Rightarrow> t | None \<Rightarrow> now c) else pa_canceledAt d)\<rparr>"
  have "pay_rank (pa_status a) \<le> 3" using False by (cases "pa_status a") simp_all
  then have "sat (attempts_from s0) (patchAttempt (did a) ?f s)"
    using assms by (intro attempts_from_patch) (auto simp: attempt_step_def attempt_terms_def)
  then show ?thesis
    by (rule attempts_from_same)
       (simp add: recordNotCaptured_def False Let_def releaseEntry_def split: option.split)
qed

lemma attempt_of_intent:
  "attemptForIntent s i = Some a \<Longrightarrow> wf_db s \<Longrightarrow> db_get (paymentAttempts s) (did a) = Some a"
  by (auto simp: attemptForIntent_def db_get_in [OF wf_attempts] split: if_splits dest!: first_by_SomeD)

lemma applyIntent_attempts:
  assumes "sat (attempts_from s0) s" "wf_db s"
  shows "sat (attempts_from s0) (applyIntent c ty i s)"
proof (cases "attemptForIntent s (Some (wi_id i))")
  case None
  then show ?thesis using assms(1) by (simp add: applyIntent_def)
next
  case (Some a)
  note a = attempt_of_intent [OF Some assms(2)]
  show ?thesis
    using recordCaptured_attempts [OF assms(1) a, of c] recordNotCaptured_attempts [OF assms(1) a, of _ c]
    by (simp add: applyIntent_def Some Let_def)
       (auto intro!: attempts_from_patch simp: attempt_step_def attempt_terms_def)
qed

lemma webhook_attempts:
  assumes "wf_db s"
  shows "attempts_from s (webhooks_apply c a s)"
proof -
  have start: "sat (attempts_from s) (recordEvent c a s)"
    by (rule attempts_from_same [of s s]) (simp_all add: sat_def attempts_from_refl recordEvent_frame)
  show ?thesis
  proof (cases "wh_intent a")
    case None
    then show ?thesis
      using attempts_from_same [OF start sameD(9) [OF other_event_same [OF None]]] attempts_from_refl
      by (simp add: webhooks_apply_def sat_def)
  next
    case (Some i)
    then show ?thesis
      using applyIntent_attempts [OF start recordEvent_wf [OF assms]] attempts_from_refl
      by (simp add: webhooks_apply_def applyEvent_def sat_def)
  qed
qed


lemma captures_attempts:
  "attempts_from s (payments_captured c i s)"
  "attempts_from s (payments_notCaptured c i (if b then Pay_CANCELED else Pay_FAILED) code s)"
proof -
  have start: "sat (attempts_from s) s" by (simp add: sat_def attempts_from_refl)
  show "attempts_from s (payments_captured c i s)"
    "attempts_from s (payments_notCaptured c i (if b then Pay_CANCELED else Pay_FAILED) code s)"
    using start recordCaptured_attempts [OF start] recordNotCaptured_attempts [OF start]
    by (auto simp: payments_captured_def payments_notCaptured_def sat_def split: option.split dest: db_get_self)
qed

lemma markAuthorized_attempts: "attempts_from s (markAuthorized c i s)"
proof -
  have "sat (attempts_from s) (markAuthorized c i s)"
    unfolding markAuthorized_def
    by (intro sat_intros attempts_from_patch)
       (auto simp: sat_def attempts_from_refl attempt_step_def attempt_terms_def)
  then show ?thesis by (simp add: sat_def)
qed

lemma prepare_attempts:
  assumes "wf_db s"
  shows "ensures (attempts_from s) (prepare c i t k cu s)"
proof -
  have new: "attempts_from s (bumpId (paymentAttempts_update (\<lambda>tb. db_insert tb (newAttempt c (nextId s) p sh tier k cu f)) s))"
    if "db_get (shows_tbl s) i = Some sh" "db_get (showTiers s) t = Some tier" "ti_showId tier = did sh"
      "0 < ti_priceCents tier" "f = paymentFees (ti_priceCents tier) (creatorFeeBps (db_get (users s) (sh_creatorId sh)))"
    for p sh tier f
  proof -
    have "priced s (newAttempt c (nextId s) p sh tier k cu f)"
      using that by (auto simp: priced_def newAttempt_def Let_def dest!: db_get_SomeD)
    then show ?thesis
      using evolves_insert [OF wf_attempts [OF assms]] by (simp add: attempts_from_def newAttempt_def)
  qed
  show ?thesis
    unfolding prepare_def Let_def
    by (intro sat_intros)
       (auto simp: ensures_def sat_def attempts_from_refl split: option.splits if_splits intro!: new)
qed

lemma attachIntent_attempts: "ensures (attempts_from s) (attachIntent i p s)"
  unfolding attachIntent_def
  by (intro sat_intros attempts_from_patch)
     (auto simp: sat_def attempts_from_refl attempt_step_def attempt_terms_def truthy_def)

lemma attachEntry_attempts:
  assumes "sat (attempts_from s0) s"
    and "\<And>a. attempt = Some a \<Longrightarrow> db_get (paymentAttempts s) (did a) = Some a
           \<and> (pa_queueEntryId a = None \<or> pa_queueEntryId a = Some i)"
  shows "sat (attempts_from s0) (attachEntry attempt i s)"
  unfolding attachEntry_def using assms
  by (intro sat_intros attempts_from_patch) (auto simp: attempt_step_def attempt_terms_def)

lemma writeEntry_attempts:
  assumes hold: "\<And>a. attempt = Some a \<Longrightarrow> db_get (paymentAttempts s) (did a) = Some a"
    and usable: "attempt \<noteq> None \<Longrightarrow> usableAttempt v args tier existing attempt"
  shows "attempts_from s (snd (writeEntry c v args tier existing attempt s))"
proof -
  have entry: "pa_queueEntryId a = None \<or> pa_queueEntryId a = map_option did existing" if "attempt = Some a" for a
    using usable that by (simp add: usableAttempt_def)
  have "sat (attempts_from s) (snd (writeEntry c v args tier existing attempt s))"
  proof (cases existing)
    case None
    show ?thesis unfolding writeEntry_def None option.case snd_conv
      by (rule attachEntry_attempts) (use hold entry None in \<open>auto simp: sat_def attempts_from_def evolves_def\<close>)
  next
    case (Some e)
    show ?thesis unfolding writeEntry_def Some option.case snd_conv
      by (rule attachEntry_attempts) (use hold entry Some in \<open>auto simp: sat_def attempts_from_def evolves_def\<close>)
  qed
  then show ?thesis by (simp add: sat_def)
qed

lemma joinQueue_Inr:
  assumes "joinQueue c v args p s = Inr (e, s')"
  obtains x where "s' = s" "e = Some x" "entryOf s (ja_showId args) v = Some x" "q_status x \<noteq> Q_LEFT"
  | tier attempt i where "showIsLive s (ja_showId args)" "tierForJoin s args = Some tier"
    "ti_showId tier = ja_showId args" "ti_enabled tier"
    "attempt = (if ti_priceCents tier > 0 then Option.bind p (db_get (paymentAttempts s)) else None)"
    "attempt \<noteq> None \<or> ti_priceCents tier > 0 \<Longrightarrow> usableAttempt v args tier (entryOf s (ja_showId args) v) attempt"
    "\<And>x. entryOf s (ja_showId args) v = Some x \<Longrightarrow> q_status x = Q_LEFT"
    "writeEntry c v args tier (entryOf s (ja_showId args) v) attempt s = (i, s')"
    "e = db_get (queueEntries s') i"
proof -
  obtain tier where tier: "showIsLive s (ja_showId args)" "tierForJoin s args = Some tier"
    "ti_showId tier = ja_showId args" "ti_enabled tier"
    using assms by (auto simp: joinQueue_def Let_def split: if_splits option.splits)
  let ?existing = "entryOf s (ja_showId args) v"
  let ?attempt = "if ti_priceCents tier > 0 then Option.bind p (db_get (paymentAttempts s)) else None"
  have bind: "Option.bind p (db_get (paymentAttempts s)) =
      (case p of Some i \<Rightarrow> db_get (paymentAttempts s) i | None \<Rightarrow> None)" by (cases p) simp_all
  show ?thesis
  proof (cases "\<exists>x. ?existing = Some x \<and> q_status x \<noteq> Q_LEFT")
    case True
    then obtain x where x: "?existing = Some x" "q_status x \<noteq> Q_LEFT" by blast
    then have "s' = s \<and> e = Some x" using assms tier by (simp add: joinQueue_def Let_def split: if_splits)
    then show ?thesis using that(1) x by blast
  next
    case False
    then have none: "(case ?existing of Some e \<Rightarrow> q_status e \<noteq> Q_LEFT | None \<Rightarrow> False) = False"
      by (auto split: option.split)
    obtain i s1 where w: "writeEntry c v args tier ?existing ?attempt s = (i, s1)" by force
    have "\<not> (ti_priceCents tier > 0 \<and> \<not> usableAttempt v args tier ?existing ?attempt)"
      "e = db_get (queueEntries s1) i \<and> s1 = s'"
      using assms tier none w by (auto simp: joinQueue_def Let_def bind split: if_splits)
    then show ?thesis using tier False w by (intro that(2) [of tier ?attempt i]) (auto split: if_splits)
  qed
qed

lemma join_attempts:
  "ensures (attempts_from s) (queue_join c args s)" "ensures (attempts_from s) (joinWithPayment c args p s)"
proof -
  have join: "attempts_from s s'" if "joinQueue c v args q s = Inr (e, s')" for v q e s'
  proof (cases rule: joinQueue_Inr [OF that])
    case 1
    then show ?thesis by (simp add: attempts_from_refl)
  next
    case (2 tier attempt i)
    have "db_get (paymentAttempts s) (did a) = Some a" if "attempt = Some a" for a
      using that 2(5) by (cases q) (auto split: if_splits dest: db_get_self)
    then show ?thesis
      using writeEntry_attempts [of attempt s v args tier _ c] 2(6,8) by (metis snd_conv)
  qed
  show "ensures (attempts_from s) (queue_join c args s)" "ensures (attempts_from s) (joinWithPayment c args p s)"
    unfolding queue_join_def joinWithPayment_def using join by (auto simp: ensures_def sat_def)
qed

lemma selection_attempts:
  "ensures (attempts_from s) (calls_select c i e s)" "ensures (attempts_from s) (calls_selectRandom c i s)"
proof -
  have "ensures (attempts_from s) (createCall c sh q m s)" for sh q m
  proof -
    have "sat (attempts_from s) (openCall c sh q m (holdOf s q) s)"
      if "\<And>a. holdOf s q = Some a \<Longrightarrow> pa_status a = Pay_AUTHORIZED"
    proof (cases "holdOf s q")
      case None
      then show ?thesis by (simp add: openCall_def startCapture_def sat_def attempts_from_def evolves_def)
    next
      case (Some a)
      then have a: "db_get (paymentAttempts s) (did a) = Some a"
        by (auto simp: holdOf_def split: if_splits option.splits dest: db_get_self)
      have "sat (attempts_from s) (patchAttempt (did a) (\<lambda>d. d\<lparr>pa_status := Pay_CAPTURING\<rparr>) s)"
        using a that [OF Some]
        by (intro attempts_from_patch) (auto simp: sat_def attempts_from_refl attempt_step_def attempt_terms_def)
      then show ?thesis
        by (rule attempts_from_same) (simp add: openCall_def startCapture_def Some)
    qed
    then show ?thesis
      by (auto simp: createCall_def Let_def ensures_def holdOf_def split: if_splits option.splits)
  qed
  then show "ensures (attempts_from s) (calls_select c i e s)" "ensures (attempts_from s) (calls_selectRandom c i s)"
    unfolding calls_select_def calls_selectRandom_def by (intro sat_intros; assumption)+
qed

lemma exec_attempts:
  assumes "wf_db s"
  shows "attempts_from s (exec h c r s)"
proof (cases "T_paymentAttempts \<in> writes r")
  case False
  then show ?thesis using sameD(9) [OF exec_same] by (simp add: attempts_from_def evolves_def)
next
  case True
  have sat: "sat (attempts_from s) s" by (simp add: sat_def attempts_from_refl)
  show ?thesis
  proof (cases r)
    case (Stage q)
    then show ?thesis using True
      by (cases q) (simp_all add: sat_commit [OF sat, unfolded sat_def] join_attempts selection_attempts)
  next
    case (Money q)
    then show ?thesis using True
      by (cases q) (simp_all add: sat_commit [OF sat, unfolded sat_def] captures_attempts webhook_attempts [OF assms]
          prepare_attempts [OF assms] attachIntent_attempts markAuthorized_attempts split del: if_split)
  next
    case (Social q)
    then show ?thesis using True by (cases q) simp_all
  qed
qed

interpretation attempt_log: document_history h paymentAttempts attempt_step for h
proof unfold_locales
  fix d d' d'' :: attempt_doc and s ctx req
  show "attempt_step d d" by simp
  show "attempt_step d d' \<Longrightarrow> attempt_step d' d'' \<Longrightarrow> attempt_step d d''" by (rule attempt_step_trans)
  assume "reachable h s" "valid_ctx ctx"
  then show "evolves attempt_step (paymentAttempts s) (paymentAttempts (exec h ctx req s))"
    using exec_attempts reachable_wf unfolding attempts_from_def by blast
qed

end
