(* ===== verification/Demo.thy ===== *)
theory Demo
  imports Call_Lifecycle
begin

text \<open>
  A concrete evening on Bling, evaluated with the model: a creator signs up, connects a payout
  account, configures a paid and a free tier and goes live; a caller authorizes a card and joins the
  paid tier; the creator picks the caller, Stripe captures, the call connects and goes live; a second
  caller joins the free tier; then support refunds the payment in two parts from the Stripe dashboard,
  and the card holder disputes it and loses.  Its databases are the instances at which the properties are exercised.
\<close>

definition demo_env :: env where
  "demo_env = \<lparr>CREATOR_EARNINGS_HOLD_HOURS = Unset, CREATOR_PAYOUT_DAY = Unset,
     CREATOR_PAYOUT_MINIMUM_CENTS = IntNum 100, CREATOR_PAYOUTS_ENABLED = Some ''true'',
     CREATOR_PAYOUT_CURRENCY = None, STRIPE_CONNECT_COUNTRY = None\<rparr>"

definition demo_host :: host where
  "demo_host = \<lparr>host_json = (\<lambda>_. True), host_parseUrl = (\<lambda>_. None), host_getUrl = (\<lambda>_. None)\<rparr>"

definition by_user :: "id option \<Rightarrow> int \<Rightarrow> ctx" where
  "by_user u t = \<lparr>authUserId = u, now = t, rnd = 1/2, env_of = demo_env\<rparr>"

definition demo_user :: "string option \<Rightarrow> user_doc" where
  "demo_user name = \<lparr>did = 0, ctime = 0, u_name = None, u_image = None, u_email = None,
     u_emailVerificationTime = None, u_phone = None, u_phoneVerificationTime = None,
     u_isAnonymous = (if name = None then Some True else None), u_username = name, u_platformFeeBps = None\<rparr>"

definition demo_account :: account_doc where
  "demo_account = \<lparr>did = 0, ctime = 0, ac_creatorId = 0, ac_stripeAccountId = ''acct_1'',
     ac_transfersStatus = ''active'', ac_bankPayoutsStatus = ''active'', ac_externalAccountPresent = True,
     ac_externalAccountBankName = None, ac_externalAccountLast4 = None, ac_externalAccountCurrency = None,
     ac_detailsSubmitted = True, ac_requirementsDue = []\<rparr>"

definition demo_tiers :: "tier_input list" where
  "demo_tiers = [\<lparr>tin_name = ''VIP'', tin_callDurationSeconds = 60, tin_priceCents = 500, tin_enabled = True\<rparr>,
     \<lparr>tin_name = ''Standard'', tin_callDurationSeconds = 300, tin_priceCents = 0, tin_enabled = True\<rparr>]"

definition demo_join :: "id \<Rightarrow> join_args" where
  "demo_join tier = \<lparr>ja_showId = 5, ja_tierId = Some tier, ja_displayName = ''Sam'', ja_topic = ''hello''\<rparr>"

definition stripe_args :: "string \<Rightarrow> string \<Rightarrow> apply_args" where
  "stripe_args ev ty = \<lparr>wh_eventId = ev, wh_type = ty, wh_connectedAccountId = None, wh_intent = None,
     wh_refund = None, wh_dispute = None, wh_payout = None, wh_accountId = None\<rparr>"

definition demo_refund :: "string \<Rightarrow> string \<Rightarrow> int \<Rightarrow> apply_args" where
  "demo_refund ev i n = (stripe_args ev ''refund.updated'')\<lparr>wh_refund := Some \<lparr>wr_id = i,
     wr_intentId = Some ''pi_1'', wr_status = ''succeeded'', wr_failureReason = None, wr_amountCents = Some n,
     wr_currency = Some ''usd''\<rparr>\<rparr>"

definition demo_dispute :: "string \<Rightarrow> string \<Rightarrow> apply_args" where
  "demo_dispute ev status = (stripe_args ev ''charge.dispute.updated'')\<lparr>wh_dispute := Some \<lparr>wd_id = ''dp_1'',
     wd_intentId = Some ''pi_1'', wd_amountCents = 500, wd_currency = ''usd'', wd_reason = ''fraudulent'',
     wd_status = status, wd_evidenceDueAt = None\<rparr>\<rparr>"

text \<open>Ids are handed out in order: creator 0 (profile 1), callers 2 and 3, account 4, show 5.\<close>

definition demo_script :: "(ctx \<times> request) list" where
  "demo_script =
    [(by_user None 0, Social (CreateUser None (demo_user (Some ''alice'')))),
     (by_user None 0, Social (CreateUser None (demo_user None))),
     (by_user None 0, Social (CreateUser None (demo_user None))),
     (by_user None 0, Money (SaveAccount 0 demo_account)),
     (by_user (Some 0) 1000, Stage CreateShow),
     (by_user (Some 0) 2000, Stage (ReplaceTiers 5 demo_tiers)),
     (by_user (Some 0) 3000, Stage (StartShow 5)),
     (by_user (Some 2) 4000, Money (PreparePayment 5 7 ''k1'' None)),
     (by_user (Some 2) 4000, Money (AttachIntent 10 ''pi_1'')),
     (by_user (Some 2) 4500, Money (MarkAuthorized 10)),
     (by_user (Some 2) 5000, Stage (JoinWithPayment (demo_join 7) 10)),
     (by_user (Some 3) 6000, Stage (JoinQueue (demo_join 8))),
     (by_user (Some 0) 7000, Stage (SelectCaller 5 11)),
     (by_user None 8000, Money (CapturedPayment 10)),
     (by_user (Some 0) 9000, Stage (TransitionCall 13 Call_CONNECTING)),
     (by_user (Some 2) 9500, Stage (CallHeartbeat 13)),
     (by_user (Some 2) 10000, Stage (TransitionCall 13 Call_LIVE)),
     (by_user None 11000, Money (StripeEvent (demo_refund ''evt_1'' ''re_1'' 300))),
     (by_user None 12000, Money (StripeEvent (demo_refund ''evt_2'' ''re_2'' 400))),
     (by_user None 13000, Money (StripeEvent (demo_dispute ''evt_3'' ''needs_response''))),
     (by_user None 14000, Money (StripeEvent (demo_dispute ''evt_4'' ''won'')))]"

definition demo_at :: "nat \<Rightarrow> db" where
  "demo_at n = fold (\<lambda>(c, r). exec demo_host c r) (take n demo_script) empty_db"

lemma by_user_valid [simp]: "valid_ctx (by_user u t)"
  by (simp add: valid_ctx_def by_user_def)

lemma reachable_fold:
  "reachable h s \<Longrightarrow> \<forall>(c, r)\<in>set xs. valid_ctx c \<Longrightarrow> reachable h (fold (\<lambda>(c, r). exec h c r) xs s)"
  by (induction xs arbitrary: s) (auto intro: reachable.step)

lemma demo_reachable: "reachable demo_host (demo_at n)"
  unfolding demo_at_def
  by (rule reachable_fold [OF reachable.init]) (auto simp: demo_script_def dest!: in_set_takeD)


text \<open>The call at the end of the script, while it connects, and while it waits for the capture.\<close>

definition demo_call :: call_doc where
  "demo_call = \<lparr>did = 13, ctime = 7000, c_showId = 5, c_queueEntryId = 11, c_creatorId = 0, c_viewerId = 2,
     c_status = Call_LIVE, c_selectionMode = MANUAL, c_callDurationSeconds = 60, c_startedAt = Some 10000,
     c_endedAt = None, c_expiresAt = Some 70000, c_paymentAttemptId = Some 10\<rparr>"

lemma demo_calls: "calls (demo_at 17) = [demo_call]"
  by code_simp

lemma demo_calls_connecting:
  "calls (demo_at 15) = [demo_call\<lparr>c_status := Call_CONNECTING, c_startedAt := None, c_expiresAt := None\<rparr>]"
  by code_simp

lemma demo_calls_pending:
  "calls (demo_at 13) = [demo_call\<lparr>c_status := Call_PAYMENT_PENDING, c_startedAt := None, c_expiresAt := None\<rparr>]"
  by code_simp

lemma demo_valid: "(c, r) \<in> set demo_script \<Longrightarrow> valid_ctx c"
  by (auto simp: demo_script_def)

lemma demo_leads_to: "m \<le> n \<Longrightarrow> leads_to demo_host (demo_at m) (demo_at n)"
proof (induction n rule: dec_induct)
  case base
  show ?case by (rule leads_to.here)
next
  case (step n)
  show ?case
  proof (cases "n < length demo_script")
    case True
    obtain c r where cr: "demo_script ! n = (c, r)" by force
    then have "demo_at (Suc n) = exec demo_host c r (demo_at n)"
      using True by (simp add: demo_at_def take_Suc_conv_app_nth)
    moreover have "valid_ctx c" using cr True demo_valid nth_mem by metis
    ultimately show ?thesis using step.IH by (simp add: leads_to.later)
  next
    case False
    then show ?thesis using step.IH by (simp add: demo_at_def)
  qed
qed

end
