(* ===== verification/Stage_Properties.thy ===== *)
theory Stage_Properties
  imports Demo
begin

text \<open>
  What the invariants of \<open>Stage_Safety\<close> and the histories of \<open>Call_Lifecycle\<close> say about
  the shows, calls and payments of every reachable database, and what one transition of a call does.
\<close>

section \<open>One live show per creator\<close>

definition live_unique :: "db \<Rightarrow> bool" where
  "live_unique s \<longleftrightarrow> (\<forall>x\<in>set (shows_tbl s). \<forall>y\<in>set (shows_tbl s).
     sh_status x = Show_LIVE \<and> sh_status y = Show_LIVE \<and> sh_creatorId x = sh_creatorId y \<longrightarrow> x = y)"

lemma live_unique_cong: "shows_tbl s' = shows_tbl s \<Longrightarrow> live_unique s' = live_unique s"
  by (simp add: live_unique_def)

lemma live_unique_insert:
  "live_unique s \<Longrightarrow> sh_status x \<noteq> Show_LIVE \<Longrightarrow> shows_tbl s' = db_insert (shows_tbl s) x \<Longrightarrow> live_unique s'"
  by (auto simp: live_unique_def)

lemma live_unique_patch:
  assumes "live_unique s" "wf_db s" "shows_tbl s' = db_patch (shows_tbl s) i f"
    "\<And>d. sh_creatorId (f d) = sh_creatorId d"
    "\<And>d x. db_get (shows_tbl s) i = Some d \<Longrightarrow> sh_status (f d) = Show_LIVE \<Longrightarrow> x \<in> set (shows_tbl s) \<Longrightarrow>
       sh_status x = Show_LIVE \<Longrightarrow> sh_creatorId x = sh_creatorId d \<Longrightarrow> x = d"
  shows "live_unique s'"
  unfolding live_unique_def
proof (intro ballI impI, elim conjE)
  fix x y
  assume x: "x \<in> set (shows_tbl s')" "sh_status x = Show_LIVE"
    and y: "y \<in> set (shows_tbl s')" "sh_status y = Show_LIVE" and creator: "sh_creatorId x = sh_creatorId y"
  have row: "\<exists>d\<in>set (shows_tbl s). sh_creatorId d = sh_creatorId z \<and>
      (if did d = i then db_get (shows_tbl s) i = Some d \<and> z = f d else z = d)" if "z \<in> set (shows_tbl s')" for z
    using that assms(4) db_get_iff [OF wf_shows [OF assms(2)]] unfolding assms(3) by (auto elim!: in_db_patchE)
  obtain dx where dx: "dx \<in> set (shows_tbl s)" "sh_creatorId dx = sh_creatorId x"
    "if did dx = i then db_get (shows_tbl s) i = Some dx \<and> x = f dx else x = dx" using row [OF x(1)] by blast
  obtain dy where dy: "dy \<in> set (shows_tbl s)" "sh_creatorId dy = sh_creatorId y"
    "if did dy = i then db_get (shows_tbl s) i = Some dy \<and> y = f dy else y = dy" using row [OF y(1)] by blast
  have "dx = dy"
  proof (cases "did dx = i \<or> did dy = i")
    case True
    then show ?thesis using dx dy x(2) y(2) creator assms(5) by (metis option.inject)
  next
    case False
    then show ?thesis using dx dy x(2) y(2) creator assms(1) unfolding live_unique_def by metis
  qed
  then show "x = y" using dx(3) dy(3) by (simp split: if_splits)
qed

lemma live_unique_shows:
  assumes "live_unique s" "wf_db s"
  shows "ensures live_unique (shows_create c s)" "ensures live_unique (shows_schedule c i t s)"
    "ensures live_unique (shows_start c i s)" "ensures live_unique (shows_end c i s)"
proof -
  show "ensures live_unique (shows_create c s)"
    using assms(1) by (auto simp: shows_create_def ensures_def sat_def Let_def elim!: live_unique_insert)
  show "ensures live_unique (shows_schedule c i t s)"
    using assms by (auto simp: shows_schedule_def ensures_def sat_def Let_def split: if_splits
        elim!: live_unique_patch dest!: showForCreator_InrD)
  show "ensures live_unique (shows_start c i s)"
    unfolding shows_start_def Let_def using assms(1)
    by (intro sat_intros) (auto simp: sat_def liveShowOf_def first_by_None dest!: showForCreator_InrD
        intro!: live_unique_patch [OF assms])
  have "shows_tbl s2 = shows_tbl s1" if "endOpenCall c i s1 = Inr s2" for s1 s2
    using that by (auto simp: endOpenCall_def split: option.splits if_splits elim: applyTransition_cases)
  then have ended: "live_unique s2" if "endOpenCall c i (onShowEnded c sh (patchShow i
      (\<lambda>d. d\<lparr>sh_status := Show_ENDED, sh_endedAt := Some (now c)\<rparr>) s)) = Inr s2" for sh s2
    using that by (intro live_unique_patch [OF assms, where i = i and
        f = "\<lambda>d. d\<lparr>sh_status := Show_ENDED, sh_endedAt := Some (now c)\<rparr>"]) auto
  have "live_unique (runAfter c d j s') = live_unique s'" for d j s'
    by (rule live_unique_cong) simp
  then show "ensures live_unique (shows_end c i s)"
    unfolding shows_end_def Let_def using assms(1) ended by (intro sat_intros) (auto simp: sat_def)
qed

lemma exec_live_unique:
  assumes "live_unique s" "wf_db s"
  shows "live_unique (exec h c r s)"
proof (cases "T_shows \<in> writes r")
  case False
  then show ?thesis using sameD(2) [OF exec_same] live_unique_cong assms(1) by metis
next
  case True
  have sat: "sat live_unique s" using assms by (simp add: sat_def)
  show ?thesis
  proof (cases r)
    case (Stage q)
    then show ?thesis using True
      by (cases q) (simp_all add: sat_commit [OF sat, unfolded sat_def] live_unique_shows [OF assms])
  next
    case (Money q)
    then show ?thesis using True by (cases q) simp_all
  next
    case (Social q)
    then show ?thesis using True by (cases q) simp_all
  qed
qed

interpretation one_live: inductive_invariant h wf_db live_unique for h
  using exec_live_unique by unfold_locales (auto intro: reachable_wf simp: live_unique_def empty_db_def)


section \<open>Reachable databases\<close>

text \<open>
  C8. A creator never has two live shows: however requests are ordered, in every reachable database
  the live show of a creator, which \<open>shows.start\<close> looks up before opening another, is unique.
\<close>

theorem one_live_show_per_creator:
  assumes "reachable h s" "x \<in> set (shows_tbl s)" "y \<in> set (shows_tbl s)"
    "sh_status x = Show_LIVE" "sh_status y = Show_LIVE" "sh_creatorId x = sh_creatorId y"
  shows "x = y"
  using one_live.holds [OF assms(1)] assms(2-) by (simp add: live_unique_def)

theorem one_live_show_witness:
  "hd (shows_tbl (demo_at 7)) = last (shows_tbl (demo_at 7)) \<and> sh_status (last (shows_tbl (demo_at 7))) = Show_LIVE"
proof -
  have all: "shows_tbl (demo_at 7) \<noteq> [] \<and> (\<forall>x\<in>set (shows_tbl (demo_at 7)). sh_status x = Show_LIVE \<and> sh_creatorId x = 0)"
    by code_simp
  then show ?thesis
    using one_live_show_per_creator [OF demo_reachable, of "hd (shows_tbl (demo_at 7))" 7 "last (shows_tbl (demo_at 7))"] by simp
qed

text \<open>
  C1. No call carries media unless it may: in every reachable database a call that participants can
  connect to (created, connecting or live) belongs to a show that is live, and when it was paid for
  its payment has been captured.  In particular ending a show leaves no connectable call behind, and a
  call still waiting for its capture is not connectable.
\<close>

theorem connectable_calls_are_paid_and_on_air:
  assumes "reachable h s" "c \<in> set (calls s)" "c_status c \<in> set CONNECTABLE_STATUSES"
  shows "showIsLive s (c_showId c) \<and> (\<forall>a. c_paymentAttemptId c = Some a \<longrightarrow>
    (\<exists>attempt. db_get (paymentAttempts s) a = Some attempt \<and> pa_status attempt = Pay_CAPTURED))"
  using stage_okD [OF reachable_stage [OF assms(1)] assms(2)] assms(3)
  by (auto simp: call_ok_def paid_ok_def attempt_status_def connectable_def)

theorem connectable_calls_witness:
  "showIsLive (demo_at 17) 5 \<and> (\<exists>attempt. db_get (paymentAttempts (demo_at 17)) 10 = Some attempt \<and> pa_status attempt = Pay_CAPTURED)"
  using connectable_calls_are_paid_and_on_air [OF demo_reachable, of demo_call 17]
  by (simp add: demo_calls demo_call_def CONNECTABLE_STATUSES_def)

text \<open>
  C9. A show has at most one call in progress, so the loop of \<open>activeCallForShow\<close> over the four
  active statuses finds exactly that call, whatever its status, or reports that there is none.
\<close>

theorem one_call_in_progress:
  assumes "reachable h s"
  shows "activeCallForShow s i = Some c \<longleftrightarrow> c \<in> set (calls s) \<and> c_showId c = i \<and> c_status c \<in> set ACTIVE_CALL_STATUSES"
  using activeCallForShow_iff [OF reachable_stage [OF assms]] by (simp add: in_progress_def)

theorem one_call_in_progress_witness: "activeCallForShow (demo_at 17) 5 = Some demo_call"
  using one_call_in_progress [OF demo_reachable, of 17 5 demo_call]
  by (simp add: demo_calls demo_call_def ACTIVE_CALL_STATUSES_def)

text \<open>
  C10. A payment pays for at most one call, and a payment that has a call is neither waiting for its
  authorization nor merely authorized: creating the call moved it on to its capture.
\<close>

theorem one_call_per_payment:
  assumes "reachable h s" "c \<in> set (calls s)" "c_paymentAttemptId c = Some a"
  shows "callForAttempt s a = Some c \<and> (\<exists>p. db_get (paymentAttempts s) a = Some p \<and> pa_status p \<notin> {Pay_CREATED, Pay_AUTHORIZED})"
proof -
  have ok: "stage_ok s" using assms(1) by (rule reachable_stage)
  have "callForAttempt s a = Some c"
    unfolding callForAttempt_def using assms(2,3) calls_okD(3) [OF ok [unfolded stage_ok_def]]
    by (intro first_by_unique) auto
  then show ?thesis
    using call_attempt_known [OF ok assms(2,3)] by (auto simp: attempt_status_def)
qed

theorem one_call_per_payment_witness: "callForAttempt (demo_at 17) 10 = Some demo_call"
  using one_call_per_payment [OF demo_reachable, of demo_call 17 10] by (simp add: demo_calls demo_call_def)

text \<open>
  C4. The backend refines the abstract life of a call.  From any reachable database, along any later
  run of requests, a call is still there; its status has moved along \<open>lifecycle\<close> (so never
  backwards, and not at all once it ended or failed, when the whole row is frozen); the show, parties,
  tier duration and payment it was created with are unchanged; and once it went live neither the
  moment nor the end of its time can move.
\<close>

theorem calls_follow_the_lifecycle:
  assumes "reachable h s" "leads_to h s s'" "db_get (calls s) i = Some c"
  shows "\<exists>c'. db_get (calls s') i = Some c' \<and> lifecycle\<^sup>*\<^sup>* (c_status c) (c_status c') \<and> call_terms c' = call_terms c \<and>
    (c_startedAt c \<noteq> None \<longrightarrow> c_startedAt c' = c_startedAt c \<and> c_expiresAt c' = c_expiresAt c) \<and>
    (c_status c \<in> {Call_ENDED, Call_FAILED} \<longrightarrow> c' = c)"
  using call_log.persists [OF assms(2,1,3)] by (simp add: call_future_def)

theorem calls_follow_the_lifecycle_witness:
  "lifecycle\<^sup>*\<^sup>* Call_CONNECTING Call_LIVE \<and> call_terms demo_call = call_terms (hd (calls (demo_at 15)))"
proof -
  have "leads_to demo_host (demo_at 15) (demo_at 17)" by (rule demo_leads_to) simp
  moreover have "db_get (calls (demo_at 15)) 13 = Some (hd (calls (demo_at 15)))" "c_status (hd (calls (demo_at 15))) = Call_CONNECTING"
    "db_get (calls (demo_at 17)) 13 = Some demo_call" "c_status demo_call = Call_LIVE"
    by (simp_all add: demo_calls demo_calls_connecting demo_call_def db_get_def)
  ultimately show ?thesis
    using calls_follow_the_lifecycle [OF demo_reachable, of 15 "demo_at 17" 13 "hd (calls (demo_at 15))"] by auto
qed

text \<open>
  C23. A payment attempt keeps what \<open>prepare\<close> fixed: along every run its payer, show, tier, price
  and fee snapshot never change, its Stripe intent and queue entry are set at most once, its status only
  moves forward, and once it is captured it stays captured whatever Stripe or a client sends later.
\<close>

theorem payment_terms_are_fixed:
  assumes "reachable h s" "leads_to h s s'" "db_get (paymentAttempts s) i = Some a"
  shows "\<exists>a'. db_get (paymentAttempts s') i = Some a' \<and> attempt_terms a' = attempt_terms a \<and>
    pay_rank (pa_status a) \<le> pay_rank (pa_status a') \<and>
    (pa_status a = Pay_CAPTURED \<longrightarrow> pa_status a' = Pay_CAPTURED) \<and>
    (truthy (pa_stripePaymentIntentId a) \<longrightarrow> pa_stripePaymentIntentId a' = pa_stripePaymentIntentId a) \<and>
    (pa_queueEntryId a \<noteq> None \<longrightarrow> pa_queueEntryId a' = pa_queueEntryId a)"
  using attempt_log.persists [OF assms(2,1,3)] pay_rank_captured by (fastforce simp: attempt_step_def)

theorem payment_terms_are_fixed_witness:
  "\<exists>a a'. db_get (paymentAttempts (demo_at 15)) 10 = Some a \<and> db_get (paymentAttempts (demo_at 17)) 10 = Some a'
     \<and> pa_amountCents a' = pa_amountCents a \<and> pa_status a' = Pay_CAPTURED"
proof -
  have "leads_to demo_host (demo_at 15) (demo_at 17)" by (rule demo_leads_to) simp
  moreover have "map_option (\<lambda>a. (pa_amountCents a, pa_status a)) (db_get (paymentAttempts (demo_at 15)) 10) = Some (500, Pay_CAPTURED)"
    by code_simp
  then obtain a where "db_get (paymentAttempts (demo_at 15)) 10 = Some a" "pa_amountCents a = 500" "pa_status a = Pay_CAPTURED"
    by auto
  moreover have "pa_amountCents a' = pa_amountCents a" if "attempt_terms a' = attempt_terms a" for a' a
    using arg_cong [OF that, of pa_amountCents] by (simp add: attempt_terms_def)
  ultimately show ?thesis
    using payment_terms_are_fixed [OF demo_reachable, of 15 "demo_at 17" 10 a] by metis
qed


section \<open>One transition\<close>

lemma applyTransition_InlD: "applyTransition c call t s = Inl e \<Longrightarrow> e = INVALID_CALL_STATE"
  by (auto simp: applyTransition_def Let_def split: if_splits)



text \<open>What the job that ends a call does.\<close>

lemma calls_expire_outcome:
  assumes "reachable h s" "db_get (calls s) i = Some call"
  shows "case calls_expire ctx i s of
      Inl _ \<Rightarrow> False
    | Inr s' \<Rightarrow> if c_status call = Call_LIVE \<and> the (c_startedAt call) + c_callDurationSeconds call * 1000 \<le> now ctx
        then db_get (calls s') i = Some (call\<lparr>c_status := Call_ENDED, c_endedAt := Some (now ctx)\<rparr>)
        else s' = s"
proof -
  have ok: "times_ok call" and i: "did call = i"
    using stage_okD [OF reachable_stage [OF assms(1)]] db_get_SomeD [OF assms(2)] by (auto simp: call_ok_def)
  show ?thesis
  proof (cases "c_status call = Call_LIVE \<and> the (c_startedAt call) + c_callDurationSeconds call * 1000 \<le> now ctx")
    case True
    then obtain t where t: "c_startedAt call = Some t" "c_expiresAt call = Some (t + c_callDurationSeconds call * 1000)"
      using ok by (auto simp: times_ok_def)
    obtain x s' where x: "applyTransition ctx call Call_ENDED s = Inr (x, s')"
      using True by (auto simp: applyTransition_def canTransition_def Let_def)
    have exp: "calls_expire ctx i s = Inr s'"
      using True t assms(2) x by (simp add: calls_expire_def)
    have "calls s' = db_patch (calls s) (did call) (callPatch ctx call Call_ENDED)"
      using True by (cases rule: applyTransition_cases [OF x]) simp_all
    then have "db_get (calls s') i = Some (callPatch ctx call Call_ENDED call)"
      using assms(2) i by (simp add: db_get_patch callPatch_def)
    then show ?thesis using True by (simp add: exp callPatch_def goesLive_def finishes_def)
  next
    case False
    then have "calls_expire ctx i s = Inr s"
      using ok assms(2) by (auto simp: calls_expire_def times_ok_def)
    then show ?thesis using False by auto
  qed
qed



end
