(* ===== verification/Money_Safety.thy ===== *)
theory Money_Safety
  imports Stage_Properties
begin

text \<open>
  The ledger of every reachable database.  A request touches the ledger only through four operations:
  crediting an earning, reversing it for a refund, adjusting it for a dispute, and reserving a payout.
  The locale \<open>ledger_posts\<close> states the contract of the reversal and the adjustment, which the refund
  and webhook functions use; \<open>ledger_moves\<close> adds the reservation, \<open>ledger_credits\<close> the credit;
  \<open>ledger_ops\<close> has all four, and with them every request;
  \<open>ledger_invariant\<close> the empty database.  An invariant of the ledger then needs one lemma per
  operation, and holds of every reachable database.
\<close>

section \<open>Four operations write the ledger\<close>

definition same_ledger :: "db \<Rightarrow> db \<Rightarrow> bool" where
  "same_ledger s s' \<longleftrightarrow> ledgerEntries s' = ledgerEntries s \<and> creatorBalances s' = creatorBalances s"

lemma applyTransition_ledger:
  assumes "applyTransition c call t s = Inr (x, s')"
  shows "c_status call = t \<and> s' = s \<or> same_ledger (creditIfLive c call t (scheduleExpiry c call t s)) s'"
proof (cases "c_status call = t")
  case True
  have "applyTransition c call t s = Inr (call, s)"
    unfolding applyTransition_def True by (simp only: simp_thms if_True)
  then show ?thesis using assms True by simp
next
  case False
  have can: "canTransition (c_status call) t"
    using assms False by (rule_tac ccontr) (simp add: applyTransition_def)
  have "s' = cleanUpFinished c call t (patchEntry (c_queueEntryId call)
      (\<lambda>e. e\<lparr>q_status := entryStatusFor t\<rparr>) (patchCall (did call) (callPatch c call t)
        (creditIfLive c call t (scheduleExpiry c call t s))))"
    using assms False can
    by (simp only: applyTransition_def Let_def not_True_eq_False if_False sum.inject prod.inject)
  moreover have "same_ledger s1 (cleanUpFinished c call t s1)" for s1
    by (simp add: same_ledger_def cleanUpFinished_def dropPresence_def refundIfNeverLive_def
        requestRefund_def Let_def split: option.split)
  ultimately show ?thesis by (simp add: same_ledger_def)
qed

lemma refundRow_ledger: "refundRow c r s = (d, s') \<Longrightarrow> same_ledger s s'"
  by (auto simp: refundRow_def Let_def same_ledger_def split: option.splits)

lemma saveDispute_ledger: "saveDispute c d s = (i, s') \<Longrightarrow> same_ledger s s'"
  by (auto simp: saveDispute_def Let_def same_ledger_def split: option.splits)

lemma applyIntent_ledger: "same_ledger s (applyIntent c ty i s)"
proof -
  have "sat (same {T_calls, T_paymentAttempts, T_paymentRefunds, T_queueEntries} s) (applyIntent c ty i s)"
    by (rule mod_applyIntent) (simp_all add: sat_def)
  then show ?thesis by (simp add: sat_def same_ledger_def sameD)
qed

locale ledger_posts =
  fixes I :: "db \<Rightarrow> bool"
  assumes frame: "same_ledger s s' \<Longrightarrow> I s \<Longrightarrow> I s'"
    and reversal: "wf_db s \<Longrightarrow> I s \<Longrightarrow> I (reverseForRefund c r s)"
    and dispute: "wf_db s \<Longrightarrow> I s \<Longrightarrow> I (adjustForDispute c d s)"
begin

lemma keeps_record:
  assumes "wf_db s" "I s"
  shows "I (refunds_record c i x st code s)"
proof -
  have patched: "wf_db (patchRefund i f s)" "I (patchRefund i f s)" if "\<And>d. did (f d) = did d" for f
    using assms that frame [of s "patchRefund i f s"]
    by (simp_all add: wf_db_def Let_def tbl.wf_patch same_ledger_def)
  have "I (runAfter c d j s') = I s'" for d j s'
    using frame [of "runAfter c d j s'" s'] frame [of s' "runAfter c d j s'"] by (auto simp: same_ledger_def)
  then show ?thesis
    using assms(2) patched reversal by (auto simp: refunds_record_def Let_def split: option.split)
qed

lemma keeps_settle:
  assumes "wf_db s" "I s"
  shows "I (settleRefund c r refund s)"
proof -
  have patched: "wf_db (patchRefund i f s)" "I (patchRefund i f s)" if "\<And>d. did (f d) = did d" for i f
    using assms that frame [of s "patchRefund i f s"]
    by (simp_all add: wf_db_def Let_def tbl.wf_patch same_ledger_def)
  then show ?thesis
    using assms(2) reversal by (auto simp: settleRefund_def Let_def split: option.split)
qed

lemma keeps_event:
  assumes "wf_db s" "I s"
  shows "I (applyRefund c r s)" "I (applyDispute c d s)" "I (applyIntent c ty i s)"
proof -
  obtain row s1 where r: "refundRow c r s = (row, s1)" by force
  have "wf_db s1" "I s1"
    using wf_refundRow [of s, OF _ r] refundRow_ledger [OF r] frame assms by (auto simp: sat_def)
  then show "I (applyRefund c r s)" by (auto simp: applyRefund_def r keeps_settle split: option.split)
  obtain x s2 where d: "saveDispute c d s = (x, s2)" by force
  have "wf_db s2" "I s2"
    using wf_saveDispute [of s, OF _ d] saveDispute_ledger [OF d] frame assms by (auto simp: sat_def)
  then show "I (applyDispute c d s)" by (auto simp: applyDispute_def d dispute split: option.split)
  show "I (applyIntent c ty i s)" using assms(2) frame [OF applyIntent_ledger] by blast
qed

lemma keeps_webhook:
  assumes "wf_db s" "I s"
  shows "I (webhooks_apply c a s)"
proof -
  let ?s = "recordEvent c a s"
  have wf: "wf_db ?s" using assms(1) by (rule recordEvent_wf)
  have I: "I ?s" using assms(2) by (rule frame [rotated]) (simp add: same_ledger_def recordEvent_def)
  have "I (applyPayout c sa p ?s)" "I (runAfter c 0 j ?s)" for sa p j
    using frame [OF _ I, of "applyPayout c sa p ?s"] frame [OF _ I, of "runAfter c 0 j ?s"]
    by (simp_all add: same_ledger_def applyPayout_def split: option.split)
  then show ?thesis
    using assms(2) I keeps_event [OF wf I] by (simp add: webhooks_apply_def applyEvent_def split: option.split)
qed

end

locale ledger_moves = ledger_posts I for I :: "db \<Rightarrow> bool" +
  assumes reservation: "wf_db s \<Longrightarrow> I s \<Longrightarrow> I (post c (reservationEntry c item) s)"
begin

lemma keeps_reserveItem:
  assumes "wf_db s" "I s"
  shows "I (reserveItem c run account n s)"
proof -
  let ?item = "newItem c (nextId s) run account n"
  let ?s1 = "bumpId (payoutItems_update (\<lambda>t. db_insert t ?item) s)"
  have "sat wf_db ?s1" using assms(1) by (intro wf_intros) (auto simp: newItem_def sat_def)
  moreover have "I ?s1" using assms(2) by (rule frame [rotated]) (simp add: same_ledger_def)
  ultimately have "I (post c (reservationEntry c ?item) ?s1)" using reservation by (simp add: sat_def)
  then show ?thesis by (rule frame [rotated]) (simp add: reserveItem_def Let_def same_ledger_def)
qed

lemma keeps_reserveBatch:
  assumes "wf_db s" "I s"
  shows "I (reserveBatch c i n s)"
proof -
  have one: "sat (\<lambda>s. wf_db s \<and> I s) (reserveFor c run account s)"
    if "sat (\<lambda>s. wf_db s \<and> I s) s" for run account s
    using that keeps_reserveItem wf_reserveItem [of s c run account]
    by (auto simp: reserveFor_def Let_def sat_def)
  have "sat (\<lambda>s. wf_db s \<and> I s) (fold (reserveFor c run) page s)" for run page
    using assms by (intro sat_fold one) (simp_all add: sat_def)
  moreover have "I (runAfter c d j s') = I s'" for d j s'
    using frame [of "runAfter c d j s'" s'] frame [of s' "runAfter c d j s'"] by (auto simp: same_ledger_def)
  ultimately show ?thesis
    using assms(2) by (simp add: reserveBatch_def Let_def sat_def split: option.split)
qed

end

locale ledger_credits = ledger_posts I for I :: "db \<Rightarrow> bool" +
  assumes earning: "wf_db s \<Longrightarrow> I s \<Longrightarrow> I (creditEarning c a i (now c) s)"
begin

lemma keeps_transition:
  assumes "applyTransition c call t s = Inr (x, s')" "wf_db s" "I s"
  shows "I s'"
proof -
  have "wf_db (scheduleExpiry c call t s)" "same_ledger s (scheduleExpiry c call t s)"
    using assms(2) by (simp_all add: scheduleExpiry_def runAt_def wf_db_def Let_def same_ledger_def)
  then have "I (creditIfLive c call t (scheduleExpiry c call t s))"
    using assms(3) frame earning by (auto simp: creditIfLive_def split: option.split)
  then show ?thesis using applyTransition_ledger [OF assms(1)] assms(3) frame by blast
qed

lemma keeps_stage:
  assumes "wf_db s" "I s"
  shows "ensures I (calls_transition c i t s)" "ensuresDb I (calls_expire c i s)"
    "ensuresDb I (presence_checkGrace c i r d s)" "ensures I (shows_end c i s)"
proof -
  show "ensures I (calls_transition c i t s)" "ensuresDb I (calls_expire c i s)"
    "ensuresDb I (presence_checkGrace c i r d s)"
    using keeps_transition [OF _ assms] assms(2)
    by (auto simp: calls_transition_def calls_expire_def presence_checkGrace_def ensures_def ensuresDb_def sat_def
        split: option.splits if_splits)
  have "I s2" if "endOpenCall c i (onShowEnded c sh (patchShow i f s)) = Inr s2" "\<And>d. did (f d) = did d" for sh f s2
  proof -
    let ?s1 = "onShowEnded c sh (patchShow i f s)"
    have "same_ledger s ?s1" by (simp add: same_ledger_def onShowEnded_def split: option.split)
    moreover have "sat wf_db ?s1" using assms(1) that(2) by (intro wf_intros) (auto simp: sat_def)
    ultimately show ?thesis
      using that(1) assms(2) frame keeps_transition
      by (auto simp: endOpenCall_def sat_def split: option.splits if_splits)
  qed
  moreover have "I (runAfter c d j s') = I s'" for d j s'
    using frame [of "runAfter c d j s'" s'] frame [of s' "runAfter c d j s'"] by (auto simp: same_ledger_def)
  ultimately show "ensures I (shows_end c i s)"
    unfolding shows_end_def Let_def using assms(2) by (intro sat_intros) (auto simp: sat_def)
qed

lemma keeps_other:
  assumes "wf_db s" "I s" "\<And>i n. r \<noteq> Money (ReserveBatch i n)"
  shows "I (exec h c r s)"
proof (cases "T_ledgerEntries \<in> writes r \<or> T_creatorBalances \<in> writes r")
  case False
  then have "same_ledger s (exec h c r s)"
    using sameD(15,16) [OF exec_same] by (simp add: same_ledger_def)
  then show ?thesis using assms(2) frame by blast
next
  case True
  have sat: "sat I s" using assms(2) by (simp add: sat_def)
  show ?thesis
  proof (cases r)
    case (Stage q)
    then show ?thesis using True
      by (cases q) (simp_all add: sat_commit [OF sat, unfolded sat_def] sat_commitDb [OF sat, unfolded sat_def]
          keeps_stage [OF assms(1,2)])
  next
    case (Money q)
    then show ?thesis using True assms(3)
      by (cases q) (simp_all add: keeps_record [OF assms(1,2)] keeps_webhook [OF assms(1,2)])
  next
    case (Social q)
    then show ?thesis using True by (cases q) simp_all
  qed
qed

end

locale ledger_ops = ledger_moves I + ledger_credits I for I :: "db \<Rightarrow> bool"
begin

lemma keeps_request:
  assumes "wf_db s" "I s"
  shows "I (exec h c r s)"
proof (cases "\<exists>i n. r = Money (ReserveBatch i n)")
  case True
  then show ?thesis using keeps_reserveBatch [OF assms] by auto
next
  case False
  then show ?thesis using keeps_other [OF assms] by blast
qed

end

locale ledger_invariant = ledger_ops I for I :: "db \<Rightarrow> bool" +
  fixes h :: host
  assumes start: "I empty_db"
begin

lemma everywhere: "reachable h s \<Longrightarrow> I s"
  by (induction rule: reachable.induct) (auto intro: start keeps_request reachable_wf)

end

section \<open>The invariants of the ledger\<close>

lemma same_ledger_eqs:
  assumes "same_ledger s s'"
  shows "balance_cents s' = balance_cents s" "ledger_sum s' = ledger_sum s" "earned_cents s' = earned_cents s"
    "reversed_cents s' = reversed_cents s" "entryByKey s' = entryByKey s"
  using assms by (simp_all add: fun_eq_iff same_ledger_def balance_cents_def balanceFor_def ledger_sum_def
      entries_of_def earned_cents_def earningFor_def reversed_cents_def entryByKey_def)

lemma wf_balances: "wf_db s \<Longrightarrow> wf_table (nextId s) (creatorBalances s)"
  by (simp add: wf_db_def Let_def)

lemma ledger_ok_ops:
  assumes "wf_db s" "ledger_ok s"
  shows "ledger_ok (creditEarning c a i t s)" "ledger_ok (reverseForRefund c r s)" "ledger_ok (adjustForDispute c d s)"
  using creditEarning_cases [of c a i t s] reverseForRefund_cases [of c r s] adjustForDispute_cases [of c d s]
    post_ledger_ok [OF wf_balances] assms by metis+

interpretation totals: ledger_invariant ledger_ok h for h
proof unfold_locales
  show "ledger_ok empty_db"
    by (simp add: ledger_ok_def empty_db_def balance_cents_def balanceFor_def ledger_sum_def entries_of_def first_by_def)
  show "same_ledger s s' \<Longrightarrow> ledger_ok s \<Longrightarrow> ledger_ok s'" for s s'
    using same_ledger_eqs [of s s'] by (simp add: ledger_ok_def same_ledger_def)
qed (simp_all add: ledger_ok_ops post_ledger_ok wf_balances)

interpretation reversals: ledger_invariant reversals_ok h for h
proof unfold_locales
  show "reversals_ok empty_db"
    by (simp add: reversals_ok_def empty_db_def reversed_cents_def)
  show "same_ledger s s' \<Longrightarrow> reversals_ok s \<Longrightarrow> reversals_ok s'" for s s'
    using same_ledger_eqs [of s s'] by (simp add: reversals_ok_def)
qed (simp_all add: creditEarning_reversals_ok reverseForRefund_reversals_ok adjustForDispute_reversals_ok
    post_reversals_ok reservationEntry_def)

lemma disputes_ok_posts:
  assumes "disputes_ok s"
  shows "disputes_ok (creditEarning c a i t s)" "disputes_ok (reverseForRefund c r s)"
  using assms by (auto simp: creditEarning_def reverseForRefund_def Let_def intro!: post_disputes_ok split: option.split)

interpretation disputes: ledger_invariant disputes_ok h for h
proof unfold_locales
  show "disputes_ok empty_db"
    by (simp add: disputes_ok_def empty_db_def entryByKey_def first_by_def)
  show "same_ledger s s' \<Longrightarrow> disputes_ok s \<Longrightarrow> disputes_ok s'" for s s'
    using same_ledger_eqs [of s s'] by (simp add: disputes_ok_def)
qed (simp_all add: disputes_ok_posts adjustForDispute_disputes_ok post_disputes_ok reservationEntry_def)

section \<open>What they say\<close>

text \<open>
  C3. The balance a creator sees is what the ledger adds up to.  In every reachable database and at
  every moment, \<open>balanceAt\<close>, which reads one running total and the entries still held, returns
  the sums over the creator's whole ledger: the total of all entries, the part not yet effective, and the
  part effective by then, which is what a payout may take.
\<close>

theorem balance_is_the_sum_of_the_ledger:
  assumes "reachable h s"
  shows "balanceAt s creator cur t =
    (let entries = filter (\<lambda>e. le_creatorId e = creator \<and> le_currency e = cur) (ledgerEntries s)
     in \<lparr>bs_currency = cur, bs_totalCents = sum_list (map le_amountCents entries),
         bs_pendingCents = sum_list (map le_amountCents (filter (\<lambda>e. le_effectiveAt e > t) entries)),
         bs_availableCents = sum_list (map le_amountCents (filter (\<lambda>e. le_effectiveAt e \<le> t) entries))\<rparr>)"
proof -
  have "bs_currency (balanceAt s creator cur t) = cur" by (simp add: balanceAt_def Let_def)
  then show ?thesis
    using balanceAt_sums [OF totals.everywhere [OF assms], of creator cur t]
    by (simp add: Let_def ledger_sum_def entries_of_def balance_summary.equality)
qed

theorem balance_is_the_sum_witness:
  "bs_totalCents (balanceAt (demo_at 17) 0 ''usd'' 10000) = 428
     \<and> bs_availableCents (balanceAt (demo_at 17) 0 ''usd'' 10000) = 0"
proof -
  have "map (\<lambda>e. (le_creatorId e, le_currency e, le_amountCents e, le_effectiveAt e)) (ledgerEntries (demo_at 17))
      = [(0, ''usd'', 428, 604810000)]" by code_simp
  then obtain e where "ledgerEntries (demo_at 17) = [e]" "le_creatorId e = 0" "le_currency e = ''usd''"
    "le_amountCents e = 428" "le_effectiveAt e = 604810000"
    by (cases "ledgerEntries (demo_at 17)") auto
  then show ?thesis
    using balance_is_the_sum_of_the_ledger [OF demo_reachable, of 17 0 "''usd''" 10000] by (simp add: Let_def)
qed

text \<open>
  C5. Refunds of one payment together never take back more than the creator earned from it, whatever
  mixture of full and partial refunds, from Bling or from the Stripe dashboard, in whatever order, with
  whatever redeliveries; and every business event is posted at most once.
\<close>

theorem refunds_never_exceed_the_earning:
  assumes "reachable h s"
  shows "- sum_list (map le_amountCents (filter (\<lambda>e. le_paymentAttemptId e = Some a \<and> le_kind e = REFUND_REVERSAL)
             (ledgerEntries s)))
         \<le> max 0 (case earningFor s a of Some e \<Rightarrow> le_amountCents e | None \<Rightarrow> 0)
    \<and> distinct (map le_idempotencyKey (ledgerEntries s))"
  using reversals.everywhere [OF assms] totals.everywhere [OF assms]
  by (simp add: reversals_ok_def reversed_cents_def earned_cents_def ledger_ok_def)

theorem refunds_never_exceed_witness:
  "- sum_list (map le_amountCents (filter (\<lambda>e. le_paymentAttemptId e = Some 10 \<and> le_kind e = REFUND_REVERSAL)
       (ledgerEntries (demo_at 21)))) = 428
   \<and> - sum_list (map le_amountCents (filter (\<lambda>e. le_paymentAttemptId e = Some 10 \<and> le_kind e = REFUND_REVERSAL)
       (ledgerEntries (demo_at 21)))) \<le> 428"
proof -
  have "map_option le_amountCents (earningFor (demo_at 21) 10) = Some 428
      \<and> - sum_list (map le_amountCents (filter (\<lambda>e. le_paymentAttemptId e = Some 10 \<and> le_kind e = REFUND_REVERSAL)
       (ledgerEntries (demo_at 21)))) = 428" by code_simp
  then show ?thesis
    using refunds_never_exceed_the_earning [OF demo_reachable [of 21], of 10] by (auto split: option.splits)
qed

text \<open>
  A dispute that Bling wins gives back exactly what it held: the ledger releases an amount for a
  dispute only after it debited that dispute, once, and by the same amount.
\<close>

theorem won_disputes_give_back_what_they_held:
  assumes "reachable h s" "entryByKey s (DisputeReleaseKey d) = Some release"
  shows "\<exists>debit. entryByKey s (DisputeDebitKey d) = Some debit \<and> le_amountCents release = - le_amountCents debit"
  using disputes.everywhere [OF assms(1)] assms(2) by (simp add: disputes_ok_def)

theorem won_disputes_witness:
  "\<exists>debit release. entryByKey (demo_at 21) (DisputeReleaseKey ''dp_1'') = Some release \<and> le_amountCents release = 428
     \<and> entryByKey (demo_at 21) (DisputeDebitKey ''dp_1'') = Some debit \<and> le_amountCents debit = - 428"
proof -
  have "map_option le_amountCents (entryByKey (demo_at 21) (DisputeReleaseKey ''dp_1'')) = Some 428" by code_simp
  then obtain release where "entryByKey (demo_at 21) (DisputeReleaseKey ''dp_1'') = Some release"
    "le_amountCents release = 428" by auto
  then show ?thesis using won_disputes_give_back_what_they_held [OF demo_reachable [of 21], of "''dp_1''" release] by auto
qed

end
