(* ===== verification/Earnings.thy ===== *)
theory Earnings
  imports Money_Safety
begin

text \<open>
  From a tier's price to the creator's earning.  Every payment attempt is priced from a valid tier and
  carries sound fees (\<open>pricing_ok\<close>); every paid call that went live has exactly one earning, of
  the price less the platform fee, and nothing else earns; a refund that Bling itself requests belongs
  to a call that finished without going live (\<open>earn_ok\<close>).
\<close>

section \<open>Prices and fees\<close>

definition tier_ok :: "tier_doc \<Rightarrow> bool" where
  "tier_ok t \<longleftrightarrow> (ti_priceCents t = 0 \<or> 50 \<le> ti_priceCents t \<and> ti_priceCents t \<le> 1000000) \<and>
     30 \<le> ti_callDurationSeconds t \<and> ti_callDurationSeconds t \<le> 3600"

definition fees_ok :: "attempt_doc \<Rightarrow> bool" where
  "fees_ok a \<longleftrightarrow> 50 \<le> pa_amountCents a \<and> pa_amountCents a \<le> 1000000 \<and>
     0 < pa_platformFeeCents a \<and> pa_platformFeeCents a < pa_amountCents a \<and> pa_currency a = ''usd''"

definition pricing_ok :: "db \<Rightarrow> bool" where
  "pricing_ok s \<longleftrightarrow> (\<forall>t\<in>set (showTiers s). tier_ok t) \<and>
     (\<forall>u\<in>set (users s). truthy (u_username u) \<longrightarrow> u_platformFeeBps u = Some SIGNUP_PLATFORM_FEE_BPS) \<and>
     (\<forall>sh\<in>set (shows_tbl s). \<exists>u. db_get (users s) (sh_creatorId sh) = Some u \<and> truthy (u_username u)) \<and>
     (\<forall>a\<in>set (paymentAttempts s). fees_ok a)"

lemma priced_fees_ok:
  assumes "pricing_ok s" "priced s a"
  shows "fees_ok a"
proof -
  obtain tier sh where t: "tier \<in> set (showTiers s)" "sh \<in> set (shows_tbl s)" "pa_amountCents a = ti_priceCents tier"
    "0 < ti_priceCents tier" "pa_currency a = ''usd''"
    "pa_platformFeeCents a = fee_platformFeeCents (paymentFees (ti_priceCents tier)
       (creatorFeeBps (db_get (users s) (sh_creatorId sh))))"
    using assms(2) by (auto simp: priced_def Let_def)
  obtain u where u: "db_get (users s) (sh_creatorId sh) = Some u" "truthy (u_username u)"
    using assms(1) t(2) by (auto simp: pricing_ok_def)
  then have "u_platformFeeBps u = Some SIGNUP_PLATFORM_FEE_BPS"
    using assms(1) by (auto simp: pricing_ok_def dest: db_get_SomeD)
  then have bps: "creatorFeeBps (db_get (users s) (sh_creatorId sh)) = SIGNUP_PLATFORM_FEE_BPS"
    using u by (simp add: creatorFeeBps_def)
  have price: "50 \<le> ti_priceCents tier" "ti_priceCents tier \<le> 1000000"
    using assms(1) t(1,4) by (auto simp: pricing_ok_def tier_ok_def)
  show ?thesis
    using paymentFees_sound [OF price, of SIGNUP_PLATFORM_FEE_BPS] t price bps
    by (simp add: fees_ok_def SIGNUP_PLATFORM_FEE_BPS_def BETA_PLATFORM_FEE_BPS_def STANDARD_PLATFORM_FEE_BPS_def)
qed

lemma pricing_attempts:
  assumes "pricing_ok s" "wf_db s" "wf_db s'" "attempts_from s s'"
    "showTiers s' = showTiers s" "users s' = users s" "shows_tbl s' = shows_tbl s"
  shows "pricing_ok s'"
proof -
  have "fees_ok a'" if a': "a' \<in> set (paymentAttempts s')" for a'
  proof (cases "did a' \<in> did ` set (paymentAttempts s)")
    case True
    then obtain a where a: "a \<in> set (paymentAttempts s)" "did a = did a'" by auto
    then have "attempt_step a a'"
      using evolvesD [of attempt_step "paymentAttempts s" "paymentAttempts s'" "did a" a] assms(4)
        db_get_in [OF wf_attempts [OF assms(2)] a(1)] db_get_in [OF wf_attempts [OF assms(3)] a']
      by (auto simp: attempts_from_def)
    then have "attempt_terms a' = attempt_terms a" by (simp add: attempt_step_def)
    then show ?thesis
      using assms(1) a attempt_terms_fields [of a' a] by (auto simp: pricing_ok_def fees_ok_def)
  next
    case False
    then show ?thesis using priced_fees_ok [OF assms(1)] assms(4) a' by (auto simp: attempts_from_def)
  qed
  then show ?thesis using assms(1) by (simp add: pricing_ok_def assms(5-7))
qed

lemma validTier_row: "validTier tin \<Longrightarrow> tier_ok (tierRow i n k tin)"
  by (auto simp: validTier_def tier_ok_def tierRow_def Let_def le_floor_iff floor_le_iff)

lemma normalizeTiers_ok:
  "normalizeTiers i n k seen ts = Inr rows \<Longrightarrow> \<forall>r\<in>set rows. tier_ok r"
  by (induction i n k seen ts arbitrary: rows rule: normalizeTiers.induct)
     (auto simp: Let_def validTier_row split: if_splits)

lemma fold_deleteTier:
  "showTiers (fold deleteTier ts s) = filter (\<lambda>t. did t \<notin> did ` set ts) (showTiers s)"
  "users (fold deleteTier ts s) = users s" "shows_tbl (fold deleteTier ts s) = shows_tbl s"
  "paymentAttempts (fold deleteTier ts s) = paymentAttempts s"
  by (induction ts arbitrary: s) (auto simp: deleteTier_def db_delete_def intro!: filter_cong)

lemma insertTier_simps [simp]:
  "showTiers (insertTier c r s) = showTiers s @ [r\<lparr>did := nextId s, ctime := now c\<rparr>]"
  "users (insertTier c r s) = users s" "shows_tbl (insertTier c r s) = shows_tbl s"
  "paymentAttempts (insertTier c r s) = paymentAttempts s"
  by (simp_all add: insertTier_def db_insert_def)

lemma fold_insertTier:
  "\<exists>news. showTiers (fold (insertTier c) rows s) = showTiers s @ news \<and>
     (\<forall>t\<in>set news. \<exists>r\<in>set rows. \<exists>i x. t = r\<lparr>did := i, ctime := x\<rparr>)"
  "users (fold (insertTier c) rows s) = users s" "shows_tbl (fold (insertTier c) rows s) = shows_tbl s"
  "paymentAttempts (fold (insertTier c) rows s) = paymentAttempts s"
proof -
  show "\<exists>news. showTiers (fold (insertTier c) rows s) = showTiers s @ news \<and>
     (\<forall>t\<in>set news. \<exists>r\<in>set rows. \<exists>i x. t = r\<lparr>did := i, ctime := x\<rparr>)"
  proof (induction rows arbitrary: s)
    case (Cons r rows)
    obtain news where "showTiers (fold (insertTier c) rows (insertTier c r s)) = showTiers (insertTier c r s) @ news"
      "\<forall>t\<in>set news. \<exists>r\<in>set rows. \<exists>i x. t = r\<lparr>did := i, ctime := x\<rparr>" using Cons by blast
    then show ?case
      by (intro exI [of _ "r\<lparr>did := nextId s, ctime := now c\<rparr> # news"]) auto
  qed simp
qed (induction rows arbitrary: s; simp)+

lemma tiers_replace_pricing:
  assumes "pricing_ok s"
  shows "ensures pricing_ok (tiers_replace c i ts s)"
proof -
  have "pricing_ok (fold (insertTier c) rows (fold deleteTier old s))"
    if "normalizeTiers i n 0 [] ts = Inr rows" for rows old n
  proof -
    obtain news where "showTiers (fold (insertTier c) rows (fold deleteTier old s)) =
        filter (\<lambda>t. did t \<notin> did ` set old) (showTiers s) @ news"
      "\<forall>t\<in>set news. \<exists>r\<in>set rows. \<exists>i x. t = r\<lparr>did := i, ctime := x\<rparr>"
      using fold_insertTier(1) [of c rows "fold deleteTier old s"] by (auto simp: fold_deleteTier)
    moreover have "tier_ok (r\<lparr>did := i, ctime := x\<rparr>) = tier_ok r" for r i x by (simp add: tier_ok_def)
    ultimately show ?thesis
      using assms normalizeTiers_ok [OF that] by (fastforce simp: pricing_ok_def fold_insertTier fold_deleteTier)
  qed
  then show ?thesis
    by (auto simp: tiers_replace_def Let_def ensures_def sat_def split: if_splits)
qed

lemma pricing_shows:
  assumes "pricing_ok s" "users s' = users s" "paymentAttempts s' = paymentAttempts s" "showTiers s' = showTiers s"
    "sh_creatorId ` set (shows_tbl s') \<subseteq> sh_creatorId ` set (shows_tbl s)"
  shows "pricing_ok s'"
proof -
  have "\<exists>u. db_get (users s) (sh_creatorId sh) = Some u \<and> truthy (u_username u)" if "sh \<in> set (shows_tbl s')" for sh
  proof -
    have "sh_creatorId sh \<in> sh_creatorId ` set (shows_tbl s)" using assms(5) that by blast
    then obtain x where "x \<in> set (shows_tbl s)" "sh_creatorId sh = sh_creatorId x" by blast
    then show ?thesis using assms(1) by (auto simp: pricing_ok_def)
  qed
  then show ?thesis using assms(1) by (simp add: pricing_ok_def assms(2-4))
qed

lemma creators_db_patch:
  "(\<And>d. sh_creatorId (f d) = sh_creatorId d) \<Longrightarrow> sh_creatorId ` set (db_patch t i f) \<subseteq> sh_creatorId ` set t"
  by (auto simp: set_db_patch image_iff)

lemma is_creator_truthy: "is_creator u \<Longrightarrow> truthy (u_username u)"
  by (simp add: is_creator_def truthy_def)

lemma shows_create_pricing:
  assumes "pricing_ok s"
  shows "ensures pricing_ok (shows_create c s)"
proof -
  have frame: "pricing_ok (onShowCreated c u s1) = pricing_ok s1" for u s1
    by (simp add: pricing_ok_def onShowCreated_def split: option.split)
  have "pricing_ok s2" if "shows_tbl s2 = db_insert (shows_tbl s) x" "showTiers s2 = db_insert (showTiers s) t"
    "users s2 = users s" "paymentAttempts s2 = paymentAttempts s" "tier_ok t"
    "db_get (users s) (sh_creatorId x) = Some u" "is_creator u" for s2 x t u
    using assms that(5-7) is_creator_truthy [of u] unfolding pricing_ok_def that(1-4) by simp
  then show ?thesis
    unfolding shows_create_def Let_def
    by (intro sat_intros) (auto simp: sat_def frame tier_ok_def)
qed

lemma frame_of_same:
  assumes "same W s s'"
  shows "T_users \<notin> W \<Longrightarrow> users s' = users s" "T_paymentAttempts \<notin> W \<Longrightarrow> paymentAttempts s' = paymentAttempts s"
    "T_showTiers \<notin> W \<Longrightarrow> showTiers s' = showTiers s" "T_shows \<notin> W \<Longrightarrow> shows_tbl s' = shows_tbl s"
  using assms by (simp_all add: sameD)

lemma show_creators_fixed:
  "ensures (\<lambda>s'. sh_creatorId ` set (shows_tbl s') \<subseteq> sh_creatorId ` set (shows_tbl s)) (shows_schedule c i t s)"
  "ensures (\<lambda>s'. sh_creatorId ` set (shows_tbl s') \<subseteq> sh_creatorId ` set (shows_tbl s)) (shows_start c i s)"
  "ensures (\<lambda>s'. sh_creatorId ` set (shows_tbl s') \<subseteq> sh_creatorId ` set (shows_tbl s)) (shows_end c i s)"
proof -
  show "ensures (\<lambda>s'. sh_creatorId ` set (shows_tbl s') \<subseteq> sh_creatorId ` set (shows_tbl s)) (shows_schedule c i t s)"
    unfolding shows_schedule_def Let_def by (intro sat_intros) (simp_all add: sat_def creators_db_patch)
  show "ensures (\<lambda>s'. sh_creatorId ` set (shows_tbl s') \<subseteq> sh_creatorId ` set (shows_tbl s)) (shows_start c i s)"
    unfolding shows_start_def Let_def by (intro sat_intros) (simp_all add: sat_def creators_db_patch)
  have "shows_tbl s2 = shows_tbl s1" if "endOpenCall c i s1 = Inr s2" for s1 s2
    using that by (auto simp: endOpenCall_def split: option.splits if_splits elim: applyTransition_cases)
  then have "sh_creatorId ` set (shows_tbl s2) \<subseteq> sh_creatorId ` set (shows_tbl s)"
    if "endOpenCall c i (onShowEnded c sh (patchShow i (\<lambda>d. d\<lparr>sh_status := Show_ENDED, sh_endedAt := Some (now c)\<rparr>) s)) = Inr s2"
    for sh s2 using that by (simp add: creators_db_patch)
  then show "ensures (\<lambda>s'. sh_creatorId ` set (shows_tbl s') \<subseteq> sh_creatorId ` set (shows_tbl s)) (shows_end c i s)"
    unfolding shows_end_def Let_def by (intro sat_intros) (auto simp: sat_def)
qed

lemma createUser_pricing:
  assumes "pricing_ok s" "wf_db s"
  shows "ensures pricing_ok (createOrUpdateUser c e u s)"
proof -
  have wf: "wf_table (nextId s) (users s)" using assms(2) by (simp add: wf_db_def Let_def)
  have "pricing_ok (insertUser c u s)"
    using assms(1) tbl.get_ins_other [OF wf]
    by (fastforce simp: pricing_ok_def insertUser_def)
  moreover have "pricing_ok (createProfile c i n s1) = pricing_ok s1" for i n s1
    by (simp add: pricing_ok_def createProfile_def)
  ultimately show ?thesis
    using assms(1) by (auto simp: createOrUpdateUser_def ensures_def sat_def split: option.splits list.splits if_splits)
qed

lemma exec_pricing:
  assumes "pricing_ok s" "wf_db s"
  shows "pricing_ok (exec h c r s)"
proof (cases "{T_showTiers, T_users, T_shows} \<inter> writes r = {}")
  case True
  have "wf_db (exec h c r s)" using exec_wf [of s h c r] assms(2) by (simp add: sat_def)
  then show ?thesis
    using pricing_attempts [OF assms _ exec_attempts [OF assms(2)], of h c r] True frame_of_same [OF exec_same [of r s h c]]
    by simp
next
  case False
  have sat: "sat pricing_ok s" using assms(1) by (simp add: sat_def)
  have moved: "pricing_ok (exec h c r s)"
    if "sh_creatorId ` set (shows_tbl (exec h c r s)) \<subseteq> sh_creatorId ` set (shows_tbl s)"
      "{T_showTiers, T_users, T_paymentAttempts} \<inter> writes r = {}"
    using pricing_shows [OF assms(1)] that frame_of_same [OF exec_same [of r s h c]] by simp
  have fixed: "sh_creatorId ` set (shows_tbl (commit s m)) \<subseteq> sh_creatorId ` set (shows_tbl s)"
    if "ensures (\<lambda>s'. sh_creatorId ` set (shows_tbl s') \<subseteq> sh_creatorId ` set (shows_tbl s)) m"
    for m :: "error_code + show_doc \<times> db"
    using sat_commit [OF _ that] by (simp add: sat_def)
  show ?thesis
  proof (cases r)
    case (Stage q)
    show ?thesis
    proof (cases q)
      case CreateShow
      then show ?thesis using Stage sat_commit [OF sat shows_create_pricing [OF assms(1)]] by (simp add: sat_def)
    next
      case (ReplaceTiers i ts)
      then show ?thesis using Stage sat_commit [OF sat tiers_replace_pricing [OF assms(1)]] by (simp add: sat_def)
    next
      case (ScheduleShow i t)
      then show ?thesis using Stage by (intro moved) (simp_all add: fixed show_creators_fixed)
    next
      case (StartShow i)
      then show ?thesis using Stage by (intro moved) (simp_all add: fixed show_creators_fixed)
    next
      case (EndShow i)
      then show ?thesis using Stage by (intro moved) (simp_all add: fixed show_creators_fixed)
    qed (use False Stage in simp_all)
  next
    case (Money q)
    then show ?thesis using False by (cases q) simp_all
  next
    case (Social q)
    show ?thesis
    proof (cases q)
      case (CreateUser e u)
      then show ?thesis using Social sat_commit [OF sat createUser_pricing [OF assms]] by (simp add: sat_def)
    qed (use False Social in simp_all)
  qed
qed

lemma pricing_empty: "pricing_ok empty_db"
  by (simp add: pricing_ok_def empty_db_def)

interpretation pricing: inductive_invariant h wf_db pricing_ok for h
  using exec_pricing by unfold_locales (auto intro: reachable_wf pricing_empty)

section \<open>Entries are only added\<close>

lemma post_keeps: "set (ledgerEntries s) \<subseteq> set (ledgerEntries (post c e s))"
  by (auto simp: post_keys)

lemma ledger_op_keeps:
  "set (ledgerEntries s) \<subseteq> set (ledgerEntries (creditEarning c a i t s))"
  "set (ledgerEntries s) \<subseteq> set (ledgerEntries (reverseForRefund c r s))"
  "set (ledgerEntries s) \<subseteq> set (ledgerEntries (adjustForDispute c d s))"
  using creditEarning_cases [of c a i t s] reverseForRefund_cases [of c r s] adjustForDispute_cases [of c d s]
    post_keeps by (metis order_refl)+

interpretation appending: ledger_ops "\<lambda>s. set (ledgerEntries s0) \<subseteq> set (ledgerEntries s)" for s0
  by unfold_locales (auto simp: same_ledger_def dest: subsetD [OF ledger_op_keeps(1)]
      subsetD [OF ledger_op_keeps(2)] subsetD [OF ledger_op_keeps(3)] subsetD [OF post_keeps])

text \<open>Nothing but a credited earning is of kind \<open>EARNING\<close> or carries an earning's key.\<close>

definition earning_like :: "ledger_doc \<Rightarrow> bool" where
  "earning_like e \<longleftrightarrow> le_kind e = EARNING \<or> (\<exists>a. le_idempotencyKey e = EarningKey a)"

definition no_new_earning :: "db \<Rightarrow> db \<Rightarrow> bool" where
  "no_new_earning s0 s \<longleftrightarrow> (\<forall>e\<in>set (ledgerEntries s). earning_like e \<longrightarrow> e \<in> set (ledgerEntries s0))"

lemma post_no_new_earning: "no_new_earning s0 s \<Longrightarrow> \<not> earning_like e \<Longrightarrow> no_new_earning s0 (post c e s)"
  by (auto simp: no_new_earning_def post_keys earning_like_def)

interpretation quiet: ledger_moves "no_new_earning s0" for s0
proof unfold_locales
  fix s s'
  show "same_ledger s s' \<Longrightarrow> no_new_earning s0 s \<Longrightarrow> no_new_earning s0 s'"
    by (simp add: no_new_earning_def same_ledger_def)
next
  fix s c r
  show "wf_db s \<Longrightarrow> no_new_earning s0 s \<Longrightarrow> no_new_earning s0 (reverseForRefund c r s)"
    by (auto simp: reverseForRefund_def Let_def earning_like_def intro!: post_no_new_earning split: option.split)
next
  fix s c d
  show "wf_db s \<Longrightarrow> no_new_earning s0 s \<Longrightarrow> no_new_earning s0 (adjustForDispute c d s)"
    by (auto simp: adjustForDispute_def disputeEntry_def earning_like_def intro!: post_no_new_earning split: option.split)
next
  fix s c item
  show "wf_db s \<Longrightarrow> no_new_earning s0 s \<Longrightarrow> no_new_earning s0 (post c (reservationEntry c item) s)"
    by (intro post_no_new_earning) (simp_all add: earning_like_def reservationEntry_def)
qed

lemma quiet_transition:
  assumes "applyTransition c call t s = Inr (x, s')" "t \<noteq> Call_LIVE"
  shows "same_ledger s s'"
proof -
  have "creditIfLive c call t (scheduleExpiry c call t s) = s"
    using assms(2) by (simp add: creditIfLive_def scheduleExpiry_def goesLive_def)
  then show ?thesis using applyTransition_ledger [OF assms(1)] by (auto simp: same_ledger_def)
qed

lemma quiet_stage:
  "t \<noteq> Call_LIVE \<Longrightarrow> ensures (same_ledger s) (calls_transition c i t s)"
  "ensuresDb (same_ledger s) (calls_expire c i s)" "ensuresDb (same_ledger s) (presence_checkGrace c i r d s)"
  "ensures (same_ledger s) (shows_end c i s)"
proof -
  have refl: "same_ledger s s" by (simp add: same_ledger_def)
  show "t \<noteq> Call_LIVE \<Longrightarrow> ensures (same_ledger s) (calls_transition c i t s)"
    "ensuresDb (same_ledger s) (calls_expire c i s)" "ensuresDb (same_ledger s) (presence_checkGrace c i r d s)"
    by (auto simp: calls_transition_def calls_expire_def presence_checkGrace_def ensures_def ensuresDb_def sat_def refl
        split: option.splits if_splits dest: quiet_transition)
  have "same_ledger s s2" if "endOpenCall c i (onShowEnded c sh (patchShow i f s)) = Inr s2" for sh f s2
  proof -
    have "same_ledger (onShowEnded c sh (patchShow i f s)) s2"
      using that by (auto simp: endOpenCall_def same_ledger_def split: option.splits if_splits dest: quiet_transition [unfolded same_ledger_def])
    then show ?thesis by (simp add: same_ledger_def onShowEnded_def split: option.splits)
  qed
  then show "ensures (same_ledger s) (shows_end c i s)"
    unfolding shows_end_def Let_def using refl
    by (intro sat_intros) (auto simp: sat_def same_ledger_def)
qed

lemma exec_no_new_earning:
  assumes "wf_db s" "\<not> may_go_live r"
  shows "no_new_earning s (exec h c r s)"
proof (cases "T_ledgerEntries \<in> writes r \<or> T_creatorBalances \<in> writes r")
  case False
  then show ?thesis using sameD(15) [OF exec_same] by (simp add: no_new_earning_def)
next
  case True
  have start: "no_new_earning s s" by (simp add: no_new_earning_def)
  have sat: "sat (same_ledger s) s" by (simp add: sat_def same_ledger_def)
  show ?thesis
  proof (cases r)
    case (Stage q)
    then have "same_ledger s (exec h c r s)" using True assms(2)
      by (cases q) (auto simp: sat_commit [OF sat, unfolded sat_def] sat_commitDb [OF sat, unfolded sat_def]
          quiet_stage may_go_live_def)
    then show ?thesis by (simp add: no_new_earning_def same_ledger_def)
  next
    case (Money q)
    then show ?thesis using True start
      by (cases q) (simp_all add: quiet.keeps_record [OF assms(1)] quiet.keeps_webhook [OF assms(1)]
          quiet.keeps_reserveBatch [OF assms(1)])
  next
    case (Social q)
    then show ?thesis using True by (cases q) simp_all
  qed
qed

section \<open>An earning per live paid call\<close>

definition earning_of :: "ledger_doc \<Rightarrow> call_doc \<Rightarrow> attempt_doc \<Rightarrow> bool" where
  "earning_of e c p \<longleftrightarrow> le_kind e = EARNING \<and> le_idempotencyKey e = EarningKey (did p) \<and>
     le_paymentAttemptId e = Some (did p) \<and> le_callId e = Some (did c) \<and>
     le_creatorId e = pa_creatorId p \<and> le_currency e = pa_currency p \<and>
     le_amountCents e = pa_amountCents p - pa_platformFeeCents p \<and>
     c_paymentAttemptId c = Some (did p) \<and> c_startedAt c \<noteq> None"

definition earn_ok :: "db \<Rightarrow> bool" where
  "earn_ok s \<longleftrightarrow>
     (\<forall>e\<in>set (ledgerEntries s). earning_like e \<longrightarrow>
        (\<exists>c\<in>set (calls s). \<exists>p\<in>set (paymentAttempts s). earning_of e c p)) \<and>
     (\<forall>c\<in>set (calls s). \<forall>a. c_startedAt c \<noteq> None \<and> c_paymentAttemptId c = Some a \<longrightarrow>
        (\<exists>e\<in>set (ledgerEntries s). le_idempotencyKey e = EarningKey a))"

lemma evolves_set:
  assumes "evolves R (T s) (T s')" "wf_table n (T s)" "d \<in> set (T s)"
  shows "\<exists>d'\<in>set (T s'). did d' = did d \<and> R d d'"
  using evolvesD [OF assms(1) db_get_in [OF assms(2,3)]] by (auto dest: db_get_SomeD)

lemma call_terms_fields:
  assumes "call_terms c' = call_terms c"
  shows "did c' = did c" "c_showId c' = c_showId c" "c_paymentAttemptId c' = c_paymentAttemptId c"
    "c_creatorId c' = c_creatorId c" "c_viewerId c' = c_viewerId c" "c_queueEntryId c' = c_queueEntryId c"
    "c_callDurationSeconds c' = c_callDurationSeconds c"
  using assms by (simp_all add: call_terms_def)

lemma earning_of_later:
  assumes "earning_of e c p" "call_future c c'" "attempt_step p p'"
  shows "earning_of e c' p'"
  using assms call_terms_fields [of c' c] attempt_terms_fields [of p' p]
  by (auto simp: earning_of_def call_future_def attempt_step_def)

lemma old_earnings_kept:
  assumes "earn_ok s" "wf_db s" "evolves call_future (calls s) (calls s')" "attempts_from s s'"
    "e \<in> set (ledgerEntries s)" "earning_like e"
  shows "\<exists>c\<in>set (calls s'). \<exists>p\<in>set (paymentAttempts s'). earning_of e c p"
proof -
  obtain c p where cp: "c \<in> set (calls s)" "p \<in> set (paymentAttempts s)" "earning_of e c p"
    using assms(1,5,6) unfolding earn_ok_def by blast
  obtain c' where "c' \<in> set (calls s')" "call_future c c'"
    using evolves_set [where T = calls, OF assms(3) wf_calls [OF assms(2)] cp(1)] by blast
  moreover obtain p' where "p' \<in> set (paymentAttempts s')" "attempt_step p p'"
    using evolves_set [where T = paymentAttempts and R = attempt_step, OF _ wf_attempts [OF assms(2)] cp(2), of s'] assms(4)
    unfolding attempts_from_def by blast
  ultimately show ?thesis using earning_of_later [OF cp(3)] by blast
qed

lemma exec_future: "wf_db s \<Longrightarrow> evolves call_future (calls s) (calls (exec h c r s))"
  using call_move_evolves [OF exec_call_move] call_step_future unfolding evolves_def by meson

text \<open>A request that does not take a call live leaves the set of started calls as it was.\<close>

lemma quiet_started:
  assumes "call_move False s s'" "wf_db s" "c' \<in> set (calls s')" "c_startedAt c' \<noteq> None"
  shows "\<exists>c\<in>set (calls s). c_startedAt c \<noteq> None \<and> c_paymentAttemptId c = c_paymentAttemptId c'"
proof -
  consider "calls s' = calls s"
    | x where "c_startedAt x = None" "calls s' = db_insert (calls s) x"
    | x f where "db_get (calls s) (did x) = Some x" "call_step x (f x)" "c_startedAt (f x) = c_startedAt x"
        "calls s' = db_patch (calls s) (did x) f"
    using assms(1) unfolding call_move_def by blast
  then show ?thesis
  proof cases
    case 1
    then show ?thesis using assms(3,4) by auto
  next
    case 2
    then show ?thesis using assms(3,4) by auto
  next
    case 3
    have x: "x \<in> set (calls s)" using db_get_SomeD [OF 3(1)] by simp
    from assms(3) [unfolded 3(4)] show ?thesis
    proof (rule in_db_patchE)
      assume "c' \<in> set (calls s)"
      then show ?thesis using assms(4) by blast
    next
      fix y assume y: "y \<in> set (calls s)" "did y = did x" "c' = f y"
      then have "y = x" using wf_table_inj [OF wf_calls [OF assms(2)] y(1) x] by simp
      then show ?thesis
        using y(3) assms(4) 3(2,3) x call_terms_fields [of "f x" x] by (auto simp: call_step_def)
    qed
  qed
qed

lemma quiet_earn_ok:
  assumes "earn_ok s" "wf_db s" "\<not> may_go_live r"
  shows "earn_ok (exec h c r s)"
proof -
  let ?s' = "exec h c r s"
  have move: "call_move False s ?s'" using exec_call_move [OF assms(2), of r h c] assms(3) by simp
  have keep: "set (ledgerEntries s) \<subseteq> set (ledgerEntries ?s')"
    using appending.keeps_request [OF assms(2), of s] by blast
  have "\<exists>c\<in>set (calls ?s'). \<exists>p\<in>set (paymentAttempts ?s'). earning_of e c p"
    if "e \<in> set (ledgerEntries ?s')" "earning_like e" for e
    using old_earnings_kept [OF assms(1,2) exec_future [OF assms(2)] exec_attempts [OF assms(2)]] that
      exec_no_new_earning [OF assms(2,3)] by (simp add: no_new_earning_def)
  moreover have "\<exists>e\<in>set (ledgerEntries ?s'). le_idempotencyKey e = EarningKey a"
    if x: "x \<in> set (calls ?s')" "c_startedAt x \<noteq> None" "c_paymentAttemptId x = Some a" for x a
  proof -
    obtain y where "y \<in> set (calls s)" "c_startedAt y \<noteq> None" "c_paymentAttemptId y = Some a"
      using quiet_started [OF move assms(2) x(1,2)] x(3) by auto
    then show ?thesis using assms(1) keep unfolding earn_ok_def by blast
  qed
  ultimately show ?thesis by (simp add: earn_ok_def)
qed


lemma live_ledger:
  assumes ok: "earn_ok s" "stage_ok s" "pricing_ok s" "wf_db s"
    and call: "db_get (calls s) (did call) = Some call" "c_status call = Call_CONNECTING"
    and x: "applyTransition c call Call_LIVE s = Inr (x, s')"
  shows "case c_paymentAttemptId call of None \<Rightarrow> ledgerEntries s' = ledgerEntries s
    | Some a \<Rightarrow> \<exists>e p. p \<in> set (paymentAttempts s) \<and> did p = a \<and> earning_of e (callPatch c call Call_LIVE call) p
        \<and> ledgerEntries s' = db_insert (ledgerEntries s) e"
proof -
  have c: "call \<in> set (calls s)" using db_get_SomeD [OF call(1)] by simp
  have cok: "call_ok (showIsLive s) (attempt_status s) call" using stage_okD [OF ok(2) c] .
  have fresh: "c_startedAt call = None" using cok call(2) by (simp add: call_ok_def times_ok_def)
  let ?s1 = "scheduleExpiry c call Call_LIVE s"
  have s1: "paymentAttempts ?s1 = paymentAttempts s" "ledgerEntries ?s1 = ledgerEntries s"
    by (simp_all add: scheduleExpiry_def runAt_def)
  have led: "ledgerEntries s' = ledgerEntries (creditIfLive c call Call_LIVE ?s1)"
    using applyTransition_ledger [OF x] call(2) by (auto simp: same_ledger_def)
  show ?thesis
  proof (cases "c_paymentAttemptId call")
    case None
    then show ?thesis by (simp add: led creditIfLive_def attemptOf_def s1)
  next
    case (Some a)
    obtain p where p: "db_get (paymentAttempts s) a = Some p" "pa_status p = Pay_CAPTURED"
      using cok Some call(2) by (auto simp: call_ok_def paid_ok_def status_defs attempt_status_def)
    have did: "did p = a" "p \<in> set (paymentAttempts s)" using db_get_SomeD [OF p(1)] by auto
    have amount: "pa_amountCents p - pa_platformFeeCents p \<noteq> 0"
      using ok(3) did(2) by (auto simp: pricing_ok_def fees_ok_def)
    have "entryByKey s (EarningKey a) = None"
    proof (rule ccontr)
      assume "entryByKey s (EarningKey a) \<noteq> None"
      then obtain e where e: "e \<in> set (ledgerEntries s)" "le_idempotencyKey e = EarningKey a"
        by (auto simp: entryByKey_def dest: first_by_SomeD)
      then obtain y q where y: "y \<in> set (calls s)" "earning_of e y q"
        using ok(1) unfolding earn_ok_def earning_like_def by blast
      then have "c_paymentAttemptId y = Some a" "c_startedAt y \<noteq> None" using e(2) by (auto simp: earning_of_def)
      then show False
        using calls_okD(3) [OF ok(2) [unfolded stage_ok_def] y(1) c] Some fresh by auto
    qed
    then have new: "entryByKey ?s1 (EarningKey a) = None" by (simp add: entryByKey_def s1)
    obtain e where e: "creditIfLive c call Call_LIVE ?s1 = post c e ?s1" "le_amountCents e = pa_amountCents p - pa_platformFeeCents p"
      "le_idempotencyKey e = EarningKey a" "earning_of (e\<lparr>did := i, ctime := j\<rparr>) (callPatch c call Call_LIVE call) p" for i j
      using Some p did fresh
      by (simp add: creditIfLive_def attemptOf_def goesLive_def s1 creditEarning_def earning_of_def callPatch_def)
    then have "ledgerEntries s' = db_insert (ledgerEntries s) (e\<lparr>did := nextId ?s1, ctime := now c\<rparr>)"
      using new amount led s1 by (cases rule: post_cases [of e ?s1 c]) auto
    then show ?thesis using Some e(4) did by auto
  qed
qed

lemma live_earn_ok:
  assumes ok: "earn_ok s" "stage_ok s" "pricing_ok s" "wf_db s"
    and call: "db_get (calls s) (did call) = Some call" "c_status call \<noteq> Call_LIVE"
    and x: "applyTransition c call Call_LIVE s = Inr (x, s')"
  shows "earn_ok s'"
proof (cases rule: applyTransition_cases [OF x])
  case 1
  then show ?thesis using call(2) by simp
next
  case 2
  let ?f = "callPatch c call Call_LIVE"
  have conn: "c_status call = Call_CONNECTING" using transition_targets(4) [OF 2(1)] by simp
  have mem: "call \<in> set (calls s)" using db_get_SomeD [OF call(1)] by simp
  have calls': "y = ?f call \<or> y \<in> set (calls s) \<and> y \<noteq> call" if "y \<in> set (calls s')" for y
    using that mem wf_table_inj [OF wf_calls [OF ok(4)] _ mem] unfolding 2(3) by (auto elim!: in_db_patchE)
  have new: "?f call \<in> set (calls s')" unfolding 2(3) set_db_patch using mem by blast
  have "call_move True s s'" using applyTransition_move [OF x call(1)] by simp
  then have future: "evolves call_future (calls s) (calls s')"
    using call_move_evolves [OF _ ok(4)] call_step_future unfolding evolves_def by meson
  have origin: "attempts_from s s'" using 2(7) by (simp add: attempts_from_def evolves_def)
  note led = live_ledger [OF ok call(1) conn x]
  show ?thesis
  proof (cases "c_paymentAttemptId call")
    case None
    then have eq: "ledgerEntries s' = ledgerEntries s" using led by simp
    have "c_paymentAttemptId (?f call) = None" using None by (simp add: callPatch_def)
    then show ?thesis
      using old_earnings_kept [OF ok(1,4) future origin] ok(1) calls' unfolding earn_ok_def eq by (metis option.distinct(1))
  next
    case (Some a)
    obtain e p where e: "p \<in> set (paymentAttempts s)" "did p = a" "earning_of e (?f call) p"
      "ledgerEntries s' = db_insert (ledgerEntries s) e"
      using led Some by auto
    have "\<exists>y\<in>set (calls s'). \<exists>q\<in>set (paymentAttempts s'). earning_of d y q"
      if "d \<in> set (ledgerEntries s')" "earning_like d" for d
      using that e new 2(7) old_earnings_kept [OF ok(1,4) future origin _ that(2)] by auto
    moreover have "\<exists>d\<in>set (ledgerEntries s'). le_idempotencyKey d = EarningKey b"
      if y: "y \<in> set (calls s')" "c_startedAt y \<noteq> None" "c_paymentAttemptId y = Some b" for y b
    proof (cases "y = ?f call")
      case True
      then show ?thesis using y(3) e(3,4) by (auto simp: earning_of_def)
    next
      case False
      then have "y \<in> set (calls s)" using calls' [OF y(1)] by simp
      then show ?thesis using y ok(1) e(4) unfolding earn_ok_def by auto
    qed
    ultimately show ?thesis by (simp add: earn_ok_def)
  qed
qed

lemma exec_earn_ok:
  assumes "earn_ok s" "stage_ok s" "pricing_ok s" "wf_db s"
  shows "earn_ok (exec h c r s)"
proof (cases "may_go_live r")
  case False
  then show ?thesis by (rule quiet_earn_ok [OF assms(1,4)])
next
  case True
  then obtain i where r: "r = Stage (TransitionCall i Call_LIVE)" by (auto simp: may_go_live_def)
  have "earn_ok s'" if m: "calls_transition c i Call_LIVE s = Inr (v, s')" for v s'
  proof -
    obtain call role x where call: "callForParticipant c i s = Inr (call, role)"
      "applyTransition c call Call_LIVE s = Inr (x, s')"
      using m by (auto simp: calls_transition_def split: if_splits)
    have get: "db_get (calls s) (did call) = Some call" using callForParticipant_InrD [OF call(1)] by simp
    show ?thesis
    proof (cases "c_status call = Call_LIVE")
      case True
      then show ?thesis
        using call(2) assms(1) by (cases rule: applyTransition_cases [OF call(2)]) simp_all
    next
      case False
      then show ?thesis using live_earn_ok [OF assms get _ call(2)] by simp
    qed
  qed
  then show ?thesis
    using assms(1) by (cases "calls_transition c i Call_LIVE s") (auto simp: r)
qed

lemma earn_empty: "earn_ok empty_db"
  by (simp add: earn_ok_def empty_db_def)

interpretation earnings: inductive_invariant h "\<lambda>s. wf_db s \<and> stage_ok s \<and> pricing_ok s" earn_ok for h
  using exec_earn_ok by unfold_locales (auto intro: reachable_wf reachable_stage pricing.holds earn_empty)

section \<open>Refunds Bling requests\<close>

definition refund_backed :: "call_doc list \<Rightarrow> refund_doc \<Rightarrow> bool" where
  "refund_backed cs r \<longleftrightarrow> rf_reason r = ''OUTSIDE_BLING'' \<or> (\<exists>c\<in>set cs. did c = rf_callId r \<and>
     c_paymentAttemptId c = Some (rf_paymentAttemptId r) \<and> c_startedAt c = None \<and> c_status c \<in> {Call_ENDED, Call_FAILED})"

definition refunds_backed :: "db \<Rightarrow> bool" where
  "refunds_backed s \<longleftrightarrow> (\<forall>r\<in>set (paymentRefunds s). refund_backed (calls s) r)"

lemma refund_backed_later:
  fixes s s' :: db
  assumes "refund_backed (calls s) r" "wf_db s" "evolves call_future (calls s) (calls s')"
  shows "refund_backed (calls s') r"
proof -
  have "c \<in> set (calls s')" if "c \<in> set (calls s)" "c_status c \<in> {Call_ENDED, Call_FAILED}" for c
    using evolves_set [where T = calls, OF assms(3) wf_calls [OF assms(2)] that(1)] that(2)
    by (auto simp: call_future_def)
  then show ?thesis using assms(1) unfolding refund_backed_def by blast
qed

text \<open>The rows of \<open>paymentRefunds\<close> after a request: old ones, perhaps updated, and new ones.\<close>

definition refunds_from :: "db \<Rightarrow> db \<Rightarrow> bool" where
  "refunds_from s0 s \<longleftrightarrow> (\<forall>r\<in>set (paymentRefunds s). rf_reason r = ''OUTSIDE_BLING'' \<or>
     (\<exists>d\<in>set (paymentRefunds s0). rf_callId r = rf_callId d \<and> rf_paymentAttemptId r = rf_paymentAttemptId d
        \<and> rf_reason r = rf_reason d))"

lemma refunds_from_patch:
  assumes "sat (refunds_from s0) s"
    "\<And>d. rf_callId (f d) = rf_callId d \<and> rf_paymentAttemptId (f d) = rf_paymentAttemptId d \<and> rf_reason (f d) = rf_reason d"
  shows "sat (refunds_from s0) (patchRefund i f s)"
  using assms by (fastforce simp: sat_def refunds_from_def elim!: in_db_patchE)

lemma refunds_from_same: "sat (refunds_from s0) s \<Longrightarrow> paymentRefunds s' = paymentRefunds s \<Longrightarrow> sat (refunds_from s0) s'"
  by (simp add: sat_def refunds_from_def)

lemma refunds_from_start: "sat (refunds_from s) s"
  by (auto simp: sat_def refunds_from_def)

lemma refunds_from_backed:
  assumes "refunds_backed s" "refunds_from s s'" "wf_db s" "evolves call_future (calls s) (calls s')"
  shows "refunds_backed s'"
  unfolding refunds_backed_def
proof
  fix r assume r: "r \<in> set (paymentRefunds s')"
  show "refund_backed (calls s') r"
  proof (cases "rf_reason r = ''OUTSIDE_BLING''")
    case False
    then obtain d where d: "d \<in> set (paymentRefunds s)" "rf_callId r = rf_callId d"
      "rf_paymentAttemptId r = rf_paymentAttemptId d" "rf_reason r = rf_reason d"
      using assms(2) r by (auto simp: refunds_from_def)
    have "refund_backed (calls s') d"
      using refund_backed_later [OF _ assms(3,4)] assms(1) d(1) by (simp add: refunds_backed_def)
    then show ?thesis using d by (simp add: refund_backed_def)
  qed (simp add: refund_backed_def)
qed

lemma requestRefund_rows:
  "r \<in> set (paymentRefunds (requestRefund c a i why s)) \<Longrightarrow> r \<in> set (paymentRefunds s) \<or>
     (rf_callId r = i \<and> rf_paymentAttemptId r = did a)"
  by (auto simp: requestRefund_def Let_def split: option.splits if_splits)

lemma attemptOf_SomeD: "attemptOf s call = Some p \<Longrightarrow> c_paymentAttemptId call = Some (did p)"
  by (auto simp: attemptOf_def split: option.splits dest: db_get_SomeD)

lemma applyTransition_refunds:
  assumes x: "applyTransition c call t s = Inr (x, s')" and call: "db_get (calls s) (did call) = Some call"
    and r: "r \<in> set (paymentRefunds s')" "r \<notin> set (paymentRefunds s)"
  shows "refund_backed (calls s') r"
proof (cases "c_status call = t")
  case True
  then have "s' = s" using x by (cases rule: applyTransition_cases [OF x]) simp_all
  then show ?thesis using r by simp
next
  case False
  let ?s1 = "patchEntry (c_queueEntryId call) (\<lambda>e. e\<lparr>q_status := entryStatusFor t\<rparr>) (patchCall (did call) (callPatch c call t)
      (creditIfLive c call t (scheduleExpiry c call t s)))"
  have can: "canTransition (c_status call) t"
    using x False by (rule_tac ccontr) (simp add: applyTransition_def)
  have s': "s' = cleanUpFinished c call t ?s1"
    using x False can
    by (simp only: applyTransition_def Let_def not_True_eq_False if_False sum.inject prod.inject)
  have same: "paymentRefunds ?s1 = paymentRefunds s"
    by (simp add: creditIfLive_def creditEarning_def scheduleExpiry_def runAt_def split: option.split)
  have p: "finishes t" "c_startedAt call = None" "c_paymentAttemptId call = Some (rf_paymentAttemptId r)"
    "rf_callId r = did call"
    using r same unfolding s'
    by (auto simp: cleanUpFinished_def refundIfNeverLive_def dropPresence_def split: if_splits option.splits
        dest!: requestRefund_rows attemptOf_SomeD)
  have "callPatch c call t call \<in> set (calls s')"
    unfolding s' using db_get_SomeD [OF call] by (auto simp: set_db_patch)
  then show ?thesis
    using p unfolding refund_backed_def
    by (intro disjI2 bexI [of _ "callPatch c call t call"])
       (auto simp: callPatch_def goesLive_def finishes_def)
qed

lemma recordCaptured_refunds:
  assumes ok: "stage_ok s" "wf_db s" and a: "db_get (paymentAttempts s) (did a) = Some a"
    and r: "r \<in> set (paymentRefunds (recordCaptured c a s))" "r \<notin> set (paymentRefunds s)"
  shows "refund_backed (calls (recordCaptured c a s)) r"
proof -
  note m = markCaptured_simps [OF a]
  have mr: "paymentRefunds (markCaptured c a s) = paymentRefunds s" by (simp add: markCaptured_def)
  have live: "showIsLive (markCaptured c a s) = showIsLive s" by (rule showIsLive_cong) (rule m)
  have cf: "callForAttempt (markCaptured c a s) (did a) = callForAttempt s (did a)"
    by (rule callForAttempt_cong) (rule m)
  obtain call where call: "callForAttempt s (did a) = Some call" "c_startedAt call = None" "\<not> showIsLive s (c_showId call)"
    "rf_callId r = did call" "rf_paymentAttemptId r = did a"
    and calls': "calls (recordCaptured c a s) = (if c_status call = Call_PAYMENT_PENDING then db_patch (calls s) (did call)
      (\<lambda>d. d\<lparr>c_status := Call_FAILED, c_endedAt := Some (now c)\<rparr>) else calls s)"
  proof (cases "callForAttempt s (did a)")
    case None
    then show ?thesis using r by (simp add: recordCaptured_def Let_def cf mr)
  next
    case (Some call)
    let ?cap = "case db_get (paymentAttempts (markCaptured c a s)) (did a) of Some x \<Rightarrow> x | None \<Rightarrow> a"
    have did: "did ?cap = did a" by (auto split: option.split dest: db_get_SomeD)
    have fp: "paymentRefunds (failPendingCall c call (markCaptured c a s)) = paymentRefunds s"
      by (simp add: failPendingCall_def mr)
    have "\<not> (c_status call = Call_PAYMENT_PENDING \<and> showIsLive s (c_showId call))"
      "c_startedAt call = None \<and> \<not> showIsLive s (c_showId call)"
      using r Some by (auto simp: recordCaptured_def Let_def cf live mr split: if_splits)
    then have eq: "recordCaptured c a s = requestRefund c ?cap (did call) ''show_ended_before_call_started''
        (failPendingCall c call (markCaptured c a s))"
      and st: "c_startedAt call = None" "\<not> showIsLive s (c_showId call)"
      using Some by (simp_all add: recordCaptured_def Let_def cf live)
    have "rf_callId r = did call" "rf_paymentAttemptId r = did a"
      using requestRefund_rows r fp did unfolding eq by metis+
    moreover have "calls (recordCaptured c a s) = (if c_status call = Call_PAYMENT_PENDING then db_patch (calls s) (did call)
      (\<lambda>d. d\<lparr>c_status := Call_FAILED, c_endedAt := Some (now c)\<rparr>) else calls s)"
      unfolding eq by (simp add: m)
    ultimately show ?thesis using that [OF Some st] by blast
  qed
  have mem: "call \<in> set (calls s)" "c_paymentAttemptId call = Some (did a)" using callForAttempt_SomeD [OF call(1)] by auto
  have "\<not> connectable call" using stage_okD [OF ok(1) mem(1)] call(3) by (auto simp: call_ok_def)
  then have st: "c_status call \<in> {Call_PAYMENT_PENDING, Call_ENDED, Call_FAILED}"
    by (cases "c_status call") (simp_all add: status_defs)
  let ?call' = "if c_status call = Call_PAYMENT_PENDING then call\<lparr>c_status := Call_FAILED, c_endedAt := Some (now c)\<rparr> else call"
  have "?call' \<in> set (calls (recordCaptured c a s))"
    unfolding calls' using mem(1) by (auto simp: set_db_patch image_iff)
  then show ?thesis
    using call(2,4,5) mem(2) st unfolding refund_backed_def by (intro disjI2 bexI [of _ ?call']) auto
qed

lemma transition_backed:
  assumes "applyTransition c call t s = Inr (x, s')" "db_get (calls s) i = Some call" "refunds_backed s" "wf_db s"
  shows "refunds_backed s'"
proof -
  have get: "db_get (calls s) (did call) = Some call" using assms(2) by (rule db_get_self)
  have future: "evolves call_future (calls s) (calls s')"
    using call_move_evolves [OF applyTransition_move [OF assms(1) get, of True] assms(4)] call_step_future
    unfolding evolves_def by meson
  show ?thesis unfolding refunds_backed_def
  proof
    fix r assume "r \<in> set (paymentRefunds s')"
    then show "refund_backed (calls s') r"
      using applyTransition_refunds [OF assms(1) get] refund_backed_later [OF _ assms(4) future] assms(3)
      by (cases "r \<in> set (paymentRefunds s)") (auto simp: refunds_backed_def)
  qed
qed

lemma captured_backed:
  assumes "stage_ok s" "wf_db s" "refunds_backed s" "db_get (paymentAttempts s) (did a) = Some a"
  shows "refunds_backed (recordCaptured c a s)"
proof -
  have future: "evolves call_future (calls s) (calls (recordCaptured c a s))"
    using call_move_evolves [OF recordCaptured_move [OF assms(2,4), of True c] assms(2)] call_step_future
    unfolding evolves_def by meson
  show ?thesis unfolding refunds_backed_def
  proof
    fix r assume "r \<in> set (paymentRefunds (recordCaptured c a s))"
    then show "refund_backed (calls (recordCaptured c a s)) r"
      using recordCaptured_refunds [OF assms(1,2,4)] refund_backed_later [OF _ assms(2) future] assms(3)
      by (cases "r \<in> set (paymentRefunds s)") (auto simp: refunds_backed_def)
  qed
qed

lemma notCaptured_backed:
  assumes "wf_db s" "refunds_backed s"
  shows "refunds_backed (recordNotCaptured c a st code s)"
proof (rule refunds_from_backed [OF assms(2) _ assms(1)])
  have "paymentRefunds (recordNotCaptured c a st code s) = paymentRefunds s"
    by (simp add: recordNotCaptured_def Let_def releaseEntry_def split: option.split)
  then show "refunds_from s (recordNotCaptured c a st code s)" by (auto simp: refunds_from_def)
  show "evolves call_future (calls s) (calls (recordNotCaptured c a st code s))"
    using call_move_evolves [OF recordNotCaptured_move [OF assms(1), of True c a st code] assms(1)] call_step_future
    unfolding evolves_def by meson
qed

lemma refunds_backed_cong:
  "paymentRefunds s' = paymentRefunds s \<Longrightarrow> calls s' = calls s \<Longrightarrow> refunds_backed s' = refunds_backed s"
  by (simp add: refunds_backed_def)

lemma stage_backed:
  assumes "wf_db s" "refunds_backed s"
  shows "ensures refunds_backed (calls_transition c i t s)" "ensuresDb refunds_backed (calls_expire c i s)"
    "ensuresDb refunds_backed (presence_checkGrace c i r d s)" "ensures refunds_backed (shows_end c i s)"
proof -
  show "ensures refunds_backed (calls_transition c i t s)" "ensuresDb refunds_backed (calls_expire c i s)"
    "ensuresDb refunds_backed (presence_checkGrace c i r d s)"
    using assms transition_backed [OF _ _ assms(2,1)]
    by (auto simp: calls_transition_def calls_expire_def presence_checkGrace_def ensures_def ensuresDb_def sat_def
        split: option.splits if_splits dest!: callForParticipant_InrD)
  have "refunds_backed s2" if s2: "endOpenCall c i s1 = Inr s2"
    and s1: "s1 = onShowEnded c sh (patchShow i (\<lambda>d. d\<lparr>sh_status := Show_ENDED, sh_endedAt := Some (now c)\<rparr>) s)" for sh s1 s2
  proof -
    have "sat wf_db s1" unfolding s1 using assms(1) by (intro wf_intros) (auto simp: sat_def)
    then have wf1: "wf_db s1" by (simp add: sat_def)
    have b1: "refunds_backed s1"
      using assms(2) refunds_backed_cong [of s1 s] by (simp add: s1 onShowEnded_def split: option.split)
    have "refunds_backed s2" if "applyTransition c call Call_ENDED s1 = Inr (x, s2)" "activeCallForShow s1 i = Some call" for call x
      using transition_backed [OF that(1) db_get_in [OF wf_calls [OF wf1]] b1 wf1] activeCallForShow_SomeD [OF that(2)] by simp
    then show ?thesis
      using s2 b1 by (auto simp: endOpenCall_def split: option.splits if_splits)
  qed
  then show "ensures refunds_backed (shows_end c i s)"
    unfolding shows_end_def Let_def using assms(2)
    by (intro sat_intros) (auto simp: sat_def refunds_backed_cong [of "runAfter _ _ _ _"])
qed

lemma webhook_backed:
  assumes "stage_ok s" "wf_db s" "refunds_backed s"
  shows "refunds_backed (webhooks_apply c a s)"
proof -
  let ?s = "recordEvent c a s"
  have ok: "stage_ok ?s" "wf_db ?s" "refunds_backed ?s"
    using assms recordEvent_stage recordEvent_wf refunds_backed_cong [of ?s s]
    by (simp_all add: recordEvent_frame) (simp add: recordEvent_def)
  have intent: "refunds_backed (applyIntent c ty i ?s)" for ty i
  proof (cases "attemptForIntent ?s (Some (wi_id i))")
    case None
    then show ?thesis using ok by (simp add: applyIntent_def)
  next
    case (Some p)
    have "refunds_backed (patchAttempt j f s1) = refunds_backed s1" for j f s1 by (simp add: refunds_backed_def)
    then show ?thesis
      using captured_backed [OF ok attempt_of_intent [OF Some ok(2)]] notCaptured_backed [OF ok(2,3)]
      by (simp add: applyIntent_def Some Let_def)
  qed
  have refund: "sat (refunds_from ?s) (applyRefund c x ?s)" for x
  proof -
    have "sat (refunds_from ?s) (snd (refundRow c x ?s))"
      by (auto simp: refundRow_def Let_def sat_def refunds_from_def outsideRefund_def split: option.splits)
    moreover have "sat (refunds_from ?s) (settleRefund c x d s1)" if s1: "sat (refunds_from ?s) s1" for d s1
    proof -
      have rev: "paymentRefunds (reverseForRefund c y s2) = paymentRefunds s2" for y s2
        using reverseForRefund_cases [of c y s2] by auto
      show ?thesis unfolding settleRefund_def
        by (intro sat_intros refunds_from_patch s1 refunds_from_same [OF _ rev]) (auto intro: refunds_from_patch s1)
    qed
    ultimately show ?thesis by (cases "refundRow c x ?s") (auto simp: applyRefund_def split: option.split)
  qed
  show ?thesis
  proof (cases "wh_intent a")
    case (Some i)
    then show ?thesis using intent assms(3) by (simp add: webhooks_apply_def applyEvent_def)
  next
    case None
    have calls: "calls (applyEvent c a ?s) = calls ?s" using sameD(5) [OF other_event_same [OF None]] by simp
    have dis: "paymentRefunds (adjustForDispute c y s2) = paymentRefunds s2" for y s2
      using adjustForDispute_cases [of c y s2] by auto
    have "paymentRefunds (applyDispute c d ?s) = paymentRefunds ?s" for d
    proof -
      obtain x s2 where x: "saveDispute c d ?s = (x, s2)" by force
      then have "paymentRefunds s2 = paymentRefunds ?s"
        by (auto simp: saveDispute_def Let_def split: option.splits)
      then show ?thesis by (simp add: applyDispute_def x dis split: option.split)
    qed
    then have "refunds_from ?s (applyEvent c a ?s)"
      using refund refunds_from_start [of ?s]
      by (auto simp: applyEvent_def None sat_def applyPayout_def refunds_from_def split: option.split)
    then have "refunds_backed (applyEvent c a ?s)"
      using refunds_from_backed [OF ok(3) _ ok(2)] calls by (simp add: evolves_def call_future_def)
    then show ?thesis using assms(3) by (simp add: webhooks_apply_def)
  qed
qed

lemma refund_requests_backed:
  "sat (refunds_from s) (snd (refunds_claim c i s))" "sat (refunds_from s) (refunds_record c i x st code s)"
  "sat (refunds_from s) (refunds_retry c i code2 s)"
proof -
  note start = refunds_from_start [of s]
  have rev: "paymentRefunds (reverseForRefund c y s2) = paymentRefunds s2" for y s2
    using reverseForRefund_cases [of c y s2] by auto
  have run: "sat (refunds_from s) (runAfter c d j s2) = sat (refunds_from s) s2" for d j s2
    by (simp add: sat_def refunds_from_def)
  have reversed: "sat (refunds_from s) (reverseForRefund c y s2) = sat (refunds_from s) s2" for y s2
    by (simp add: sat_def refunds_from_def rev)
  show "sat (refunds_from s) (snd (refunds_claim c i s))" "sat (refunds_from s) (refunds_retry c i code2 s)"
    using start by (auto simp: refunds_claim_def refunds_retry_def Let_def run intro!: refunds_from_patch split: option.split)
  show "sat (refunds_from s) (refunds_record c i x st code s)"
    using start by (auto simp: refunds_record_def Let_def run reversed intro!: refunds_from_patch split: option.split)
qed

lemma exec_backed:
  assumes "refunds_backed s" "stage_ok s" "wf_db s"
  shows "refunds_backed (exec h c r s)"
proof (cases "T_paymentRefunds \<in> writes r")
  case False
  then have "refunds_from s (exec h c r s)" using sameD(10) [OF exec_same] by (auto simp: refunds_from_def)
  then show ?thesis using refunds_from_backed [OF assms(1) _ assms(3) exec_future [OF assms(3)]] by blast
next
  case True
  have sat: "sat refunds_backed s" using assms(1) by (simp add: sat_def)
  have moved: "refunds_backed (exec h c r s)" if "sat (refunds_from s) (exec h c r s)"
    using refunds_from_backed [OF assms(1) _ assms(3) exec_future [OF assms(3)]] that by (simp add: sat_def)
  have "refunds_backed (payments_captured c i s)" for i
    using assms captured_backed [OF assms(2,3,1)]
    by (auto simp: payments_captured_def split: option.split dest: db_get_self)
  note captured = this
  show ?thesis
  proof (cases r)
    case (Stage q)
    then show ?thesis
      using True by (cases q) (simp_all add: sat_commit [OF sat, unfolded sat_def] sat_commitDb [OF sat, unfolded sat_def]
          stage_backed [OF assms(3,1)])
  next
    case (Money q)
    then show ?thesis
      using True captured webhook_backed [OF assms(2,3,1)] moved
      by (cases q) (simp_all add: refund_requests_backed)
  next
    case (Social q)
    then show ?thesis using True by (cases q) simp_all
  qed
qed

lemma backed_empty: "refunds_backed empty_db"
  by (simp add: refunds_backed_def empty_db_def)

interpretation backed: inductive_invariant h "\<lambda>s. wf_db s \<and> stage_ok s" refunds_backed for h
  using exec_backed by unfold_locales (auto intro: reachable_wf reachable_stage backed_empty)

end
