(* ===== verification/Money_Properties.thy ===== *)
theory Money_Properties
  imports Earnings
begin

text \<open>
  What creators earn, what callers are charged and what Bling refunds, over every run of the system.
\<close>

lemma distinct_filter_single:
  assumes "distinct (map f xs)" "x \<in> set xs" "P x" "\<And>y. y \<in> set xs \<Longrightarrow> P y \<Longrightarrow> f y = f x"
  shows "filter P xs = [x]"
proof -
  have "y = x" if "y \<in> set xs" "P y" for y
    using inj_onD [OF _ assms(4) [OF that] that(1) assms(2)] assms(1) by (simp add: distinct_map)
  then have single: "set (filter P xs) = {x}" unfolding set_filter using assms(2,3) by blast
  have "distinct (filter P xs)" using assms(1) by (simp add: distinct_map)
  then have "length (filter P xs) = 1" using distinct_card [of "filter P xs"] single by simp
  then obtain y where "filter P xs = [y]" by (auto simp: length_Suc_conv)
  then show ?thesis using single by simp
qed

text \<open>
  C2. A paid call that went live pays its creator once and exactly: the ledger holds one earning for its
  payment, for the price less Bling's fee at the moment of payment, and the amount is positive.
  No earning is missing (a live call without one) and none is doubled (by a retry, a second
  transition or a redelivered event).
\<close>

theorem live_paid_calls_earn_once:
  assumes "reachable h s" "c \<in> set (calls s)" "c_startedAt c \<noteq> None" "c_paymentAttemptId c = Some a"
  shows "\<exists>p e. db_get (paymentAttempts s) a = Some p \<and>
    filter (\<lambda>e. le_kind e = EARNING \<and> le_paymentAttemptId e = Some a) (ledgerEntries s) = [e] \<and>
    le_creatorId e = pa_creatorId p \<and> le_callId e = Some (did c) \<and>
    le_amountCents e = pa_amountCents p - pa_platformFeeCents p \<and> 0 < le_amountCents e"
proof -
  have wf: "wf_db s" and ok: "stage_ok s" and fees: "pricing_ok s" and earn: "earn_ok s"
    using assms(1) by (auto intro: reachable_wf reachable_stage pricing.holds earnings.holds)
  obtain e where e: "e \<in> set (ledgerEntries s)" "le_idempotencyKey e = EarningKey a"
    using earn assms(2-4) unfolding earn_ok_def by blast
  have backed: "\<exists>c\<in>set (calls s). \<exists>p\<in>set (paymentAttempts s). earning_of y c p"
    if "y \<in> set (ledgerEntries s)" "earning_like y" for y
    using earn that unfolding earn_ok_def by blast
  obtain c' p where p: "c' \<in> set (calls s)" "p \<in> set (paymentAttempts s)" "earning_of e c' p"
    using backed [of e] e unfolding earning_like_def by blast
  then have a: "did p = a" "c_paymentAttemptId c' = Some a" using e(2) by (auto simp: earning_of_def)
  have "c' = c" using calls_okD(3) [OF ok [unfolded stage_ok_def] p(1) assms(2) a(2) assms(4)] .
  moreover have "filter (\<lambda>e. le_kind e = EARNING \<and> le_paymentAttemptId e = Some a) (ledgerEntries s) = [e]"
  proof (rule distinct_filter_single)
    show "distinct (map le_idempotencyKey (ledgerEntries s))"
      using totals.everywhere [OF assms(1)] by (simp add: ledger_ok_def)
    show "le_kind e = EARNING \<and> le_paymentAttemptId e = Some a" using p(3) a by (simp add: earning_of_def)
    fix y assume y: "y \<in> set (ledgerEntries s)" "le_kind y = EARNING \<and> le_paymentAttemptId y = Some a"
    then show "le_idempotencyKey y = le_idempotencyKey e"
      using backed [of y] e(2) by (auto simp: earning_of_def earning_like_def)
  qed (rule e(1))
  moreover have "db_get (paymentAttempts s) a = Some p"
    using db_get_in [OF wf_attempts [OF wf] p(2)] a by simp
  moreover have "fees_ok p" using fees p(2) by (simp add: pricing_ok_def)
  ultimately show ?thesis using p(3) by (auto simp: earning_of_def fees_ok_def)
qed

theorem live_paid_calls_witness:
  "\<exists>e. filter (\<lambda>e. le_kind e = EARNING \<and> le_paymentAttemptId e = Some 10) (ledgerEntries (demo_at 17)) = [e]
     \<and> 0 < le_amountCents e"
  using live_paid_calls_earn_once [OF demo_reachable, of demo_call 17 10] by (auto simp: demo_calls demo_call_def)

text \<open>
  C7. Every earning in the ledger was earned: it belongs to a call that went live, paid for by the payment
  it names, which was not merely authorized; so no creator is credited for a call that never connected, nor
  for a free one.
\<close>

theorem earnings_come_from_live_calls:
  assumes "reachable h s" "e \<in> set (ledgerEntries s)" "le_kind e = EARNING"
  shows "\<exists>c p. c \<in> set (calls s) \<and> c_startedAt c \<noteq> None \<and> le_callId e = Some (did c) \<and>
    c_paymentAttemptId c = Some (did p) \<and> le_paymentAttemptId e = Some (did p) \<and>
    db_get (paymentAttempts s) (did p) = Some p \<and> pa_status p \<notin> {Pay_CREATED, Pay_AUTHORIZED}"
proof -
  obtain c p where cp: "c \<in> set (calls s)" "p \<in> set (paymentAttempts s)" "earning_of e c p"
    using earnings.holds [OF assms(1)] assms(2,3) unfolding earn_ok_def earning_like_def by blast
  have "db_get (paymentAttempts s) (did p) = Some p"
    using db_get_in [OF wf_attempts [OF reachable_wf [OF assms(1)]] cp(2)] .
  then show ?thesis
    using cp call_attempt_known [OF reachable_stage [OF assms(1)] cp(1)]
    by (fastforce simp: earning_of_def attempt_status_def)
qed

theorem earnings_come_from_live_calls_witness:
  "\<exists>e\<in>set (ledgerEntries (demo_at 17)). le_kind e = EARNING \<and> le_callId e = Some 13"
proof -
  have "list_ex (\<lambda>e. le_kind e = EARNING) (ledgerEntries (demo_at 17))" by code_simp
  then obtain e where e: "e \<in> set (ledgerEntries (demo_at 17))" "le_kind e = EARNING" by (auto simp: list_ex_iff)
  then show ?thesis
    using earnings_come_from_live_calls [OF demo_reachable e] by (auto simp: demo_calls demo_call_def)
qed

text \<open>
  C6. Bling never both keeps a creator's earning and refunds the caller on its own account.  A refund that
  Bling itself requests (one not started in the Stripe dashboard) is for a call that finished without
  ever going live, and for the payment of that call; and no earning exists for that payment.
\<close>

theorem requested_refunds_are_unearned:
  assumes "reachable h s" "r \<in> set (paymentRefunds s)" "rf_reason r \<noteq> ''OUTSIDE_BLING''"
  shows "earningFor s (rf_paymentAttemptId r) = None \<and>
    (\<exists>c\<in>set (calls s). did c = rf_callId r \<and> c_paymentAttemptId c = Some (rf_paymentAttemptId r) \<and>
       c_startedAt c = None \<and> c_status c \<in> {Call_ENDED, Call_FAILED})"
proof -
  obtain c where c: "c \<in> set (calls s)" "did c = rf_callId r" "c_paymentAttemptId c = Some (rf_paymentAttemptId r)"
    "c_startedAt c = None" "c_status c \<in> {Call_ENDED, Call_FAILED}"
    using backed.holds [OF assms(1)] assms(2,3) unfolding refunds_backed_def refund_backed_def by blast
  have "\<not> (le_paymentAttemptId e = Some (rf_paymentAttemptId r) \<and> le_kind e = EARNING)"
    if e0: "e \<in> set (ledgerEntries s)" for e
  proof
    assume e: "le_paymentAttemptId e = Some (rf_paymentAttemptId r) \<and> le_kind e = EARNING"
    then obtain c' p where p: "c' \<in> set (calls s)" "earning_of e c' p"
      using earnings.holds [OF assms(1)] e0 unfolding earn_ok_def earning_like_def by blast
    then have "c_paymentAttemptId c' = Some (rf_paymentAttemptId r)" "c_startedAt c' \<noteq> None"
      using e by (auto simp: earning_of_def)
    then show False
      using calls_okD(3) [OF reachable_stage [OF assms(1), unfolded stage_ok_def] p(1) c(1) _ c(3)] c(4) by auto
  qed
  then show ?thesis
    using c by (auto simp: earningFor_def first_by_def find_None_iff)
qed

definition demo_failed :: db where
  "demo_failed = exec demo_host (by_user (Some 0) 9500) (Stage (TransitionCall 13 Call_FAILED)) (demo_at 15)"

lemma demo_failed_reachable: "reachable demo_host demo_failed"
  unfolding demo_failed_def by (intro reachable.step demo_reachable) simp

theorem requested_refunds_witness:
  "\<exists>r\<in>set (paymentRefunds demo_failed). rf_paymentAttemptId r = 10 \<and> earningFor demo_failed 10 = None"
proof -
  have "list_ex (\<lambda>r. rf_paymentAttemptId r = 10 \<and> rf_reason r \<noteq> ''OUTSIDE_BLING'') (paymentRefunds demo_failed)" by code_simp
  then obtain r where "r \<in> set (paymentRefunds demo_failed)" "rf_paymentAttemptId r = 10" "rf_reason r \<noteq> ''OUTSIDE_BLING''"
    by (auto simp: list_ex_iff)
  then show ?thesis using requested_refunds_are_unearned [OF demo_failed_reachable, of r] by auto
qed

text \<open>
  The ledger is an append-only journal: whatever request runs next, from any reachable database, every
  entry of the ledger is still there, unchanged.  Corrections are new entries.
\<close>

theorem ledger_is_append_only:
  assumes "reachable h s"
  shows "set (ledgerEntries s) \<subseteq> set (ledgerEntries (exec h ctx req s))"
  using appending.keeps_request [OF reachable_wf [OF assms], of s] by blast

theorem ledger_is_append_only_witness:
  "set (ledgerEntries (demo_at 17)) \<subseteq> set (ledgerEntries (exec demo_host (by_user None 11000)
     (Money (StripeEvent (demo_refund ''evt_1'' ''re_1'' 300))) (demo_at 17)))"
  by (rule ledger_is_append_only [OF demo_reachable])

text \<open>
  C39. Prices and fees of stored payments are within the published bounds: at least half a dollar and at
  most ten thousand, in US dollars, with a fee that is positive and smaller than the price; and tiers on
  sale cost nothing or a price within those bounds and last thirty seconds to an hour.
\<close>

theorem prices_and_fees_are_in_bounds:
  assumes "reachable h s"
  shows "(\<forall>p\<in>set (paymentAttempts s). 50 \<le> pa_amountCents p \<and> pa_amountCents p \<le> 1000000 \<and>
      0 < pa_platformFeeCents p \<and> pa_platformFeeCents p < pa_amountCents p \<and> pa_currency p = ''usd'') \<and>
    (\<forall>t\<in>set (showTiers s). (ti_priceCents t = 0 \<or> 50 \<le> ti_priceCents t \<and> ti_priceCents t \<le> 1000000) \<and>
      30 \<le> ti_callDurationSeconds t \<and> ti_callDurationSeconds t \<le> 3600)"
  using pricing.holds [OF assms] by (simp add: pricing_ok_def fees_ok_def tier_ok_def)

theorem prices_and_fees_witness:
  "\<exists>p\<in>set (paymentAttempts (demo_at 17)). did p = 10 \<and> 0 < pa_platformFeeCents p \<and> pa_platformFeeCents p < pa_amountCents p"
proof -
  have "list_ex (\<lambda>p. did p = 10) (paymentAttempts (demo_at 17))" by code_simp
  then show ?thesis using prices_and_fees_are_in_bounds [OF demo_reachable, of 17] by (auto simp: list_ex_iff)
qed

end
