(* ===== verification/Queue_Safety.thy ===== *)
theory Queue_Safety
  imports Money_Properties
begin

text \<open>
  The queue over every run: a caller has one entry per show, an entry carries the terms of a tier of
  its show, and a paid entry carries its caller's own payment, for that tier and that price, used by
  no other entry.
\<close>

section \<open>Requests that do not join\<close>

text \<open>What joining fixes in an entry; every other request leaves it alone.\<close>

definition entry_terms :: "queue_doc \<Rightarrow> id \<times> id \<times> id \<times> id \<times> int \<times> int \<times> int \<times> id option" where
  "entry_terms e = (did e, q_showId e, q_viewerId e, q_tierId e, q_priorityRank e, q_callDurationSeconds e,
     q_tierPriceCents e, q_paymentAttemptId e)"

definition entries_keep :: "db \<Rightarrow> db \<Rightarrow> bool" where
  "entries_keep s0 s \<longleftrightarrow> map entry_terms (queueEntries s) = map entry_terms (queueEntries s0)"

named_theorems keep_intros \<open>operations that leave the terms of queue entries alone\<close>

lemma keep_same: "queueEntries s' = queueEntries s \<Longrightarrow> sat (entries_keep s0) s \<Longrightarrow> sat (entries_keep s0) s'"
  by (simp add: sat_def entries_keep_def)

lemma keep_patch [keep_intros]:
  assumes "\<And>e. entry_terms (f e) = entry_terms e" "sat (entries_keep s0) s"
  shows "sat (entries_keep s0) (patchEntry i f s)"
  using assms by (simp add: sat_def entries_keep_def map_db_patch)

lemma keep_frame [keep_intros]:
  assumes "sat (entries_keep s0) s"
  shows "sat (entries_keep s0) (runAfter c d j s)" "sat (entries_keep s0) (scheduleCancel c a why s)"
    "sat (entries_keep s0) (patchCall i g s)" "sat (entries_keep s0) (patchAttempt i k s)"
    "sat (entries_keep s0) (requestRefund c a i why s)" "sat (entries_keep s0) (scheduleExpiry c call t s)"
    "sat (entries_keep s0) (dropPresence i s)"
  using assms
  by (auto intro: keep_same simp: scheduleCancel_def requestRefund_def scheduleExpiry_def dropPresence_def Let_def runAt_def
      split: option.split)

lemma entry_terms_status [simp]: "entry_terms (e\<lparr>q_status := st\<rparr>) = entry_terms e"
  "entry_terms (e\<lparr>q_leftAt := t\<rparr>) = entry_terms e" "entry_terms (e\<lparr>q_selectedAt := t\<rparr>) = entry_terms e"
  by (simp_all add: entry_terms_def)

lemma keep_credit [keep_intros]:
  assumes "sat (entries_keep s0) s"
  shows "sat (entries_keep s0) (creditIfLive c call t s)" "sat (entries_keep s0) (refundIfNeverLive c call t s)"
proof -
  have "queueEntries (creditIfLive c call t s) = queueEntries s"
    using mod_creditIfLive [of "{T_creatorBalances, T_ledgerEntries}" s s c call t] by (simp add: sat_def sameD(4))
  then show "sat (entries_keep s0) (creditIfLive c call t s)" using assms by (rule keep_same)
  show "sat (entries_keep s0) (refundIfNeverLive c call t s)"
    unfolding refundIfNeverLive_def using assms by (intro sat_intros keep_intros)
qed

lemma keep_applyTransition [keep_intros]:
  "sat (entries_keep s0) s \<Longrightarrow> ensures (entries_keep s0) (applyTransition c call t s)"
  unfolding applyTransition_def cleanUpFinished_def Let_def by (intro sat_intros keep_intros) simp_all

lemma keep_payments [keep_intros]:
  assumes "sat (entries_keep s0) s"
  shows "sat (entries_keep s0) (recordCaptured c a s)" "sat (entries_keep s0) (recordNotCaptured c a st code s)"
  using assms unfolding recordCaptured_def markCaptured_def failPendingCall_def recordNotCaptured_def releaseEntry_def Let_def
  by (intro sat_intros keep_intros; simp add: sat_def)+

lemma keep_endOpenCall: "sat (entries_keep s0) s \<Longrightarrow> ensuresDb (entries_keep s0) (endOpenCall c i s)"
  unfolding endOpenCall_def by (intro ensures_bind_state(2) sat_intros keep_intros) simp_all

lemma keep_stage [keep_intros]:
  assumes "sat (entries_keep s0) s"
  shows "ensures (entries_keep s0) (calls_transition c i t s)" "ensuresDb (entries_keep s0) (calls_expire c i s)"
    "ensuresDb (entries_keep s0) (presence_checkGrace c i r d s)" "ensures (entries_keep s0) (queue_leave c i s)"
    "ensures (entries_keep s0) (calls_select c i e s)" "ensures (entries_keep s0) (calls_selectRandom c i s)"
    "ensures (entries_keep s0) (shows_end c i s)"
proof -
  show "ensures (entries_keep s0) (calls_transition c i t s)" "ensuresDb (entries_keep s0) (calls_expire c i s)"
    unfolding calls_transition_def calls_expire_def
    using assms by (intro ensures_bind_state(1,2) sat_intros keep_intros; simp)+
  show "ensuresDb (entries_keep s0) (presence_checkGrace c i r d s)"
    unfolding presence_checkGrace_def using assms by (intro ensures_bind_state(2) sat_intros keep_intros) simp_all
  show "ensures (entries_keep s0) (queue_leave c i s)"
    unfolding queue_leave_def releaseHold_def Let_def using assms by (intro sat_intros keep_intros) simp_all
  have "ensures (entries_keep s0) (createCall c sh q m s)" for sh q m
    unfolding createCall_def openCall_def startCapture_def Let_def using assms
    by (intro sat_intros keep_intros) (auto simp: sat_def entries_keep_def map_db_patch)
  then show "ensures (entries_keep s0) (calls_select c i e s)" "ensures (entries_keep s0) (calls_selectRandom c i s)"
    unfolding calls_select_def calls_selectRandom_def by (intro sat_intros; simp)+
  have "sat (entries_keep s0) (onShowEnded c sh (patchShow i f s))" for sh f
    using assms by (rule keep_same [rotated]) (simp add: onShowEnded_def split: option.split)
  then show "ensures (entries_keep s0) (shows_end c i s)"
    unfolding shows_end_def Let_def using assms by (intro ensures_bind_state(3) sat_intros keep_intros keep_endOpenCall)
qed

lemma keep_closeStatuses: "sat (entries_keep s0) s \<Longrightarrow> sat (entries_keep s0) (snd (closeStatuses c i n sts k s))"
proof (induction sts arbitrary: k s)
  case (Cons st sts)
  have "sat (entries_keep s0) (closeEntry c st e s')" if "sat (entries_keep s0) s'" for e s'
    unfolding closeEntry_def Let_def using that by (intro sat_intros keep_intros) simp_all
  then show ?case using Cons by (auto simp: Let_def intro!: Cons.IH sat_fold)
qed simp

lemma keep_closeQueue [keep_intros]: "sat (entries_keep s0) s \<Longrightarrow> sat (entries_keep s0) (closeQueue c i s)"
  using keep_closeStatuses [of s0 s c i CLOSE_BATCH ACTIVE_ENTRY_STATUSES 0] keep_frame(1)
  by (auto simp: closeQueue_def closeEntries_def split: prod.split)

lemma keep_applyIntent:
  assumes "sat (entries_keep s0) s"
  shows "sat (entries_keep s0) (applyIntent c ty i s)"
  unfolding applyIntent_def Let_def using assms by (intro sat_intros keep_intros)

lemma keep_money [keep_intros]:
  assumes "sat (entries_keep s0) s"
  shows "sat (entries_keep s0) (payments_captured c i s)" "sat (entries_keep s0) (payments_notCaptured c i st code s)"
    "sat (entries_keep s0) (webhooks_apply c a s)"
proof -
  show "sat (entries_keep s0) (payments_captured c i s)" "sat (entries_keep s0) (payments_notCaptured c i st code s)"
    unfolding payments_captured_def payments_notCaptured_def using assms by (intro sat_intros keep_intros; simp)+
  have rec: "sat (entries_keep s0) (recordEvent c a s)"
    using assms by (rule keep_same [rotated]) (simp add: recordEvent_def)
  show "sat (entries_keep s0) (webhooks_apply c a s)"
  proof (cases "wh_intent a")
    case None
    then show ?thesis
      using keep_same [OF sameD(4) [OF other_event_same [OF None, of "recordEvent c a s" c]] rec] assms
      by (simp add: webhooks_apply_def)
  next
    case (Some i)
    then show ?thesis using keep_applyIntent [OF rec] assms by (simp add: webhooks_apply_def applyEvent_def)
  qed
qed

definition joins :: "request \<Rightarrow> bool" where
  "joins r \<longleftrightarrow> (\<exists>a. r = Stage (JoinQueue a)) \<or> (\<exists>a p. r = Stage (JoinWithPayment a p))"

lemma exec_entries_keep:
  assumes "\<not> joins r"
  shows "entries_keep s (exec h c r s)"
proof (cases "T_queueEntries \<in> writes r")
  case False
  then show ?thesis using sameD(4) [OF exec_same] by (simp add: entries_keep_def)
next
  case True
  have sat: "sat (entries_keep s) s" by (simp add: sat_def entries_keep_def)
  note rules = sat_commit [OF sat, unfolded sat_def] sat_commitDb [OF sat, unfolded sat_def]
    keep_stage [OF sat] keep_closeQueue [OF sat, unfolded sat_def] keep_money [OF sat, unfolded sat_def]
  show ?thesis
  proof (cases r)
    case (Stage q)
    then show ?thesis using True assms by (cases q) (simp_all add: rules joins_def)
  next
    case (Money q)
    then show ?thesis using True by (cases q) (simp_all add: rules)
  next
    case (Social q)
    then show ?thesis using True by (cases q) simp_all
  qed
qed

section \<open>The life of a show\<close>

fun show_rank :: "show_status \<Rightarrow> nat" where
  "show_rank Show_CREATED = 0"
| "show_rank Show_LIVE = 1"
| "show_rank Show_ENDED = 2"

definition show_step :: "show_doc \<Rightarrow> show_doc \<Rightarrow> bool" where
  "show_step a b \<longleftrightarrow> did b = did a \<and> sh_creatorId b = sh_creatorId a \<and>
     show_rank (sh_status a) \<le> show_rank (sh_status b) \<and>
     (sh_status a = Show_ENDED \<longrightarrow> b = a) \<and> (sh_status a \<noteq> Show_CREATED \<longrightarrow> sh_startedAt b = sh_startedAt a)"

lemma show_step_refl [simp]: "show_step a a"
  by (simp add: show_step_def)

lemma show_step_trans: "show_step a b \<Longrightarrow> show_step b c \<Longrightarrow> show_step a c"
  by (cases "sh_status a"; cases "sh_status b") (auto simp: show_step_def)

lemma endOpenCall_shows: "endOpenCall c i s = Inr s' \<Longrightarrow> shows_tbl s' = shows_tbl s"
  using mod_endOpenCall [of "UNIV - {T_shows}" s s c i] by (auto simp: ensuresDb_def sat_def dest: sameD(2))

lemma shows_evolve:
  assumes "wf_db s"
  shows "ensures (\<lambda>s'. evolves show_step (shows_tbl s) (shows_tbl s')) (shows_create c s)"
    "ensures (\<lambda>s'. evolves show_step (shows_tbl s) (shows_tbl s')) (shows_schedule c i t s)"
    "ensures (\<lambda>s'. evolves show_step (shows_tbl s) (shows_tbl s')) (shows_start c i s)"
    "ensures (\<lambda>s'. evolves show_step (shows_tbl s) (shows_tbl s')) (shows_end c i s)"
proof -
  let ?P = "\<lambda>s'. evolves show_step (shows_tbl s) (shows_tbl s')"
  have refl: "?P s" by (simp add: evolves_def)
  show "ensures ?P (shows_create c s)"
    using evolves_insert [OF wf_shows [OF assms], of _ show_step]
    by (auto simp: shows_create_def Let_def ensures_def sat_def)
  show "ensures ?P (shows_schedule c i t s)"
    by (auto simp: shows_schedule_def Let_def ensures_def sat_def show_step_def split: if_splits
        dest!: showForCreator_InrD intro!: evolves_patch)
  show "ensures ?P (shows_start c i s)"
    by (auto simp: shows_start_def Let_def ensures_def sat_def show_step_def refl split: if_splits
        dest!: showForCreator_InrD intro!: evolves_patch)
  have "?P s1" if "endOpenCall c i (onShowEnded c sh (patchShow i f s)) = Inr s1" "db_get (shows_tbl s) i = Some sh"
    "show_step sh (f sh)" "\<And>d. did (f d) = did d" for sh f s1
    using endOpenCall_shows [OF that(1)] that(2-4) evolves_patch [of f show_step "shows_tbl s" i] by simp
  moreover have "show_step sh (sh\<lparr>sh_status := Show_ENDED, sh_endedAt := Some (now c)\<rparr>)" if "sh_status sh = Show_LIVE" for sh
    using that by (simp add: show_step_def)
  ultimately show "ensures ?P (shows_end c i s)"
    unfolding shows_end_def Let_def using refl
    by (intro sat_intros) (auto simp: sat_def dest!: showForCreator_InrD)
qed

lemma exec_shows_evolve:
  assumes "wf_db s"
  shows "evolves show_step (shows_tbl s) (shows_tbl (exec h c r s))"
proof (cases "T_shows \<in> writes r")
  case False
  then show ?thesis using sameD(2) [OF exec_same] by (simp add: evolves_def)
next
  case True
  have sat: "sat (\<lambda>s'. evolves show_step (shows_tbl s) (shows_tbl s')) s" by (simp add: sat_def evolves_def)
  show ?thesis
  proof (cases r)
    case (Stage q)
    then show ?thesis using True
      by (cases q) (simp_all add: sat_commit [OF sat, unfolded sat_def] shows_evolve [OF assms])
  next
    case (Money q)
    then show ?thesis using True by (cases q) simp_all
  next
    case (Social q)
    then show ?thesis using True by (cases q) simp_all
  qed
qed

interpretation show_log: document_history h shows_tbl show_step for h
  using exec_shows_evolve reachable_wf by unfold_locales (auto intro: show_step_trans)

section \<open>The tiers of a show that started\<close>

definition started :: "db \<Rightarrow> id \<Rightarrow> bool" where
  "started s i \<longleftrightarrow> (\<exists>sh. db_get (shows_tbl s) i = Some sh \<and> sh_status sh \<noteq> Show_CREATED)"

lemma show_rank_0: "show_rank st = 0 \<longleftrightarrow> st = Show_CREATED"
  by (cases st) simp_all

lemma exec_started:
  assumes "started s i" "wf_db s"
  shows "started (exec h c r s) i"
proof -
  obtain sh where "db_get (shows_tbl s) i = Some sh" "sh_status sh \<noteq> Show_CREATED"
    using assms(1) by (auto simp: started_def)
  then obtain sh' where "db_get (shows_tbl (exec h c r s)) i = Some sh'" "show_step sh sh'"
    using evolvesD [OF exec_shows_evolve [OF assms(2)]] by blast
  moreover have "sh_status sh' \<noteq> Show_CREATED"
    using \<open>show_step sh sh'\<close> \<open>sh_status sh \<noteq> Show_CREATED\<close> show_rank_0 [of "sh_status sh"]
    by (auto simp: show_step_def)
  ultimately show ?thesis by (auto simp: started_def)
qed

lemma started_tiers_stay:
  assumes "started s i" "wf_db s" "t \<in> set (showTiers s)" "ti_showId t = i"
  shows "t \<in> set (showTiers (exec h c r s))"
proof (cases "T_showTiers \<in> writes r")
  case False
  then show ?thesis using sameD(3) [OF exec_same] assms(3) by simp
next
  case True
  have r: "r = Stage CreateShow \<or> (\<exists>j ts. r = Stage (ReplaceTiers j ts))"
  proof (cases r)
    case (Stage q)
    then show ?thesis using True by (cases q) simp_all
  next
    case (Money q)
    then show ?thesis using True by (cases q) simp_all
  next
    case (Social q)
    then show ?thesis using True by (cases q) simp_all
  qed
  have create: "t \<in> set (showTiers s')" if "shows_create c s = Inr (x, s')" for x s'
    using that assms(3) by (auto simp: shows_create_def Let_def onShowCreated_def split: option.split)
  have repl: "t \<in> set (showTiers s')" if m: "tiers_replace c j ts s = Inr (x, s')" for j ts x s'
  proof -
    obtain u sh rows where sh: "showForCreator s j u = Inr sh" "sh_status sh = Show_CREATED"
      and s': "s' = fold (insertTier c) rows (fold deleteTier (query_asc (\<lambda>t. ti_showId t = j) ti_priorityRank (showTiers s)) s)"
      using m by (auto simp: tiers_replace_def Let_def split: if_splits)
    have "j \<noteq> i" using assms(1) sh(2) showForCreator_InrD [OF sh(1)] by (auto simp: started_def)
    then have "did t \<notin> did ` {d \<in> set (showTiers s). ti_showId d = j}"
      using assms(2-4) wf_table_inj [of "nextId s" "showTiers s" t] by (auto simp: wf_db_def Let_def)
    then show ?thesis
      using fold_insertTier(1) [of c rows "fold deleteTier (query_asc (\<lambda>t. ti_showId t = j) ti_priorityRank (showTiers s)) s"]
        assms(3) unfolding s' by (auto simp: fold_deleteTier)
  qed
  show ?thesis
    using r create repl assms(3) by (auto simp: commit_def split: sum.split)
qed

section \<open>Queue entries\<close>

definition hold_ok :: "db \<Rightarrow> queue_doc \<Rightarrow> bool" where
  "hold_ok s e \<longleftrightarrow> (if q_tierPriceCents e > 0
     then \<exists>p. q_paymentAttemptId e = Some (did p) \<and> db_get (paymentAttempts s) (did p) = Some p \<and>
       pa_payerId p = q_viewerId e \<and> pa_showId p = q_showId e \<and> pa_tierId p = q_tierId e \<and>
       pa_amountCents p = q_tierPriceCents e \<and> pa_queueEntryId p = Some (did e)
     else q_paymentAttemptId e = None)"

definition tier_terms_ok :: "db \<Rightarrow> queue_doc \<Rightarrow> bool" where
  "tier_terms_ok s e \<longleftrightarrow> (\<exists>t\<in>set (showTiers s). did t = q_tierId e \<and> ti_showId t = q_showId e \<and>
     ti_priorityRank t = q_priorityRank e \<and> ti_callDurationSeconds t = q_callDurationSeconds e \<and>
     ti_priceCents t = q_tierPriceCents e)"

definition entry_ok :: "db \<Rightarrow> queue_doc \<Rightarrow> bool" where
  "entry_ok s e \<longleftrightarrow> started s (q_showId e) \<and> tier_terms_ok s e \<and> hold_ok s e"

definition queue_ok :: "db \<Rightarrow> bool" where
  "queue_ok s \<longleftrightarrow> distinct (map (\<lambda>e. (q_showId e, q_viewerId e)) (queueEntries s)) \<and>
     (\<forall>e\<in>set (queueEntries s). entry_ok s e)"

text \<open>What is needed of the other tables for an entry to stay as it should be.\<close>

definition supports :: "db \<Rightarrow> db \<Rightarrow> bool" where
  "supports s s' \<longleftrightarrow> (\<forall>i. started s i \<longrightarrow> started s' i) \<and>
     (\<forall>t\<in>set (showTiers s). started s (ti_showId t) \<longrightarrow> t \<in> set (showTiers s')) \<and>
     evolves attempt_step (paymentAttempts s) (paymentAttempts s')"

lemma exec_supports: "wf_db s \<Longrightarrow> supports s (exec h c r s)"
  using exec_started started_tiers_stay exec_attempts unfolding supports_def attempts_from_def by blast

lemma entry_terms_eqs:
  assumes "entry_terms e' = entry_terms e"
  shows "did e' = did e" "q_showId e' = q_showId e" "q_viewerId e' = q_viewerId e" "q_tierId e' = q_tierId e"
    "q_priorityRank e' = q_priorityRank e" "q_callDurationSeconds e' = q_callDurationSeconds e"
    "q_tierPriceCents e' = q_tierPriceCents e" "q_paymentAttemptId e' = q_paymentAttemptId e"
  using assms by (simp_all add: entry_terms_def)

lemma entry_ok_supported:
  assumes "entry_ok s e" "supports s s'" "entry_terms e' = entry_terms e"
  shows "entry_ok s' e'"
proof -
  have "hold_ok s' e'"
  proof (cases "q_tierPriceCents e > 0")
    case True
    then obtain p where p: "q_paymentAttemptId e = Some (did p)" "db_get (paymentAttempts s) (did p) = Some p"
      "pa_payerId p = q_viewerId e" "pa_showId p = q_showId e" "pa_tierId p = q_tierId e"
      "pa_amountCents p = q_tierPriceCents e" "pa_queueEntryId p = Some (did e)"
      using assms(1) by (auto simp: entry_ok_def hold_ok_def)
    obtain p' where "db_get (paymentAttempts s') (did p) = Some p'" "attempt_step p p'"
      using assms(2) evolvesD p(2) unfolding supports_def by blast
    then show ?thesis
      using p True attempt_terms_fields [of p' p]
      by (auto simp: hold_ok_def attempt_step_def entry_terms_eqs [OF assms(3)] intro!: exI [of _ p'])
  next
    case False
    then show ?thesis using assms(1) by (simp add: entry_ok_def hold_ok_def entry_terms_eqs [OF assms(3)])
  qed
  moreover have "started s' (q_showId e') \<and> tier_terms_ok s' e'"
    using assms(1,2) unfolding entry_ok_def tier_terms_ok_def supports_def entry_terms_eqs [OF assms(3)] by metis
  ultimately show ?thesis by (simp add: entry_ok_def)
qed

lemma keep_queue_ok:
  assumes "queue_ok s" "entries_keep s s'" "supports s s'"
  shows "queue_ok s'"
proof -
  have terms: "map entry_terms (queueEntries s') = map entry_terms (queueEntries s)"
    using assms(2) by (simp add: entries_keep_def)
  have "map ((\<lambda>(_, sh, v, _). (sh, v)) \<circ> entry_terms) (queueEntries s') =
        map ((\<lambda>(_, sh, v, _). (sh, v)) \<circ> entry_terms) (queueEntries s)"
    unfolding map_map [symmetric] terms ..
  moreover have "(\<lambda>(_, sh, v, _). (sh, v)) \<circ> entry_terms = (\<lambda>e. (q_showId e, q_viewerId e))"
    by (simp add: fun_eq_iff entry_terms_def)
  ultimately have keys: "map (\<lambda>e. (q_showId e, q_viewerId e)) (queueEntries s') =
      map (\<lambda>e. (q_showId e, q_viewerId e)) (queueEntries s)" by simp
  have "entry_ok s' e'" if "e' \<in> set (queueEntries s')" for e'
  proof -
    have "entry_terms e' \<in> entry_terms ` set (queueEntries s)" using that terms by (metis imageI list.set_map)
    then show ?thesis using assms(1,3) entry_ok_supported unfolding queue_ok_def by blast
  qed
  then show ?thesis using assms(1) keys by (simp add: queue_ok_def)
qed

lemma joinFields_simps [simp]:
  "did (joinFields c args t a e) = did e" "q_showId (joinFields c args t a e) = q_showId e"
  "q_viewerId (joinFields c args t a e) = q_viewerId e" "q_status (joinFields c args t a e) = Q_WAITING"
  "q_tierId (joinFields c args t a e) = did t" "q_priorityRank (joinFields c args t a e) = ti_priorityRank t"
  "q_callDurationSeconds (joinFields c args t a e) = ti_callDurationSeconds t"
  "q_tierPriceCents (joinFields c args t a e) = ti_priceCents t"
  "q_paymentAttemptId (joinFields c args t a e) = map_option did a" "q_joinedAt (joinFields c args t a e) = now c"
  by (simp_all add: joinFields_def)

lemma newEntry_simps [simp]:
  "did (newEntry c i v args t a) = i" "q_showId (newEntry c i v args t a) = ja_showId args"
  "q_viewerId (newEntry c i v args t a) = v" "q_status (newEntry c i v args t a) = Q_WAITING"
  "q_tierId (newEntry c i v args t a) = did t" "q_priorityRank (newEntry c i v args t a) = ti_priorityRank t"
  "q_callDurationSeconds (newEntry c i v args t a) = ti_callDurationSeconds t"
  "q_tierPriceCents (newEntry c i v args t a) = ti_priceCents t"
  "q_paymentAttemptId (newEntry c i v args t a) = map_option did a" "q_joinedAt (newEntry c i v args t a) = now c"
  by (simp_all add: newEntry_def)

lemma attachEntry_frame [simp]:
  "queueEntries (attachEntry a i s) = queueEntries s" "showTiers (attachEntry a i s) = showTiers s"
  "shows_tbl (attachEntry a i s) = shows_tbl s" "nextId (attachEntry a i s) = nextId s"
  by (simp_all add: attachEntry_def split: option.split)

lemma writeEntry_frame:
  "showTiers (snd (writeEntry c v args t ex a s)) = showTiers s" "shows_tbl (snd (writeEntry c v args t ex a s)) = shows_tbl s"
  by (simp_all add: writeEntry_def split: option.split)

lemma tierForJoin_mem: "tierForJoin s args = Some t \<Longrightarrow> t \<in> set (showTiers s)"
  by (auto simp: tierForJoin_def tiersOf_def split: option.splits dest!: head_opt_SomeD db_get_SomeD)

text \<open>The row that joining writes, and the rest of the table around it.\<close>

lemma writeEntry_row:
  assumes "writeEntry c v args t (entryOf s (ja_showId args) v) a s = (i, s')" "wf_db s"
  shows "\<exists>row\<in>set (queueEntries s'). did row = i \<and> q_showId row = ja_showId args \<and> q_viewerId row = v \<and>
    q_status row = Q_WAITING \<and> q_tierId row = did t \<and> q_priorityRank row = ti_priorityRank t \<and>
    q_callDurationSeconds row = ti_callDurationSeconds t \<and> q_tierPriceCents row = ti_priceCents t \<and>
    q_paymentAttemptId row = map_option did a \<and> set (queueEntries s') \<subseteq> insert row (set (queueEntries s)) \<and>
    (distinct (map (\<lambda>e. (q_showId e, q_viewerId e)) (queueEntries s)) \<longrightarrow>
     distinct (map (\<lambda>e. (q_showId e, q_viewerId e)) (queueEntries s')))"
proof (cases "entryOf s (ja_showId args) v")
  case None
  let ?row = "newEntry c (nextId s) v args t a"
  have s': "queueEntries s' = db_insert (queueEntries s) ?row" "i = nextId s"
    using assms(1) by (auto simp: writeEntry_def None)
  have "(ja_showId args, v) \<notin> (\<lambda>e. (q_showId e, q_viewerId e)) ` set (queueEntries s)"
    using None by (auto simp: entryOf_def first_by_None)
  then show ?thesis by (intro bexI [of _ ?row]) (auto simp: s', auto simp: db_insert_def)
next
  case (Some e)
  have e: "e \<in> set (queueEntries s)" "q_showId e = ja_showId args" "q_viewerId e = v"
    using first_by_SomeD [OF Some [unfolded entryOf_def]] by auto
  have wfq: "wf_table (nextId s) (queueEntries s)" using assms(2) by (simp add: wf_db_def Let_def)
  have s': "queueEntries s' = db_patch (queueEntries s) (did e) (joinFields c args t a)" "i = did e"
    using assms(1) by (auto simp: writeEntry_def Some)
  have only: "x = e" if "x \<in> set (queueEntries s)" "did x = did e" for x
    using wf_table_inj [OF wfq that(1) e(1)] that(2) .
  have "map (\<lambda>e. (q_showId e, q_viewerId e)) (queueEntries s') = map (\<lambda>e. (q_showId e, q_viewerId e)) (queueEntries s)"
    unfolding s' by (rule map_db_patch) simp
  then show ?thesis
    using e only by (intro bexI [of _ "joinFields c args t a e"]) (auto simp: s' set_db_patch)
qed

lemma joinQueue_queue_ok:
  assumes "joinQueue c v args p s = Inr (e, s')" "wf_db s" "queue_ok s"
  shows "queue_ok s'"
proof (cases rule: joinQueue_Inr [OF assms(1)])
  case 1
  then show ?thesis using assms(3) by simp
next
  case (2 tier attempt i)
  have hold: "db_get (paymentAttempts s) (did a) = Some a" if "attempt = Some a" for a
    using that 2(5) by (cases p) (auto split: if_splits dest: db_get_self)
  have atts: "attempts_from s s'"
    using writeEntry_attempts [of attempt s v args tier _ c] hold 2(6,8) by (metis snd_conv)
  have frame: "showTiers s' = showTiers s" "shows_tbl s' = shows_tbl s"
    using writeEntry_frame [of c v args tier _ attempt s] 2(8) by (metis snd_conv)+
  have sup: "supports s s'"
    using atts frame by (simp add: supports_def started_def attempts_from_def)
  obtain row where row: "row \<in> set (queueEntries s')" "did row = i" "q_showId row = ja_showId args" "q_viewerId row = v"
    "q_tierId row = did tier" "q_priorityRank row = ti_priorityRank tier"
    "q_callDurationSeconds row = ti_callDurationSeconds tier" "q_tierPriceCents row = ti_priceCents tier"
    "q_paymentAttemptId row = map_option did attempt"
    "set (queueEntries s') \<subseteq> insert row (set (queueEntries s))"
    "distinct (map (\<lambda>e. (q_showId e, q_viewerId e)) (queueEntries s'))"
    using writeEntry_row [OF 2(8) assms(2)] assms(3) unfolding queue_ok_def by blast
  have "hold_ok s' row"
  proof (cases "ti_priceCents tier > 0")
    case True
    then obtain a where a: "attempt = Some a" "pa_payerId a = v" "pa_showId a = ja_showId args" "pa_tierId a = did tier"
      "pa_amountCents a = ti_priceCents tier"
      using 2(6) by (auto simp: usableAttempt_def split: option.splits)
    have "db_get (paymentAttempts s') (did a) = Some (a\<lparr>pa_queueEntryId := Some i\<rparr>)"
      using 2(8) hold [OF a(1)] unfolding a(1)
      by (auto simp: writeEntry_def attachEntry_def db_get_patch split: option.splits)
    then show ?thesis
      using a row True by (auto simp: hold_ok_def intro!: exI [of _ "a\<lparr>pa_queueEntryId := Some i\<rparr>"])
  next
    case False
    then show ?thesis using row 2(5) by (simp add: hold_ok_def)
  qed
  moreover have "tier_terms_ok s' row"
    using row 2(3) tierForJoin_mem [OF 2(2)] frame by (auto simp: tier_terms_ok_def)
  moreover have "started s' (q_showId row)"
    using 2(1) row frame by (auto simp: started_def showIsLive_def split: option.splits)
  ultimately have "entry_ok s' row" by (simp add: entry_ok_def)
  then show ?thesis
    using row(10,11) assms(3) entry_ok_supported [OF _ sup refl] unfolding queue_ok_def by blast
qed

lemma exec_queue_ok:
  assumes "queue_ok s" "wf_db s"
  shows "queue_ok (exec h c r s)"
proof (cases "joins r")
  case False
  then show ?thesis using keep_queue_ok [OF assms(1) exec_entries_keep exec_supports [OF assms(2)]] by simp
next
  case True
  have sat: "sat queue_ok s" using assms(1) by (simp add: sat_def)
  have "ensures queue_ok (queue_join c a s)" "ensures queue_ok (joinWithPayment c a p s)" for a p
    unfolding queue_join_def joinWithPayment_def
    using joinQueue_queue_ok [OF _ assms(2,1)] by (auto simp: ensures_def sat_def)
  then show ?thesis
    using True by (auto simp: joins_def sat_commit [OF sat, unfolded sat_def])
qed

lemma queue_empty: "queue_ok empty_db"
  by (simp add: queue_ok_def empty_db_def)

interpretation queues: inductive_invariant h wf_db queue_ok for h
  using exec_queue_ok by unfold_locales (auto intro: reachable_wf queue_empty)

end
