(* ===== verification/Queue_Properties.thy ===== *)
theory Queue_Properties
  imports Queue_Safety
begin

text \<open>
  What the queue promises: one entry per caller, holds that are the caller's own, joining twice the
  same as joining once, random selection from the best tier with anyone waiting, a queue that empties
  after its show ended, and the life of a show.
\<close>

section \<open>Entries\<close>

text \<open>
  C15. A paid place in the queue is backed by the caller's own payment: in every reachable database an
  entry with a price names a payment by the same caller, for the same show and tier and exactly that
  price, and no other entry of the system names that payment.  A free entry names none.
\<close>

theorem paid_entries_carry_their_own_hold:
  assumes "reachable h s" "e \<in> set (queueEntries s)"
  shows "(q_tierPriceCents e > 0 \<longrightarrow> (\<exists>p. q_paymentAttemptId e = Some (did p) \<and>
      db_get (paymentAttempts s) (did p) = Some p \<and> pa_payerId p = q_viewerId e \<and> pa_showId p = q_showId e \<and>
      pa_tierId p = q_tierId e \<and> pa_amountCents p = q_tierPriceCents e \<and>
      (\<forall>x\<in>set (queueEntries s). q_paymentAttemptId x = Some (did p) \<longrightarrow> x = e))) \<and>
    (q_tierPriceCents e \<le> 0 \<longrightarrow> q_paymentAttemptId e = None)"
proof -
  have ok: "queue_ok s" and wf: "wf_db s" using assms(1) by (auto intro: queues.holds reachable_wf)
  have hold: "hold_ok s x" if "x \<in> set (queueEntries s)" for x
    using ok that by (simp add: queue_ok_def entry_ok_def)
  have wfq: "wf_table (nextId s) (queueEntries s)" using wf by (simp add: wf_db_def Let_def)
  have "x = e" if "x \<in> set (queueEntries s)" "q_paymentAttemptId x = Some a" "db_get (paymentAttempts s) a = Some p"
    "pa_queueEntryId p = Some (did e)" for x a p
  proof -
    have "pa_queueEntryId p = Some (did x)"
      using hold [OF that(1)] that(2,3) by (auto simp: hold_ok_def split: if_splits)
    then have "did x = did e" using that(4) by simp
    then show ?thesis by (rule wf_table_inj [OF wfq that(1) assms(2)])
  qed
  then show ?thesis using hold [OF assms(2)] unfolding hold_ok_def by (auto split: if_splits)
qed

theorem paid_entries_witness:
  "\<exists>e p. e \<in> set (queueEntries (demo_at 17)) \<and> did e = 11 \<and> q_paymentAttemptId e = Some 10 \<and>
     db_get (paymentAttempts (demo_at 17)) 10 = Some p \<and> pa_payerId p = q_viewerId e \<and> pa_amountCents p = 500"
proof -
  have "list_ex (\<lambda>e. did e = 11 \<and> q_tierPriceCents e = 500 \<and> q_paymentAttemptId e = Some 10) (queueEntries (demo_at 17))" by code_simp
  then obtain e where e: "e \<in> set (queueEntries (demo_at 17))" "did e = 11" "q_tierPriceCents e = 500" "q_paymentAttemptId e = Some 10"
    by (auto simp: list_ex_iff)
  have price: "0 < q_tierPriceCents e" using e(3) by simp
  obtain p where p: "q_paymentAttemptId e = Some (did p)" "db_get (paymentAttempts (demo_at 17)) (did p) = Some p"
    "pa_payerId p = q_viewerId e" "pa_amountCents p = q_tierPriceCents e"
    using paid_entries_carry_their_own_hold [OF demo_reachable e(1)] price by blast
  have "did p = 10" using p(1) e(4) by simp
  then show ?thesis using e p by (intro exI [of _ e] exI [of _ p]) simp
qed

lemma entryOf_unique:
  assumes "queue_ok s" "e \<in> set (queueEntries s)"
  shows "entryOf s (q_showId e) (q_viewerId e) = Some e"
  unfolding entryOf_def
proof (rule first_by_unique [OF assms(2)])
  fix y assume y: "y \<in> set (queueEntries s)" "q_showId y = q_showId e \<and> q_viewerId y = q_viewerId e"
  have "inj_on (\<lambda>e. (q_showId e, q_viewerId e)) (set (queueEntries s))"
    using assms(1) by (simp add: queue_ok_def distinct_map)
  then show "y = e" by (rule inj_onD [OF _ _ y(1) assms(2)]) (use y(2) in simp)
qed simp

text \<open>
  C18. Joining is idempotent.  After a caller has joined, joining again for the same show with the
  same details, at any later time and with any payment, gives back the very entry and changes nothing;
  and the entry is the caller's only one for the show.
\<close>

theorem joining_twice_is_joining_once:
  assumes "reachable h s" "joinQueue c v args p s = Inr (e, s')"
  shows "joinQueue c2 v args p2 s' = Inr (e, s') \<and>
    (\<exists>x. e = Some x \<and> filter (\<lambda>y. q_showId y = ja_showId args \<and> q_viewerId y = v) (queueEntries s') = [x])"
proof -
  have ok: "queue_ok s" and wf: "wf_db s" using assms(1) by (auto intro: queues.holds reachable_wf)
  have ok': "queue_ok s'" by (rule joinQueue_queue_ok [OF assms(2) wf ok])
  have main: "\<exists>x. e = Some x \<and> entryOf s' (ja_showId args) v = Some x \<and> q_status x \<noteq> Q_LEFT \<and>
      tierForJoin s' args = tierForJoin s args \<and> showIsLive s' = showIsLive s"
  proof (cases rule: joinQueue_Inr [OF assms(2)])
    case (1 x)
    then show ?thesis by simp
  next
    case (2 tier attempt i)
    have frame: "showTiers s' = showTiers s" "shows_tbl s' = shows_tbl s"
      using writeEntry_frame [of c v args tier _ attempt s] 2(8) by (metis snd_conv)+
    obtain row where row: "row \<in> set (queueEntries s')" "did row = i" "q_showId row = ja_showId args" "q_viewerId row = v"
      "q_status row = Q_WAITING"
      using writeEntry_row [OF 2(8) wf] by blast
    have "wf_db s'" using wf_joinQueue [of s c v args p] wf assms(2) by (auto simp: ensures_def sat_def)
    then have "wf_table (nextId s') (queueEntries s')" by (simp add: wf_db_def Let_def)
    then have "e = Some row" using 2(9) db_get_in row(1,2) by blast
    moreover have "entryOf s' (ja_showId args) v = Some row" using entryOf_unique [OF ok' row(1)] row(3,4) by simp
    moreover have "tierForJoin s' args = tierForJoin s args" "showIsLive s' = showIsLive s"
      by (simp_all add: tierForJoin_def tiersOf_def frame showIsLive_def fun_eq_iff split: option.split)
    ultimately show ?thesis using row(5) by simp
  qed
  then obtain x where x: "e = Some x" "entryOf s' (ja_showId args) v = Some x" "q_status x \<noteq> Q_LEFT"
    "tierForJoin s' args = tierForJoin s args" "showIsLive s' = showIsLive s" by blast
  have "joinQueue c2 v args p2 s' = Inr (e, s')"
    using assms(2) x by (auto simp: joinQueue_def Let_def split: if_splits option.splits)
  moreover have "filter (\<lambda>y. q_showId y = ja_showId args \<and> q_viewerId y = v) (queueEntries s') = [x]"
    using ok' first_by_SomeD [OF x(2) [unfolded entryOf_def]]
    by (intro distinct_filter_single [where f = "\<lambda>e. (q_showId e, q_viewerId e)"]) (auto simp: queue_ok_def)
  ultimately show ?thesis using x(1) by blast
qed

theorem joining_twice_witness:
  "\<exists>x s'. joinQueue (by_user (Some 3) 6000) 3 (demo_join 8) None (demo_at 11) = Inr (Some x, s') \<and>
     joinQueue (by_user (Some 3) 9999) 3 (demo_join 8) None s' = Inr (Some x, s')"
proof -
  have "\<not> (case joinQueue (by_user (Some 3) 6000) 3 (demo_join 8) None (demo_at 11) of Inl _ \<Rightarrow> True | Inr _ \<Rightarrow> False)"
    by code_simp
  then obtain e s' where "joinQueue (by_user (Some 3) 6000) 3 (demo_join 8) None (demo_at 11) = Inr (e, s')"
    by (auto split: sum.splits)
  then show ?thesis using joining_twice_is_joining_once [OF demo_reachable] by blast
qed

end
