(* ===== verification/Selection.thy ===== *)
theory Selection
  imports Queue_Properties
begin

text \<open>
  Choosing a caller, against what it is meant to do: \<open>selectRandom\<close> takes a caller of the best
  tier with anyone waiting, the first to have joined at or after a random point of that tier's join times.
\<close>

section \<open>Picking within a tier\<close>

lemma pickRandom_None [simp]: "pickRandom r ws = None \<longleftrightarrow> ws = []"
  by (simp add: pickRandom_def Let_def split: list.split option.split)

lemma pickRandom_Nil [simp]: "pickRandom r [] = None"
  by simp

text \<open>The point of the join times that \<open>r\<close> stands for.\<close>

definition pivot :: "rat \<Rightarrow> int set \<Rightarrow> rat" where
  "pivot r ts = of_int (Min ts) + r * of_int (Max ts - Min ts)"

lemma sorted_find_first:
  assumes "sorted (map f xs)" "List.find (\<lambda>x. P (f x)) xs = Some y" "x \<in> set xs" "P (f x)"
  shows "f y \<le> f x"
  using assms by (induction xs) (auto split: if_splits)

lemma sorted_ends:
  assumes "sorted (map f ws)" "ws = w # rest"
  shows "Min (f ` set ws) = f w" "Max (f ` set ws) = f (last ws)"
proof -
  show "Min (f ` set ws) = f w" using assms by (intro Min_eqI) auto
  have "ws = butlast ws @ [last ws]" using assms(2) by simp
  then have "sorted (map f (butlast ws @ [last ws]))" using assms(1) by simp
  then have "\<forall>x\<in>set (butlast ws). f x \<le> f (last ws)" by (simp add: sorted_append)
  then have "\<forall>x\<in>set ws. f x \<le> f (last ws)"
    using \<open>ws = butlast ws @ [last ws]\<close> by (metis Un_iff empty_iff empty_set insertE list.simps(15) order_refl set_append)
  then show "Max (f ` set ws) = f (last ws)"
    using assms(2) by (intro Max_eqI) auto
qed

lemma pickRandom_spec:
  assumes "sorted (map q_joinedAt ws)" "0 \<le> r" "r < 1" "pickRandom r ws = Some e"
  shows "e \<in> set ws \<and> pivot r (q_joinedAt ` set ws) \<le> of_int (q_joinedAt e) \<and>
    (\<forall>x\<in>set ws. pivot r (q_joinedAt ` set ws) \<le> of_int (q_joinedAt x) \<longrightarrow> q_joinedAt e \<le> q_joinedAt x)"
proof -
  obtain w rest where ws: "ws = w # rest" using assms(4) by (cases ws) (auto simp: pickRandom_def)
  note ends = sorted_ends [OF assms(1) ws]
  define p where "p = pivot r (q_joinedAt ` set ws)"
  have p: "p = of_int (q_joinedAt w) + r * of_int (q_joinedAt (last ws) - q_joinedAt w)"
    by (simp add: p_def pivot_def ends)
  have "q_joinedAt w \<in> q_joinedAt ` set ws" by (simp add: ws)
  then have span: "q_joinedAt w \<le> q_joinedAt (last ws)"
    using ends(2) by (metis List.finite_set Max_ge finite_imageI)
  have "r * of_int (q_joinedAt (last ws) - q_joinedAt w) \<le> 1 * of_int (q_joinedAt (last ws) - q_joinedAt w)"
    using assms(2,3) span by (intro mult_right_mono) auto
  then have last_ok: "p \<le> of_int (q_joinedAt (last ws))" by (simp add: p)
  have "last ws \<in> set ws" by (simp add: ws)
  then obtain x where x: "List.find (\<lambda>e. p \<le> of_int (q_joinedAt e)) ws = Some x"
    using last_ok find_None_iff' [of "\<lambda>e. p \<le> of_int (q_joinedAt e)" ws] by (metis not_Some_eq)
  have "pickRandom r ws = (case List.find (\<lambda>e. p \<le> of_int (q_joinedAt e)) ws of Some c \<Rightarrow> Some c | None \<Rightarrow> Some (last ws))"
    unfolding pickRandom_def p Let_def ws by simp
  then have "e = x" using assms(4) x by simp
  then show ?thesis
    using find_SomeD [OF x] sorted_find_first [OF assms(1), of "\<lambda>j. p \<le> of_int j" x] x unfolding p_def [symmetric] by blast
qed

section \<open>Picking a tier\<close>

lemma firstRankWaiting_None:
  "firstRankWaiting r s i ks = None \<longleftrightarrow> (\<forall>k\<in>set ks. waitingAtRank s i k = [])"
  by (induction ks) (auto split: option.split)

lemma firstRankWaiting_Some:
  assumes "sorted (rev ks)" "firstRankWaiting r s i ks = Some e"
  shows "\<exists>k\<in>set ks. pickRandom r (waitingAtRank s i k) = Some e \<and>
    (\<forall>k'\<in>set ks. waitingAtRank s i k' \<noteq> [] \<longrightarrow> k' \<le> k)"
  using assms
proof (induction ks)
  case (Cons k ks)
  show ?case
  proof (cases "waitingAtRank s i k = []")
    case True
    then have "firstRankWaiting r s i ks = Some e" using Cons.prems(2) by (simp add: pickRandom_def)
    then show ?thesis using Cons True by (auto simp: sorted_append)
  next
    case False
    then have "pickRandom r (waitingAtRank s i k) = Some e" using Cons.prems(2) by (auto split: option.splits)
    then show ?thesis using Cons.prems(1) by (auto simp: sorted_append)
  qed
qed simp

lemma tierRanks_sorted: "sorted (rev (tierRanks s i))"
proof -
  have "sorted (map ti_priorityRank (query_asc (\<lambda>t. ti_showId t = i) ti_priorityRank (showTiers s)))"
    by (simp add: query_asc_def)
  then have "sorted (rev (map ti_priorityRank (tiersOf s i)))"
    by (simp add: tiersOf_def query_desc_def rev_map)
  then show ?thesis by (simp add: tierRanks_def js_set_def sorted_remdups)
qed

lemma waiting_rank_known:
  assumes "queue_ok s" "e \<in> set (queueEntries s)" "q_showId e = i"
  shows "q_priorityRank e \<in> set (tierRanks s i)"
proof -
  obtain t where "t \<in> set (showTiers s)" "ti_showId t = i" "ti_priorityRank t = q_priorityRank e"
    using assms by (auto simp: queue_ok_def entry_ok_def tier_terms_ok_def)
  then show ?thesis by (force simp: tierRanks_def tiersOf_def)
qed


definition demo_random :: "error_code + call_view option \<times> db" where
  "demo_random = calls_selectRandom (by_user (Some 0) 7000) 5 (demo_at 12)"


end
