(* ===== verification/Queue_Closing.thy ===== *)
theory Queue_Closing
  imports Selection
begin

text \<open>
  Closing the queue of a show that ended: each run of \<open>closeQueue\<close> closes up to
  \<open>CLOSE_BATCH\<close> entries, schedules another run while it closed a full batch, and the runs end
  with nobody left.  The number of active entries is the measure.
\<close>

section \<open>One batch\<close>

definition with_status :: "db \<Rightarrow> id \<Rightarrow> queue_status \<Rightarrow> nat" where
  "with_status s i st = length (filter (\<lambda>e. q_showId e = i \<and> q_status e = st) (queueEntries s))"

definition active_count :: "db \<Rightarrow> id \<Rightarrow> nat" where
  "active_count s i = length (filter (\<lambda>e. q_showId e = i \<and> q_status e \<in> set ACTIVE_ENTRY_STATUSES) (queueEntries s))"

definition closed_entry :: "ctx \<Rightarrow> queue_doc \<Rightarrow> queue_doc" where
  "closed_entry c e = e\<lparr>q_status := Q_ENDED, q_leftAt := Some (now c)\<rparr>"

lemma closeEntry_entries:
  "queueEntries (closeEntry c st e s) = db_patch (queueEntries s) (did e) (closed_entry c)"
  by (simp add: closeEntry_def closed_entry_def [abs_def] Let_def scheduleCancel_def split: option.split)

lemma fold_closeEntry_entries:
  "queueEntries (fold (closeEntry c st) es s)
     = map (\<lambda>x. if did x \<in> did ` set es then closed_entry c x else x) (queueEntries s)"
proof (induction es arbitrary: s)
  case Nil
  then show ?case by simp
next
  case (Cons e es)
  show ?case
    unfolding fold_simps comp_def Cons.IH closeEntry_entries
    by (auto simp: db_patch_def closed_entry_def)
qed

lemma length_filter_mem:
  assumes "distinct xs" "distinct es" "set es \<subseteq> {x \<in> set xs. P x}"
  shows "length (filter (\<lambda>x. P x \<and> x \<notin> set es) xs) + length es = length (filter P xs)"
proof -
  have "length (filter (\<lambda>x. P x \<and> x \<in> set es) xs) = card (set (filter (\<lambda>x. P x \<and> x \<in> set es) xs))"
    by (rule distinct_card [symmetric]) (simp add: assms(1))
  also have "set (filter (\<lambda>x. P x \<and> x \<in> set es) xs) = set es" using assms(3) by auto
  finally have "length (filter (\<lambda>x. P x \<and> x \<in> set es) xs) = length es" using assms(2) by (simp add: distinct_card)
  moreover have "length (filter (\<lambda>x. x \<in> set es) (filter P xs)) + length (filter (\<lambda>x. \<not> x \<in> set es) (filter P xs))
      = length (filter P xs)" by (rule sum_length_filter_compl)
  ultimately show ?thesis by (simp add: conj_commute)
qed

lemma wf_entries: "wf_db s \<Longrightarrow> wf_table (nextId s) (queueEntries s)"
  by (simp add: wf_db_def Let_def)

lemma wf_fold_closeEntry: "wf_db s \<Longrightarrow> wf_db (fold (closeEntry c st) es s)"
  using sat_fold [of wf_db s es "closeEntry c st"] wf_closeEntry by (auto simp: sat_def)

text \<open>Closing some entries of one status lowers that count by as many and leaves the others.\<close>

lemma close_some:
  assumes "wf_db s" "st \<noteq> Q_ENDED" "es = take k (entriesWithStatus s i st)"
  shows "with_status (fold (closeEntry c st) es s) i st + length es = with_status s i st"
    "length es = min k (with_status s i st)"
    "st' \<noteq> st \<Longrightarrow> st' \<noteq> Q_ENDED \<Longrightarrow> with_status (fold (closeEntry c st) es s) i st' = with_status s i st'"
    "{e \<in> set (queueEntries s). \<not> (q_showId e = i \<and> q_status e = st)} \<subseteq> set (queueEntries (fold (closeEntry c st) es s))"
proof -
  let ?q = "queueEntries s"
  have wfq: "wf_table (nextId s) ?q" by (rule wf_entries [OF assms(1)])
  have dq: "distinct ?q" using wfq by (auto simp: wf_table_def distinct_map)
  have all: "set (entriesWithStatus s i st) = {x \<in> set ?q. q_showId x = i \<and> q_status x = st}"
    "distinct (entriesWithStatus s i st)"
    using dq by (auto simp: entriesWithStatus_def query_asc_def)
  then have es: "set es \<subseteq> {x \<in> set ?q. q_showId x = i \<and> q_status x = st}" "distinct es"
    using assms(3) by (auto dest: in_set_takeD)
  have "length (entriesWithStatus s i st) = with_status s i st"
    by (simp add: entriesWithStatus_def query_asc_def with_status_def)
  then show "length es = min k (with_status s i st)" by (simp add: assms(3))
  have mem: "did x \<in> did ` set es \<longleftrightarrow> x \<in> set es" if "x \<in> set ?q" for x
    using wf_table_inj [OF wfq that] es(1) by blast
  have q: "queueEntries (fold (closeEntry c st) es s) = map (\<lambda>x. if x \<in> set es then closed_entry c x else x) ?q"
    unfolding fold_closeEntry_entries by (rule map_cong) (use mem in auto)
  have count: "with_status (fold (closeEntry c st) es s) i t
      = length (filter (\<lambda>x. (q_showId x = i \<and> q_status x = t) \<and> x \<notin> set es) ?q)" if "t \<noteq> Q_ENDED" for t
    unfolding with_status_def q filter_map length_map comp_def
    by (rule arg_cong [where f = length], rule filter_cong) (use that in \<open>auto simp: closed_entry_def\<close>)
  show "with_status (fold (closeEntry c st) es s) i st + length es = with_status s i st"
    by (subst count [OF assms(2)]) (use length_filter_mem [OF dq es(2,1)] in \<open>simp add: with_status_def\<close>)
  show "with_status (fold (closeEntry c st) es s) i st' = with_status s i st'" if "st' \<noteq> st" "st' \<noteq> Q_ENDED"
    by (subst count [OF that(2)], unfold with_status_def, rule arg_cong [where f = length], rule filter_cong)
       (use that(1) es(1) in auto)
  show "{e \<in> set ?q. \<not> (q_showId e = i \<and> q_status e = st)} \<subseteq> set (queueEntries (fold (closeEntry c st) es s))"
    unfolding q using es(1) by force
qed

lemma closeStatuses_counts:
  assumes "wf_db s" "distinct sts" "Q_ENDED \<notin> set sts" "n \<le> limit" "closeStatuses c i limit sts n s = (n', s')"
  shows "n' = min limit (n + sum_list (map (with_status s i) sts)) \<and>
    sum_list (map (with_status s' i) sts) + n' = sum_list (map (with_status s i) sts) + n \<and>
    (\<forall>st. st \<notin> set sts \<longrightarrow> st \<noteq> Q_ENDED \<longrightarrow> with_status s' i st = with_status s i st) \<and>
    {e \<in> set (queueEntries s). \<not> (q_showId e = i \<and> q_status e \<in> set sts)} \<subseteq> set (queueEntries s')"
  using assms
proof (induction sts arbitrary: n s)
  case (Cons st sts)
  show ?case
  proof (cases "n \<ge> limit")
    case True
    then show ?thesis using Cons.prems by auto
  next
    case False
    define es where "es = take (limit - n) (entriesWithStatus s i st)"
    define s1 where "s1 = fold (closeEntry c st) es s"
    have rec: "closeStatuses c i limit sts (n + length es) s1 = (n', s')"
      using Cons.prems(5) False by (simp add: es_def s1_def Let_def)
    note some = close_some(1) [OF Cons.prems(1) _ es_def, where c = c, folded s1_def]
      close_some(2) [OF Cons.prems(1) _ es_def] close_some(3,4) [OF Cons.prems(1) _ es_def, where c = c, folded s1_def]
    have st: "st \<noteq> Q_ENDED" "st \<notin> set sts" using Cons.prems(2,3) by auto
    have le: "n + length es \<le> limit" using some(2) [OF st(1)] False by simp
    have wf1: "wf_db s1" unfolding s1_def by (rule wf_fold_closeEntry [OF Cons.prems(1)])
    have IH: "n' = min limit (n + length es + sum_list (map (with_status s1 i) sts))"
      "sum_list (map (with_status s' i) sts) + n' = sum_list (map (with_status s1 i) sts) + (n + length es)"
      "\<And>t. t \<notin> set sts \<Longrightarrow> t \<noteq> Q_ENDED \<Longrightarrow> with_status s' i t = with_status s1 i t"
      "{e \<in> set (queueEntries s1). \<not> (q_showId e = i \<and> q_status e \<in> set sts)} \<subseteq> set (queueEntries s')"
      using Cons.IH [OF wf1 _ _ le rec] Cons.prems(2,3) by auto
    have "with_status s1 i t = with_status s i t" if "t \<in> set sts" for t
      using some(3) [OF st(1), of t] that st(2) Cons.prems(3) by auto
    then have same: "map (with_status s1 i) sts = map (with_status s i) sts" by simp
    have "with_status s' i t = with_status s i t" if "t \<notin> set (st # sts)" "t \<noteq> Q_ENDED" for t
      using IH(3) [of t] some(3) [OF st(1), of t] that by simp
    moreover have "{e \<in> set (queueEntries s). \<not> (q_showId e = i \<and> q_status e \<in> set (st # sts))} \<subseteq> set (queueEntries s')"
      using some(4) [OF st(1)] IH(4) by auto
    moreover have "with_status s' i st + length es = with_status s i st"
      using IH(3) [OF st(2,1)] some(1) [OF st(1)] by simp
    moreover have "n' = min limit (n + sum_list (map (with_status s i) (st # sts)))"
      using IH(1) some(2) [OF st(1)] False unfolding same by (auto simp: min_def)
    ultimately show ?thesis
      using IH(2) unfolding same by auto
  qed
qed auto

lemma active_count_sum: "active_count s i = sum_list (map (with_status s i) ACTIVE_ENTRY_STATUSES)"
proof -
  have "length (filter (\<lambda>e. q_showId e = i \<and> q_status e \<in> set ACTIVE_ENTRY_STATUSES) q)
      = sum_list (map (\<lambda>st. length (filter (\<lambda>e. q_showId e = i \<and> q_status e = st) q)) ACTIVE_ENTRY_STATUSES)" for q
    unfolding ACTIVE_ENTRY_STATUSES_def by (induction q) auto
  then show ?thesis by (simp add: active_count_def with_status_def [abs_def])
qed

lemma closing_batch:
  assumes "wf_db s"
  shows "active_count (closeQueue ctx i s) i = active_count s i - CLOSE_BATCH"
    "{e \<in> set (queueEntries s). q_showId e \<noteq> i \<or> q_status e \<notin> set ACTIVE_ENTRY_STATUSES}
       \<subseteq> set (queueEntries (closeQueue ctx i s))"
    "closeQueue ctx i s = (if active_count s i \<ge> CLOSE_BATCH
       then runAfter ctx 0 (ShowsCloseQueue i) (snd (closeEntries ctx i CLOSE_BATCH s))
       else snd (closeEntries ctx i CLOSE_BATCH s))"
proof -
  obtain n' s' where cl: "closeEntries ctx i CLOSE_BATCH s = (n', s')" by force
  have "distinct ACTIVE_ENTRY_STATUSES" "Q_ENDED \<notin> set ACTIVE_ENTRY_STATUSES" by (simp_all add: ACTIVE_ENTRY_STATUSES_def)
  note counts = closeStatuses_counts [OF assms this le0 cl [unfolded closeEntries_def]]
  then have n': "n' = min CLOSE_BATCH (active_count s i)" "active_count s' i + n' = active_count s i"
    by (simp_all add: active_count_sum)
  have "active_count (runAfter c d j s2) i = active_count s2 i" for c d j s2 by (simp add: active_count_def)
  then show "active_count (closeQueue ctx i s) i = active_count s i - CLOSE_BATCH"
    using n' by (auto simp: closeQueue_def cl min_def split: if_splits)
  have "{e \<in> set (queueEntries s). q_showId e \<noteq> i \<or> q_status e \<notin> set ACTIVE_ENTRY_STATUSES} \<subseteq> set (queueEntries s')"
    using counts by auto
  then show "{e \<in> set (queueEntries s). q_showId e \<noteq> i \<or> q_status e \<notin> set ACTIVE_ENTRY_STATUSES}
       \<subseteq> set (queueEntries (closeQueue ctx i s))" by (simp add: closeQueue_def cl)
  show "closeQueue ctx i s = (if active_count s i \<ge> CLOSE_BATCH
       then runAfter ctx 0 (ShowsCloseQueue i) (snd (closeEntries ctx i CLOSE_BATCH s))
       else snd (closeEntries ctx i CLOSE_BATCH s))"
    using n' by (auto simp: closeQueue_def cl)
qed

text \<open>
  One run of \<open>closeQueue\<close> closes as many entries still active in the show as fit in a batch,
  leaves every other entry in the system as it is, and schedules the next run exactly when the batch was full.
\<close>

theorem closing_closes_a_batch:
  assumes "reachable h s"
  shows "active_count (closeQueue ctx i s) i = active_count s i - CLOSE_BATCH \<and>
    {e \<in> set (queueEntries s). q_showId e \<noteq> i \<or> q_status e \<notin> set ACTIVE_ENTRY_STATUSES}
       \<subseteq> set (queueEntries (closeQueue ctx i s)) \<and>
    (active_count s i \<ge> CLOSE_BATCH \<longrightarrow> last (jobs (closeQueue ctx i s)) = (now ctx, ShowsCloseQueue i)) \<and>
    (active_count s i < CLOSE_BATCH \<longrightarrow> closeQueue ctx i s = snd (closeEntries ctx i CLOSE_BATCH s))"
  using closing_batch [OF reachable_wf [OF assms], where ctx = ctx and i = i] by (simp add: runAfter_def)

theorem closing_closes_a_batch_witness:
  "active_count (closeQueue (by_user None 7000) 5 (demo_at 12)) 5 = 0 \<and> active_count (demo_at 12) 5 = 2"
proof -
  have "active_count (demo_at 12) 5 = 2" by code_simp
  then show ?thesis
    using closing_closes_a_batch [OF demo_reachable, THEN conjunct1, of "by_user None 7000" 5 12] by (simp add: CLOSE_BATCH_def)
qed



section \<open>The life of a show\<close>

text \<open>
  C17. A show only moves forward: along every run it stays, with its creator, its status goes from created to
  live to ended and never back, the moment it went live is fixed, and once it has ended the whole row is frozen.
\<close>

theorem shows_only_move_forward:
  assumes "reachable h s" "leads_to h s s'" "db_get (shows_tbl s) i = Some sh"
  shows "\<exists>sh'. db_get (shows_tbl s') i = Some sh' \<and> sh_creatorId sh' = sh_creatorId sh \<and>
    show_rank (sh_status sh) \<le> show_rank (sh_status sh') \<and> (sh_status sh = Show_ENDED \<longrightarrow> sh' = sh) \<and>
    (sh_status sh \<noteq> Show_CREATED \<longrightarrow> sh_startedAt sh' = sh_startedAt sh)"
  using show_log.persists [OF assms(2,1,3)] by (auto simp: show_step_def)

theorem shows_only_move_forward_witness:
  "\<exists>sh'. db_get (shows_tbl (demo_at 17)) 5 = Some sh' \<and> sh_startedAt sh' = Some 3000 \<and> sh_creatorId sh' = 0"
proof -
  have "case db_get (shows_tbl (demo_at 7)) 5 of Some sh \<Rightarrow> sh_status sh = Show_LIVE \<and> sh_startedAt sh = Some 3000 \<and> sh_creatorId sh = 0
    | None \<Rightarrow> False" by code_simp
  then obtain sh where sh: "db_get (shows_tbl (demo_at 7)) 5 = Some sh" "sh_status sh = Show_LIVE" "sh_startedAt sh = Some 3000"
    "sh_creatorId sh = 0" by (auto split: option.splits)
  show ?thesis
    using shows_only_move_forward [OF demo_reachable demo_leads_to sh(1), of 17] sh(2-4) by auto
qed

end
