(* ===== verification/Retries.thy ===== *)
theory Retries
  imports Queue_Closing
begin

text \<open>
  Work handed to Stripe under a lease: a refund or a transfer is claimed, sent, and on an error put
  back with a growing delay, ten times at most.  Both follow one protocol, stated as a locale: while a
  lease runs nobody else can claim the work, and a provider that keeps failing is given up on.
\<close>

datatype retry_phase = Ready | Leased | Backing_off | Settled | Given_up

lemma backoffMs_bound: "0 < backoffMs n \<and> backoffMs n \<le> 256000"
proof -
  have "(2 :: int) ^ min n 8 \<le> 2 ^ 8" by (rule power_increasing) simp_all
  then show ?thesis by (simp add: backoffMs_def)
qed

section \<open>The protocol\<close>

locale leased_retry =
  fixes get :: "db \<Rightarrow> id \<Rightarrow> 'd option" and phase :: "'d \<Rightarrow> retry_phase" and attempts :: "'d \<Rightarrow> nat"
    and due_at :: "'d \<Rightarrow> int" and claim :: "ctx \<Rightarrow> id \<Rightarrow> db \<Rightarrow> 'd option \<times> db"
    and retry :: "ctx \<Rightarrow> id \<Rightarrow> db \<Rightarrow> db" and max_attempts :: nat and lease :: int
  assumes no_claim: "get s i = Some d \<Longrightarrow>
        attempts d \<ge> max_attempts \<or> \<not> (phase d = Ready \<or> phase d \<in> {Leased, Backing_off} \<and> due_at d \<le> now c) \<Longrightarrow>
        claim c i s = (None, s)"
    and claims: "get s i = Some d \<Longrightarrow> attempts d < max_attempts \<Longrightarrow>
        phase d = Ready \<or> phase d \<in> {Leased, Backing_off} \<and> due_at d \<le> now c \<Longrightarrow>
        \<exists>d' s'. claim c i s = (Some d', s') \<and> get s' i = Some d' \<and> phase d' = Leased \<and>
          attempts d' = Suc (attempts d) \<and> due_at d' = now c + lease"
    and retries: "get s i = Some d \<Longrightarrow> phase d = Leased \<Longrightarrow>
        \<exists>d'. get (retry c i s) i = Some d' \<and> attempts d' = attempts d \<and>
          (if attempts d \<ge> max_attempts then phase d' = Given_up
           else phase d' = Backing_off \<and> due_at d' = now c + backoffMs (attempts d))"
begin

lemma exclusive:
  assumes "get s i = Some x" "claim c i s = (Some d, s')" "now c' < now c + lease"
  shows "claim c' i s' = (None, s')"
proof -
  have "get s' i = Some d \<and> phase d = Leased \<and> due_at d = now c + lease"
    using claims [OF assms(1), of c] no_claim [OF assms(1), of c] assms(2) by force
  then show ?thesis using no_claim [of s' i d c'] assms(3) by simp
qed

lemma claimed:
  assumes "get s i = Some x" "claim c i s = (Some d, s')"
  shows "get s' i = Some d \<and> attempts d = Suc (attempts x) \<and> attempts d \<le> max_attempts"
  using claims [OF assms(1), of c] no_claim [OF assms(1), of c] assms(2) by force

text \<open>One run against a provider that fails.\<close>

lemma failing_run:
  assumes "get s i = Some d" "attempts d < max_attempts"
    "phase d = Ready \<or> phase d \<in> {Leased, Backing_off} \<and> due_at d \<le> now c"
  shows "\<exists>d'. get (case claim c i s of (None, s') \<Rightarrow> s' | (Some _, s') \<Rightarrow> retry c i s') i = Some d' \<and>
    attempts d' = Suc (attempts d) \<and> (if attempts d' \<ge> max_attempts then phase d' = Given_up
      else phase d' = Backing_off \<and> due_at d' = now c + backoffMs (attempts d'))"
proof -
  obtain d1 s1 where 1: "claim c i s = (Some d1, s1)" "get s1 i = Some d1" "phase d1 = Leased" "attempts d1 = Suc (attempts d)"
    using claims [OF assms] by blast
  show ?thesis using retries [OF 1(2,3), of c] 1(1,4) by auto
qed

lemma gives_up:
  assumes "get s i = Some d" "attempts d + length cs = max_attempts" "cs \<noteq> []"
    "\<forall>c\<in>set cs. phase d = Ready \<or> phase d \<in> {Leased, Backing_off} \<and> due_at d \<le> now c"
    "sorted_wrt (\<lambda>c c'. now c + 256000 \<le> now c') cs"
  shows "\<exists>d'. get (fold (\<lambda>c s. case claim c i s of (None, s') \<Rightarrow> s' | (Some _, s') \<Rightarrow> retry c i s') cs s) i = Some d'
    \<and> phase d' = Given_up \<and> attempts d' = max_attempts"
  using assms
proof (induction cs arbitrary: s d)
  case (Cons c cs)
  let ?s = "case claim c i s of (None, s') \<Rightarrow> s' | (Some _, s') \<Rightarrow> retry c i s'"
  obtain d' where d': "get ?s i = Some d'" "attempts d' = Suc (attempts d)"
    "if attempts d' \<ge> max_attempts then phase d' = Given_up
     else phase d' = Backing_off \<and> due_at d' = now c + backoffMs (attempts d')"
    using failing_run [OF Cons.prems(1), of c] Cons.prems(2,4) by auto
  show ?case
  proof (cases cs)
    case Nil
    then show ?thesis using d' Cons.prems(2) by auto
  next
    case (Cons c2 cs2)
    have later: "now c + 256000 \<le> now x" if "x \<in> set cs" for x
      using Cons.prems(5) that by simp
    have "backoffMs (attempts d') \<le> 256000" using backoffMs_bound by simp
    then have "due_at d' \<le> now x" if "x \<in> set cs" for x
      using later [OF that] d'(2,3) Cons.prems(2) Cons by (auto split: if_splits)
    then show ?thesis
      using Cons.IH [OF d'(1)] d'(2,3) Cons.prems(2,5) Cons by (auto split: if_splits)
  qed
qed simp

end

section \<open>Refunds and transfers follow it\<close>

primrec refund_phase :: "refund_status \<Rightarrow> retry_phase" where
  "refund_phase Ref_REQUESTED = Ready"
| "refund_phase Ref_PROCESSING = Leased"
| "refund_phase Ref_PENDING = Backing_off"
| "refund_phase Ref_RETRY = Backing_off"
| "refund_phase Ref_SUCCEEDED = Settled"
| "refund_phase Ref_FAILED = Given_up"

lemma refund_phase_eqs:
  "refund_phase st = Ready \<longleftrightarrow> st = Ref_REQUESTED" "refund_phase st = Leased \<longleftrightarrow> st = Ref_PROCESSING"
  "refund_phase st = Backing_off \<longleftrightarrow> st = Ref_PENDING \<or> st = Ref_RETRY" "refund_phase st = Given_up \<longleftrightarrow> st = Ref_FAILED"
  by (cases st; simp)+

interpretation refund_work: leased_retry "\<lambda>s. db_get (paymentRefunds s)" "\<lambda>r. refund_phase (rf_status r)" rf_attempts
  rf_nextAttemptAt refunds_claim "\<lambda>c i. refunds_retry c i ''provider_error''" MAX_ATTEMPTS LEASE_MS
proof unfold_locales
  fix s :: db and i c and d :: refund_doc
  assume d: "db_get (paymentRefunds s) i = Some d"
  show "refunds_claim c i s = (None, s)"
    if "MAX_ATTEMPTS \<le> rf_attempts d \<or> \<not> (refund_phase (rf_status d) = Ready \<or>
        refund_phase (rf_status d) \<in> {Leased, Backing_off} \<and> rf_nextAttemptAt d \<le> now c)"
    using that d by (auto simp: refunds_claim_def refundDue_def refund_phase_eqs)
  show "\<exists>d' s'. refunds_claim c i s = (Some d', s') \<and> db_get (paymentRefunds s') i = Some d' \<and>
      refund_phase (rf_status d') = Leased \<and> rf_attempts d' = Suc (rf_attempts d) \<and> rf_nextAttemptAt d' = now c + LEASE_MS"
    if "rf_attempts d < MAX_ATTEMPTS" "refund_phase (rf_status d) = Ready \<or>
        refund_phase (rf_status d) \<in> {Leased, Backing_off} \<and> rf_nextAttemptAt d \<le> now c"
    using that d by (auto simp: refunds_claim_def refundDue_def refund_phase_eqs db_get_patch Let_def)
  show "\<exists>d'. db_get (paymentRefunds (refunds_retry c i ''provider_error'' s)) i = Some d' \<and> rf_attempts d' = rf_attempts d \<and>
      (if MAX_ATTEMPTS \<le> rf_attempts d then refund_phase (rf_status d') = Given_up
       else refund_phase (rf_status d') = Backing_off \<and> rf_nextAttemptAt d' = now c + backoffMs (rf_attempts d))"
    if "refund_phase (rf_status d) = Leased"
    using that d by (simp add: refunds_retry_def refund_phase_eqs db_get_patch)
qed

primrec item_phase :: "payout_item_status \<Rightarrow> retry_phase" where
  "item_phase Item_RESERVED = Ready"
| "item_phase Item_SENDING = Leased"
| "item_phase Item_RETRY = Backing_off"
| "item_phase Item_PAID = Settled"
| "item_phase Item_FAILED = Given_up"
| "item_phase Item_CANCELED = Settled"

lemma item_phase_eqs:
  "item_phase st = Ready \<longleftrightarrow> st = Item_RESERVED" "item_phase st = Leased \<longleftrightarrow> st = Item_SENDING"
  "item_phase st = Backing_off \<longleftrightarrow> st = Item_RETRY" "item_phase st = Given_up \<longleftrightarrow> st = Item_FAILED"
  by (cases st; simp)+

interpretation transfer_work: leased_retry "\<lambda>s. db_get (payoutItems s)" "\<lambda>t. item_phase (it_status t)" it_attempts
  it_nextAttemptAt claimTransfer "\<lambda>c i. retryTransfer c i ''provider_error''" MAX_TRANSFER_ATTEMPTS TRANSFER_LEASE_MS
proof unfold_locales
  fix s :: db and i c and d :: payout_item_doc
  assume d: "db_get (payoutItems s) i = Some d"
  show "claimTransfer c i s = (None, s)"
    if "MAX_TRANSFER_ATTEMPTS \<le> it_attempts d \<or> \<not> (item_phase (it_status d) = Ready \<or>
        item_phase (it_status d) \<in> {Leased, Backing_off} \<and> it_nextAttemptAt d \<le> now c)"
    using that d by (auto simp: claimTransfer_def itemDue_def item_phase_eqs)
  show "\<exists>d' s'. claimTransfer c i s = (Some d', s') \<and> db_get (payoutItems s') i = Some d' \<and>
      item_phase (it_status d') = Leased \<and> it_attempts d' = Suc (it_attempts d) \<and> it_nextAttemptAt d' = now c + TRANSFER_LEASE_MS"
    if "it_attempts d < MAX_TRANSFER_ATTEMPTS" "item_phase (it_status d) = Ready \<or>
        item_phase (it_status d) \<in> {Leased, Backing_off} \<and> it_nextAttemptAt d \<le> now c"
    using that d by (auto simp: claimTransfer_def itemDue_def item_phase_eqs db_get_patch Let_def)
  show "\<exists>d'. db_get (payoutItems (retryTransfer c i ''provider_error'' s)) i = Some d' \<and> it_attempts d' = it_attempts d \<and>
      (if MAX_TRANSFER_ATTEMPTS \<le> it_attempts d then item_phase (it_status d') = Given_up
       else item_phase (it_status d') = Backing_off \<and> it_nextAttemptAt d' = now c + backoffMs (it_attempts d))"
    if "item_phase (it_status d) = Leased"
    using that d by (simp add: retryTransfer_def item_phase_eqs db_get_patch)
qed

section \<open>What they promise\<close>



text \<open>A provider that answers no refund and no transfer request.\<close>

definition unreachable :: "stripe_api \<Rightarrow> bool" where
  "unreachable api \<longleftrightarrow> (\<forall>r. \<exists>e. refundRequest api r = Inl e) \<and> (\<forall>p. \<exists>e. transfers_create api p = Inl e)"

lemma unreachable_runs:
  assumes "unreachable api"
  shows "secretKeySet api \<Longrightarrow> refunds_run api c i s = (case refunds_claim c i s of (None, s') \<Rightarrow> s'
      | (Some _, s') \<Rightarrow> refunds_retry c i ''provider_error'' s')"
    and "payouts_transfer api c i s = (case claimTransfer c i s of (None, s') \<Rightarrow> s'
      | (Some _, s') \<Rightarrow> retryTransfer c i ''provider_error'' s')"
proof -
  have "\<exists>e. refundRequest api r = Inl e" "\<exists>e. transfers_create api p = Inl e" for r p
    using assms by (simp_all add: unreachable_def)
  then show "secretKeySet api \<Longrightarrow> refunds_run api c i s = (case refunds_claim c i s of (None, s') \<Rightarrow> s'
      | (Some _, s') \<Rightarrow> refunds_retry c i ''provider_error'' s')"
    "payouts_transfer api c i s = (case claimTransfer c i s of (None, s') \<Rightarrow> s'
      | (Some _, s') \<Rightarrow> retryTransfer c i ''provider_error'' s')"
    unfolding refunds_run_def payouts_transfer_def by (auto split: prod.split option.split sum.split) (metis sum.distinct(1))+
qed

text \<open>
  C20. Retrying ends.  A refund that has just been requested, run ten times against a provider that
  keeps failing, at times at least the longest delay (256 seconds) apart, is given up as failed, for an
  operator to look at; and so is a transfer that has just been reserved.
\<close>

theorem retries_end:
  assumes "unreachable api" "length cs = 10" "sorted_wrt (\<lambda>c c'. now c + 256000 \<le> now c') cs"
  shows "(\<forall>r. secretKeySet api \<and> db_get (paymentRefunds s) i = Some r \<and> rf_status r = Ref_REQUESTED \<and> rf_attempts r = 0 \<longrightarrow>
      (\<exists>r'. db_get (paymentRefunds (fold (\<lambda>c. refunds_run api c i) cs s)) i = Some r' \<and>
        rf_status r' = Ref_FAILED \<and> rf_attempts r' = 10)) \<and>
    (\<forall>t. db_get (payoutItems s) i = Some t \<and> it_status t = Item_RESERVED \<and> it_attempts t = 0 \<longrightarrow>
      (\<exists>t'. db_get (payoutItems (fold (\<lambda>c. payouts_transfer api c i) cs s)) i = Some t' \<and>
        it_status t' = Item_FAILED \<and> it_attempts t' = 10))"
proof -
  have runs: "secretKeySet api \<Longrightarrow> (\<lambda>c. refunds_run api c i) = (\<lambda>c s. case refunds_claim c i s of (None, s') \<Rightarrow> s'
      | (Some _, s') \<Rightarrow> refunds_retry c i ''provider_error'' s')"
    "(\<lambda>c. payouts_transfer api c i) = (\<lambda>c s. case claimTransfer c i s of (None, s') \<Rightarrow> s'
      | (Some _, s') \<Rightarrow> retryTransfer c i ''provider_error'' s')"
    by (intro ext unreachable_runs [OF assms(1)]; assumption)+
  have "cs \<noteq> []" using assms(2) by auto
  then show ?thesis
    using refund_work.gives_up [of s i _ cs] transfer_work.gives_up [of s i _ cs] assms(2,3) runs
    by (auto simp: MAX_ATTEMPTS_def MAX_TRANSFER_ATTEMPTS_def refund_phase_eqs item_phase_eqs)
qed

definition demo_api :: stripe_api where
  "demo_api = \<lparr>secretKeySet = True, publishableKeyOf = None, intents_create = (\<lambda>_. Inl NotAnError),
     intents_retrieve = (\<lambda>_. Inl NotAnError), intents_update = (\<lambda>_ _. Inl NotAnError),
     intents_capture = (\<lambda>_ _. Inl NotAnError), intents_cancel = (\<lambda>_ _. Inl NotAnError),
     customers_create = (\<lambda>_ _. Inl NotAnError), customerSessions_create = (\<lambda>_. Inl NotAnError),
     setupIntents_create = (\<lambda>_. Inl NotAnError), methods_list = (\<lambda>_. Inl NotAnError),
     methods_detach = (\<lambda>_. Inl NotAnError), refunds_create = (\<lambda>_ _. Inl NotAnError),
     refunds_retrieve = (\<lambda>_. Inl NotAnError), transfers_create = (\<lambda>_. Inl NotAnError),
     accounts_create = (\<lambda>_ _ _. Inl NotAnError), accounts_retrieve = (\<lambda>_. Inl NotAnError),
     externalAccounts_list = (\<lambda>_. Inl NotAnError), accountSessions_create = (\<lambda>_. Inl NotAnError)\<rparr>"

lemma demo_api_unreachable: "unreachable demo_api"
  by (auto simp: unreachable_def demo_api_def refundRequest_def split: option.split list.split)

theorem retries_end_witness:
  "\<exists>r'. db_get (paymentRefunds (fold (\<lambda>c. refunds_run demo_api c 14)
      (map (\<lambda>k. by_user None (int k * 256000)) [1..<11]) demo_failed)) 14 = Some r' \<and> rf_status r' = Ref_FAILED"
proof -
  have "case db_get (paymentRefunds demo_failed) 14 of Some x \<Rightarrow> rf_attempts x = 0 \<and> rf_status x = Ref_REQUESTED | None \<Rightarrow> False"
    by code_simp
  then obtain x where x: "db_get (paymentRefunds demo_failed) 14 = Some x" "rf_attempts x = 0" "rf_status x = Ref_REQUESTED"
    by (auto split: option.splits)
  have "sorted_wrt (\<lambda>c c'. now c + 256000 \<le> now c') (map (\<lambda>k. by_user None (int k * 256000)) [1..<11])"
    by (simp add: by_user_def upt_rec)
  then show ?thesis
    using retries_end [OF demo_api_unreachable, of "map (\<lambda>k. by_user None (int k * 256000)) [1..<11]" demo_failed 14] x
    by (auto simp: demo_api_def)
qed

end
