(* ===== verification/Payout_Safety.thy ===== *)
theory Payout_Safety
  imports Retries
begin

text \<open>
  Payouts over every run: what is reserved is what is available and is booked at once, a creator has
  at most one payout in flight and one per run, every item is booked by exactly one entry of the
  ledger, and a paid item stays paid.
\<close>

section \<open>The life of a payout item\<close>

definition item_terms :: "payout_item_doc \<Rightarrow> payout_item_doc" where
  "item_terms x = x\<lparr>it_stripeTransferId := None, it_status := Item_RESERVED, it_attempts := 0, it_nextAttemptAt := 0,
     it_failureCode := None, it_processedAt := None\<rparr>"

definition unsettled :: "payout_item_doc \<Rightarrow> bool" where
  "unsettled x \<longleftrightarrow> it_status x \<in> set UNSETTLED"

definition item_step :: "payout_item_doc \<Rightarrow> payout_item_doc \<Rightarrow> bool" where
  "item_step x y \<longleftrightarrow> item_terms y = item_terms x \<and> it_attempts x \<le> it_attempts y \<and>
     (it_status x \<in> {Item_PAID, Item_FAILED, Item_CANCELED} \<longrightarrow> y = x) \<and> (unsettled y \<longrightarrow> unsettled x)"

lemma item_step_refl [simp]: "item_step x x"
  by (simp add: item_step_def)

lemma item_step_trans: "item_step x y \<Longrightarrow> item_step y z \<Longrightarrow> item_step x z"
  by (auto simp: item_step_def)

lemma item_terms_fields:
  assumes "item_terms y = item_terms x"
  shows "did y = did x" "it_runId y = it_runId x" "it_creatorId y = it_creatorId x" "it_amountCents y = it_amountCents x"
    "it_currency y = it_currency x" "it_destinationAccountId y = it_destinationAccountId x"
    "it_idempotencyKey y = it_idempotencyKey x"
  using arg_cong [OF assms, of did] arg_cong [OF assms, of it_runId] arg_cong [OF assms, of it_creatorId]
    arg_cong [OF assms, of it_amountCents] arg_cong [OF assms, of it_currency]
    arg_cong [OF assms, of it_destinationAccountId] arg_cong [OF assms, of it_idempotencyKey]
  by (simp_all add: item_terms_def)

text \<open>Claiming, paying and retrying patch one item by such a step.\<close>

definition items_patched :: "db \<Rightarrow> db \<Rightarrow> bool" where
  "items_patched s s' \<longleftrightarrow> payoutItems s' = payoutItems s \<or>
     (\<exists>x f. db_get (payoutItems s) (did x) = Some x \<and> (\<forall>d. did (f d) = did d) \<and> item_step x (f x) \<and>
        payoutItems s' = db_patch (payoutItems s) (did x) f)"

lemma transfers_patch:
  "items_patched s (snd (claimTransfer c i s))" "items_patched s (markPaid c i t s)" "items_patched s (retryTransfer c i code s)"
proof -
  have patch: "items_patched s s'" if "db_get (payoutItems s) i = Some x" "\<And>d. did (f d) = did d" "item_step x (f x)"
    "payoutItems s' = db_patch (payoutItems s) i f" for x f s'
    using that db_get_SomeD [OF that(1)] unfolding items_patched_def by blast
  show "items_patched s (snd (claimTransfer c i s))"
  proof (cases "fst (claimTransfer c i s)")
    case None
    then show ?thesis
      by (auto simp: claimTransfer_def items_patched_def db_get_patch Let_def split: option.splits if_splits)
  next
    case (Some y)
    then obtain x where x: "db_get (payoutItems s) i = Some x" "itemDue (now c) x"
      by (auto simp: claimTransfer_def split: option.splits if_splits)
    then have "item_step x (x\<lparr>it_status := Item_SENDING, it_attempts := it_attempts x + 1,
        it_nextAttemptAt := now c + TRANSFER_LEASE_MS\<rparr>)"
      by (auto simp: item_step_def item_terms_def unsettled_def UNSETTLED_def itemDue_def)
    then show ?thesis
      using Some x(1) by (intro patch [OF x(1)]) (auto simp: claimTransfer_def Let_def split: if_splits)
  qed
  have later: "items_patched s (runAfter c d j (patchItem i f s))"
    if "db_get (payoutItems s) i = Some x" "\<And>d. did (f d) = did d" "item_step x (f x)" for x f d j
    using patch [OF that, of "runAfter c d j (patchItem i f s)"] by simp
  have same: "items_patched s s" by (simp add: items_patched_def)
  show "items_patched s (markPaid c i t s)"
    unfolding markPaid_def
    by (auto split: option.split intro!: same later simp: item_step_def item_terms_def unsettled_def UNSETTLED_def)
  show "items_patched s (retryTransfer c i code s)"
    unfolding retryTransfer_def
    by (auto split: option.split intro!: same later simp: item_step_def item_terms_def unsettled_def UNSETTLED_def)
qed

section \<open>Items and the ledger\<close>

definition booked :: "db \<Rightarrow> payout_item_doc \<Rightarrow> bool" where
  "booked s x \<longleftrightarrow> 0 < it_amountCents x \<and> (\<exists>e\<in>set (ledgerEntries s). le_idempotencyKey e = PayoutReservationKey (did x) \<and>
     le_kind e = PAYOUT_RESERVATION \<and> le_amountCents e = - it_amountCents x \<and> le_creatorId e = it_creatorId x \<and>
     le_currency e = it_currency x)"

definition items_ok :: "db \<Rightarrow> bool" where
  "items_ok s \<longleftrightarrow>
     (\<forall>x\<in>set (payoutItems s). \<forall>y\<in>set (payoutItems s). unsettled x \<longrightarrow> unsettled y \<longrightarrow> it_creatorId x = it_creatorId y \<longrightarrow> x = y) \<and>
     distinct (map (\<lambda>x. (it_runId x, it_creatorId x)) (payoutItems s)) \<and>
     (\<forall>x\<in>set (payoutItems s). booked s x) \<and>
     (\<forall>e\<in>set (ledgerEntries s). \<forall>i. le_idempotencyKey e = PayoutReservationKey i \<longrightarrow> i \<in> did ` set (payoutItems s))"

lemma wf_items: "wf_db s \<Longrightarrow> wf_table (nextId s) (payoutItems s)"
  by (simp add: wf_db_def Let_def)

lemma items_ok_patched:
  assumes "items_ok s" "wf_db s" "items_patched s s'" "ledgerEntries s' = ledgerEntries s"
  shows "items_ok s'"
proof -
  consider "payoutItems s' = payoutItems s"
    | x f where "db_get (payoutItems s) (did x) = Some x" "\<forall>d. did (f d) = did d" "item_step x (f x)"
        "payoutItems s' = db_patch (payoutItems s) (did x) f"
    using assms(3) unfolding items_patched_def by blast
  then show ?thesis
  proof cases
    case 1
    then show ?thesis using assms(1,4) by (simp add: items_ok_def booked_def)
  next
    case (2 x f)
    have terms: "item_terms (f x) = item_terms x" using 2(3) by (simp add: item_step_def)
    note fields = item_terms_fields [OF terms]
    have x: "x \<in> set (payoutItems s)" using db_get_SomeD [OF 2(1)] by simp
    have only: "y = x" if "y \<in> set (payoutItems s)" "did y = did x" for y
      using wf_table_inj [OF wf_items [OF assms(2)] that(1) x that(2)] .
    have items: "payoutItems s' = map (\<lambda>y. if y = x then f x else y) (payoutItems s)"
      unfolding 2(4) db_patch_def by (rule map_cong) (auto dest: only)
    have old: "\<exists>y\<in>set (payoutItems s). z = (if y = x then f x else y)" if "z \<in> set (payoutItems s')" for z
      using that unfolding items by auto
    have up: "unsettled y" if "unsettled (if y = x then f x else y)" for y
      using that 2(3) by (simp add: item_step_def split: if_splits)
    have creator: "it_creatorId (if y = x then f x else y) = it_creatorId y" for y by (simp add: fields)
    have 1: "z = w" if zw: "z \<in> set (payoutItems s')" "w \<in> set (payoutItems s')" "unsettled z" "unsettled w"
      "it_creatorId z = it_creatorId w" for z w
    proof -
      obtain y where y: "y \<in> set (payoutItems s)" "z = (if y = x then f x else y)" using old [OF zw(1)] by blast
      obtain v where v: "v \<in> set (payoutItems s)" "w = (if v = x then f x else v)" using old [OF zw(2)] by blast
      have "unsettled y" "unsettled v" using up zw(3,4) unfolding y(2) v(2) by blast+
      moreover have "it_creatorId y = it_creatorId v" using zw(5) unfolding y(2) v(2) creator .
      ultimately have "y = v" using assms(1) y(1) v(1) unfolding items_ok_def by blast
      then show ?thesis unfolding y(2) v(2) by simp
    qed
    have "map (\<lambda>x. (it_runId x, it_creatorId x)) (payoutItems s') = map (\<lambda>x. (it_runId x, it_creatorId x)) (payoutItems s)"
      unfolding items by (simp add: fields)
    moreover have "booked s' z" if z: "z \<in> set (payoutItems s')" for z
    proof -
      obtain y where y: "y \<in> set (payoutItems s)" "z = (if y = x then f x else y)" using old [OF z] by blast
      have "booked s y" using assms(1) y(1) by (simp add: items_ok_def)
      then show ?thesis unfolding booked_def y(2) assms(4) by (cases "y = x") (simp_all add: fields)
    qed
    moreover have "map did (payoutItems s') = map did (payoutItems s)" unfolding items by (simp add: fields)
    then have "did ` set (payoutItems s') = did ` set (payoutItems s)" by (metis list.set_map)
    ultimately show ?thesis using 1 assms(1,4) unfolding items_ok_def by simp
  qed
qed

definition no_new_reservation :: "db \<Rightarrow> db \<Rightarrow> bool" where
  "no_new_reservation s0 s \<longleftrightarrow>
     (\<forall>e\<in>set (ledgerEntries s). \<forall>i. le_idempotencyKey e = PayoutReservationKey i \<longrightarrow> e \<in> set (ledgerEntries s0))"

lemma post_no_new_reservation:
  "no_new_reservation s0 s \<Longrightarrow> (\<And>i. le_idempotencyKey e \<noteq> PayoutReservationKey i) \<Longrightarrow> no_new_reservation s0 (post c e s)"
  by (auto simp: no_new_reservation_def post_keys)

interpretation unreserved: ledger_credits "no_new_reservation s0" for s0
proof unfold_locales
  fix s s' :: db
  show "same_ledger s s' \<Longrightarrow> no_new_reservation s0 s \<Longrightarrow> no_new_reservation s0 s'"
    by (simp add: no_new_reservation_def same_ledger_def)
next
  fix s :: db and c r
  show "wf_db s \<Longrightarrow> no_new_reservation s0 s \<Longrightarrow> no_new_reservation s0 (reverseForRefund c r s)"
    by (auto simp: reverseForRefund_def Let_def intro!: post_no_new_reservation split: option.split)
next
  fix s :: db and c d
  show "wf_db s \<Longrightarrow> no_new_reservation s0 s \<Longrightarrow> no_new_reservation s0 (adjustForDispute c d s)"
    by (auto simp: adjustForDispute_def disputeEntry_def intro!: post_no_new_reservation split: option.split)
next
  fix s :: db and c a i t
  show "wf_db s \<Longrightarrow> no_new_reservation s0 s \<Longrightarrow> no_new_reservation s0 (creditEarning c a i t s)"
    by (auto simp: creditEarning_def intro!: post_no_new_reservation)
qed

section \<open>Reserving\<close>

lemma config_minimum: "0 < cfg_minimumCents (config e)"
  by (auto simp: config_def env_int_def split: env_num.split)

text \<open>What reserving for one account does when it reserves.\<close>

lemma reserveItem_effect:
  assumes "items_ok s" "wf_db s" "0 < n" and item_def: "item = newItem c (nextId s) run account n"
  shows "payoutItems (reserveItem c run account n s) = db_insert (payoutItems s) item"
    "ledgerEntries (reserveItem c run account n s)
       = db_insert (ledgerEntries s) ((reservationEntry c item)\<lparr>did := Suc (nextId s), ctime := now c\<rparr>)"
    "creatorBalances (reserveItem c run account n s)
       = creatorBalances (post c (reservationEntry c item) (bumpId (payoutItems_update (\<lambda>t. db_insert t item) s)))"
proof -
  let ?s1 = "bumpId (payoutItems_update (\<lambda>t. db_insert t item) s)"
  have "nextId s \<notin> did ` set (payoutItems s)"
    using wf_items [OF assms(2)] by (auto simp: wf_table_def)
  then have fresh: "entryByKey ?s1 (PayoutReservationKey (nextId s)) = None"
    using assms(1) by (auto simp: entryByKey_def first_by_None items_ok_def)
  have "ledgerEntries (post c (reservationEntry c item) ?s1)
      = db_insert (ledgerEntries s) ((reservationEntry c item)\<lparr>did := Suc (nextId s), ctime := now c\<rparr>)"
  proof (cases rule: post_cases [of "reservationEntry c item" ?s1 c])
    case 1
    then show ?thesis using fresh assms(3) by (simp add: reservationEntry_def item_def newItem_def)
  next
    case 2
    then show ?thesis by simp
  qed
  then show "ledgerEntries (reserveItem c run account n s)
       = db_insert (ledgerEntries s) ((reservationEntry c item)\<lparr>did := Suc (nextId s), ctime := now c\<rparr>)"
    by (simp add: reserveItem_def Let_def item_def [symmetric])
  show "payoutItems (reserveItem c run account n s) = db_insert (payoutItems s) item"
    "creatorBalances (reserveItem c run account n s) = creatorBalances (post c (reservationEntry c item) ?s1)"
    by (simp_all add: reserveItem_def Let_def item_def [symmetric])
qed

lemma hasUnsettled_iff: "hasUnsettled s u \<longleftrightarrow> (\<exists>x\<in>set (payoutItems s). it_creatorId x = u \<and> unsettled x)"
  by (auto simp: hasUnsettled_def list_ex_iff unsettled_def first_by_None UNSETTLED_def)

lemma reserveItem_ok:
  assumes "items_ok s" "wf_db s" "0 < n" "itemInRun s (did run) (ac_creatorId account) = None"
    "\<not> hasUnsettled s (ac_creatorId account)"
  shows "items_ok (reserveItem c run account n s)"
proof -
  define item where "item = newItem c (nextId s) run account n"
  let ?s' = "reserveItem c run account n s"
  note effect = reserveItem_effect [OF assms(1-3) item_def]
  have fields: "did item = nextId s" "it_creatorId item = ac_creatorId account" "it_runId item = did run"
    "it_amountCents item = n" "it_currency item = run_currency run"
    by (simp_all add: item_def newItem_def)
  have "x = y" if "x \<in> set (payoutItems ?s')" "y \<in> set (payoutItems ?s')" "unsettled x" "unsettled y"
    "it_creatorId x = it_creatorId y" for x y
    using that assms(1,5) unfolding effect(1) set_db_insert items_ok_def hasUnsettled_iff by (metis fields(2) insertE)
  moreover have "distinct (map (\<lambda>x. (it_runId x, it_creatorId x)) (payoutItems ?s'))"
    using assms(1,4) by (auto simp: effect(1) items_ok_def db_insert_def itemInRun_def first_by_None fields)
  moreover have "booked ?s' x" if "x \<in> set (payoutItems ?s')" for x
  proof (cases "x = item")
    case True
    then show ?thesis
      using assms(3) by (auto simp: booked_def effect(2) reservationEntry_def fields)
  next
    case False
    then have "booked s x" using that assms(1) by (simp add: effect(1) items_ok_def)
    then show ?thesis by (auto simp: booked_def effect(2))
  qed
  moreover have "i \<in> did ` set (payoutItems ?s')" if "e \<in> set (ledgerEntries ?s')" "le_idempotencyKey e = PayoutReservationKey i" for e i
    using that assms(1) by (auto simp: effect(1,2) items_ok_def reservationEntry_def fields)
  ultimately show ?thesis unfolding items_ok_def by blast
qed

lemma reserveFor_ok:
  assumes "items_ok s" "wf_db s"
  shows "items_ok (reserveFor c run account s)"
  using reserveItem_ok [OF assms, of _ run account c] assms(1) config_minimum [of "env_of c"]
  by (auto simp: reserveFor_def Let_def)

lemma reserveBatch_ok:
  assumes "items_ok s" "wf_db s"
  shows "items_ok (reserveBatch c i n s)"
proof -
  have "sat (\<lambda>s. wf_db s \<and> items_ok s) (fold (reserveFor c run) page s)" for run page
    using assms reserveFor_ok wf_reserveFor by (intro sat_fold) (auto simp: sat_def)
  moreover have "items_ok (runAfter c d j s') = items_ok s'" for d j s'
    by (simp add: items_ok_def booked_def)
  ultimately show ?thesis using assms(1) by (simp add: reserveBatch_def Let_def sat_def split: option.split)
qed

lemma exec_items_ok:
  assumes "items_ok s" "wf_db s"
  shows "items_ok (exec h c r s)"
proof (cases "\<exists>i n. r = Money (ReserveBatch i n)")
  case True
  then show ?thesis using reserveBatch_ok [OF assms] by auto
next
  case False
  let ?s' = "exec h c r s"
  have new: "no_new_reservation s ?s'"
    using unreserved.keeps_other [OF assms(2), of s r h c] False by (simp add: no_new_reservation_def)
  show ?thesis
  proof (cases "T_payoutItems \<in> writes r")
    case False
    then have items: "payoutItems ?s' = payoutItems s" by (rule sameD(18) [OF exec_same])
    have "set (ledgerEntries s) \<subseteq> set (ledgerEntries ?s')" using appending.keeps_request [OF assms(2), of s] by blast
    then have "booked ?s' x" if "booked s x" for x using that by (auto simp: booked_def)
    moreover have "i \<in> did ` set (payoutItems s)" if "e \<in> set (ledgerEntries ?s')" "le_idempotencyKey e = PayoutReservationKey i" for e i
      using that new assms(1) unfolding no_new_reservation_def items_ok_def by blast
    ultimately show ?thesis using assms(1) unfolding items_ok_def items by blast
  next
    case True
    have r: "\<exists>i t code. r = Money (ClaimTransfer i) \<or> r = Money (MarkPaid i t) \<or> r = Money (RetryTransfer i code)"
    proof (cases r)
      case (Stage q)
      then show ?thesis using True by (cases q) simp_all
    next
      case (Money q)
      then show ?thesis using True False by (cases q) simp_all
    next
      case (Social q)
      then show ?thesis using True by (cases q) simp_all
    qed
    then have "ledgerEntries ?s' = ledgerEntries s" by (intro sameD(15) [OF exec_same]) auto
    moreover have "items_patched s ?s'" using r transfers_patch by auto
    ultimately show ?thesis using items_ok_patched [OF assms] by blast
  qed
qed

lemma items_empty: "items_ok empty_db"
  by (simp add: items_ok_def empty_db_def)

interpretation payout_items: inductive_invariant h wf_db items_ok for h
  using exec_items_ok by unfold_locales (auto intro: reachable_wf items_empty)

section \<open>What reserving takes\<close>

definition available :: "db \<Rightarrow> id \<Rightarrow> string \<Rightarrow> int \<Rightarrow> int" where
  "available s u cur t = bs_availableCents (balanceAt s u cur t)"

lemma available_sum:
  assumes "ledger_ok s"
  shows "available s u cur t = sum_list (map le_amountCents (filter (\<lambda>e. le_creatorId e = u \<and> le_currency e = cur
    \<and> le_effectiveAt e \<le> t) (ledgerEntries s)))"
  using balanceAt_sums [OF assms, of u cur t]
  by (simp add: available_def entries_of_def conj_commute conj_left_commute)

lemma reserveItem_available:
  assumes "items_ok s" "wf_db s" "ledger_ok s" "0 < n"
  shows "available (reserveItem c run account n s) u cur (now c)
    = available s u cur (now c) - (if u = ac_creatorId account \<and> cur = run_currency run then n else 0)"
proof -
  have ok': "ledger_ok (reserveItem c run account n s)" by (rule totals.keeps_reserveItem [OF assms(2,3)])
  show ?thesis
    unfolding available_sum [OF ok'] available_sum [OF assms(3)] reserveItem_effect(2) [OF assms(1,2,4) refl]
    by (auto simp: db_insert_def reservationEntry_def newItem_def)
qed

text \<open>What a run has reserved so far, compared with the database it started from.\<close>

definition took_available :: "ctx \<Rightarrow> string \<Rightarrow> db \<Rightarrow> db \<Rightarrow> bool" where
  "took_available c cur s0 s \<longleftrightarrow> wf_db s \<and> items_ok s \<and> ledger_ok s \<and> set (payoutItems s0) \<subseteq> set (payoutItems s) \<and>
     (\<forall>x\<in>set (payoutItems s). x \<notin> set (payoutItems s0) \<longrightarrow> unsettled x \<and> it_currency x = cur \<and>
        it_amountCents x = available s0 (it_creatorId x) cur (now c) \<and>
        cfg_minimumCents (config (env_of c)) \<le> it_amountCents x \<and> available s (it_creatorId x) cur (now c) = 0) \<and>
     (\<forall>u. (\<forall>x\<in>set (payoutItems s). x \<notin> set (payoutItems s0) \<longrightarrow> it_creatorId x \<noteq> u) \<longrightarrow>
        available s u cur (now c) = available s0 u cur (now c))"

lemma reserveFor_took:
  assumes "took_available c (run_currency run) s0 s"
  shows "took_available c (run_currency run) s0 (reserveFor c run account s)"
proof -
  let ?u = "ac_creatorId account" and ?cur = "run_currency run" and ?s' = "reserveFor c run account s"
  define n where "n = available s ?u ?cur (now c)"
  have ok: "wf_db s" "items_ok s" "ledger_ok s" using assms by (simp_all add: took_available_def)
  consider "?s' = s" | "?s' = reserveItem c run account n s" "0 < n" "cfg_minimumCents (config (env_of c)) \<le> n"
    "itemInRun s (did run) ?u = None" "\<not> hasUnsettled s ?u"
  proof (cases "?s' = s")
    case False
    then have "?s' = reserveItem c run account n s" "cfg_minimumCents (config (env_of c)) \<le> n"
      "itemInRun s (did run) ?u = None" "\<not> hasUnsettled s ?u"
      by (auto simp: reserveFor_def Let_def n_def available_def split: if_splits)
    then show ?thesis using that(2) config_minimum [of "env_of c"] by simp
  qed (rule that(1))
  then show ?thesis
  proof cases
    case 1
    then show ?thesis using assms by simp
  next
    case 2
    define item where "item = newItem c (nextId s) run account n"
    have items: "set (payoutItems ?s') = insert item (set (payoutItems s))"
      using reserveItem_effect(1) [OF ok(2,1) 2(2) item_def] 2(1) by simp
    have item: "it_creatorId item = ?u" "unsettled item" "it_currency item = ?cur" "it_amountCents item = n"
      by (simp_all add: item_def newItem_def unsettled_def UNSETTLED_def)
    have quiet: "it_creatorId x \<noteq> ?u" if "x \<in> set (payoutItems s)" "x \<notin> set (payoutItems s0)" for x
      using that assms 2(5) unfolding took_available_def hasUnsettled_iff by blast
    have before: "n = available s0 ?u ?cur (now c)"
      using assms quiet unfolding took_available_def n_def by blast
    have after: "available ?s' u ?cur (now c) = (if u = ?u then 0 else available s u ?cur (now c))" for u
      using reserveItem_available [OF ok(2,1,3) 2(2), of c run account u ?cur] 2(1) by (simp add: n_def)
    have "wf_db ?s'" using wf_reserveFor [of s c run account] ok(1) by (simp add: sat_def)
    moreover have "items_ok ?s'" by (rule reserveFor_ok [OF ok(2,1)])
    moreover have "ledger_ok ?s'" using totals.keeps_reserveItem [OF ok(1,3)] 2(1) by simp
    moreover have "set (payoutItems s0) \<subseteq> set (payoutItems ?s')"
      using assms items unfolding took_available_def by blast
    moreover have "unsettled x \<and> it_currency x = ?cur \<and> it_amountCents x = available s0 (it_creatorId x) ?cur (now c) \<and>
        cfg_minimumCents (config (env_of c)) \<le> it_amountCents x \<and> available ?s' (it_creatorId x) ?cur (now c) = 0"
      if x: "x \<in> set (payoutItems ?s')" "x \<notin> set (payoutItems s0)" for x
    proof (cases "x = item")
      case True
      then show ?thesis using item before 2(3) after by simp
    next
      case False
      then have "x \<in> set (payoutItems s)" using x(1) items by simp
      then have "unsettled x \<and> it_currency x = ?cur \<and> it_amountCents x = available s0 (it_creatorId x) ?cur (now c) \<and>
          cfg_minimumCents (config (env_of c)) \<le> it_amountCents x \<and> available s (it_creatorId x) ?cur (now c) = 0"
        "it_creatorId x \<noteq> ?u"
        using assms x(2) quiet unfolding took_available_def by blast+
      then show ?thesis using after by simp
    qed
    moreover have "available ?s' u ?cur (now c) = available s0 u ?cur (now c)"
      if u: "\<forall>x\<in>set (payoutItems ?s'). x \<notin> set (payoutItems s0) \<longrightarrow> it_creatorId x \<noteq> u" for u
    proof (cases "u = ?u")
      case True
      have "item \<notin> set (payoutItems s)" using wf_items [OF ok(1)] by (auto simp: wf_table_def item_def newItem_def)
      then have "item \<notin> set (payoutItems s0)" using assms unfolding took_available_def by blast
      then show ?thesis using u items item(1) True by blast
    next
      case False
      then show ?thesis using assms u after items unfolding took_available_def by simp
    qed
    ultimately show ?thesis unfolding took_available_def by blast
  qed
qed

lemma reserveBatch_took:
  assumes "wf_db s" "items_ok s" "ledger_ok s" "db_get (payoutRuns s) i = Some run"
  shows "took_available c (run_currency run) s (reserveBatch c i n s)"
proof -
  have start: "took_available c (run_currency run) s s" using assms(1-3) by (simp add: took_available_def)
  have "sat (took_available c (run_currency run) s) (fold (reserveFor c run) page s)" for page
    using start reserveFor_took by (intro sat_fold) (auto simp: sat_def)
  moreover have "took_available c cur s (runAfter c d j s') = took_available c cur s s'" for cur d j s'
  proof -
    have "available (runAfter c d j s') = available s'"
      by (simp add: fun_eq_iff available_def balanceAt_def balanceFor_def)
    moreover have "items_ok (runAfter c d j s') = items_ok s'" by (simp add: items_ok_def booked_def)
    moreover have "ledger_ok (runAfter c d j s') = ledger_ok s'"
      by (simp add: ledger_ok_def balance_cents_def balanceFor_def ledger_sum_def entries_of_def)
    moreover have "wf_db (runAfter c d j s') = wf_db s'" by (simp add: wf_db_def Let_def)
    ultimately show ?thesis by (simp only: took_available_def runAfter_frame)
  qed
  ultimately show ?thesis using assms(4) by (simp add: reserveBatch_def Let_def sat_def)
qed

text \<open>
  C11. A payout takes exactly what a creator may be paid, once.  Whatever a reservation run adds, each new item is
  for the creator's available balance at that moment (earnings whose hold has run out, less refunds,
  disputes and earlier payouts), at least the configured minimum and more than nothing, and leaves
  nothing available: a second run at the same moment, or a concurrent one, finds nothing to take.
\<close>

theorem payouts_take_what_is_available:
  assumes "reachable h s" "x \<in> set (payoutItems (reserveBatch ctx i n s))" "x \<notin> set (payoutItems s)"
  shows "it_amountCents x = bs_availableCents (balanceAt s (it_creatorId x) (it_currency x) (now ctx)) \<and>
    cfg_minimumCents (config (env_of ctx)) \<le> it_amountCents x \<and> 0 < it_amountCents x \<and>
    bs_availableCents (balanceAt (reserveBatch ctx i n s) (it_creatorId x) (it_currency x) (now ctx)) = 0"
proof -
  obtain run where run: "db_get (payoutRuns s) i = Some run"
    using assms(2,3) by (cases "db_get (payoutRuns s) i") (auto simp: reserveBatch_def)
  have "took_available ctx (run_currency run) s (reserveBatch ctx i n s)"
    using assms(1) run by (intro reserveBatch_took) (auto intro: reachable_wf payout_items.holds totals.everywhere)
  then show ?thesis
    using assms(2,3) config_minimum [of "env_of ctx"] unfolding took_available_def available_def by fastforce
qed

definition demo_payday :: "ctx \<times> request \<Rightarrow> db" where
  "demo_payday step = exec demo_host (fst step) (snd step) (exec demo_host (by_user None 700000000) (Money RunDue) (demo_at 17))"

lemma demo_due_reachable: "reachable demo_host (exec demo_host (by_user None 700000000) (Money RunDue) (demo_at 17))"
  by (intro reachable.step demo_reachable) simp

theorem payouts_take_witness:
  "\<exists>x\<in>set (payoutItems (demo_payday (by_user None 700000000, Money (ReserveBatch 17 None)))). 0 < it_amountCents x \<and>
     it_amountCents x = bs_availableCents (balanceAt (exec demo_host (by_user None 700000000) (Money RunDue) (demo_at 17))
       0 (it_currency x) 700000000)"
proof -
  let ?s = "exec demo_host (by_user None 700000000) (Money RunDue) (demo_at 17)"
  have "payoutItems ?s = [] \<and> map it_creatorId (payoutItems (reserveBatch (by_user None 700000000) 17 None ?s)) = [0]" by code_simp
  then obtain x where x: "payoutItems ?s = []" "x \<in> set (payoutItems (reserveBatch (by_user None 700000000) 17 None ?s))"
    "it_creatorId x = 0"
    by (cases "payoutItems (reserveBatch (by_user None 700000000) 17 None ?s)") auto
  then show ?thesis
    using payouts_take_what_is_available [OF demo_due_reachable x(2)]
    by (auto simp: demo_payday_def by_user_def intro!: bexI [of _ x])
qed


definition demo_paid :: db where
  "demo_paid = demo_payday (by_user None 700000000, Money (ReserveBatch 17 None))"

lemma demo_paid_reachable: "reachable demo_host demo_paid"
  unfolding demo_paid_def demo_payday_def fst_conv snd_conv by (intro reachable.step demo_due_reachable) simp


section \<open>Along a run\<close>

lemma patched_evolves: "items_patched s s' \<Longrightarrow> evolves item_step (payoutItems s) (payoutItems s')"
proof -
  assume "items_patched s s'"
  then consider "payoutItems s' = payoutItems s"
    | x f where "db_get (payoutItems s) (did x) = Some x" "\<forall>d. did (f d) = did d" "item_step x (f x)"
        "payoutItems s' = db_patch (payoutItems s) (did x) f"
    unfolding items_patched_def by blast
  then show ?thesis
  proof cases
    case 1
    then show ?thesis by (simp add: evolves_def)
  next
    case 2
    then show ?thesis by (simp, intro evolves_patch) auto
  qed
qed

lemma reserveFor_evolves:
  assumes "wf_db s" "evolves item_step (payoutItems s0) (payoutItems s)"
  shows "evolves item_step (payoutItems s0) (payoutItems (reserveFor c run account s))"
proof -
  have "evolves item_step (payoutItems s) (payoutItems (reserveFor c run account s))"
    using evolves_insert [OF wf_items [OF assms(1)], of _ item_step]
    by (auto simp: reserveFor_def reserveItem_def Let_def newItem_def evolves_def)
  then show ?thesis using assms(2) item_step_trans unfolding evolves_def by meson
qed

lemma exec_items_evolve:
  assumes "wf_db s"
  shows "evolves item_step (payoutItems s) (payoutItems (exec h c r s))"
proof (cases "\<exists>i n. r = Money (ReserveBatch i n)")
  case True
  then obtain i n where r: "r = Money (ReserveBatch i n)" by blast
  have refl: "evolves item_step (payoutItems s) (payoutItems s)" by (simp add: evolves_def)
  have "sat (\<lambda>s'. wf_db s' \<and> evolves item_step (payoutItems s) (payoutItems s')) (fold (reserveFor c run) page s)" for run page
    using assms refl reserveFor_evolves wf_reserveFor by (intro sat_fold) (auto simp: sat_def)
  then show ?thesis using refl by (simp add: r reserveBatch_def Let_def sat_def split: option.split)
next
  case False
  show ?thesis
  proof (cases r)
    case (Stage q)
    then show ?thesis using sameD(18) [OF exec_same [of r s h c]] by (cases q) (simp_all add: evolves_def)
  next
    case (Money q)
    then show ?thesis
      using sameD(18) [OF exec_same [of r s h c]] False patched_evolves [OF transfers_patch(1)]
        patched_evolves [OF transfers_patch(2)] patched_evolves [OF transfers_patch(3)]
      by (cases q) (simp_all add: evolves_def)
  next
    case (Social q)
    then show ?thesis using sameD(18) [OF exec_same [of r s h c]] by (cases q) (simp_all add: evolves_def)
  qed
qed

interpretation item_log: document_history h payoutItems item_step for h
  using exec_items_evolve reachable_wf by unfold_locales (auto intro: item_step_trans)

text \<open>
  C14. A transfer that was paid stays paid.  Along every run a payout item keeps its creator, amount,
  currency, destination and the idempotency key under which Stripe is asked to transfer, so every retry
  asks for the same transfer; its attempts never go down; and once it is paid or has failed nothing changes it.
\<close>

theorem transfers_are_final:
  assumes "reachable h s" "leads_to h s s'" "db_get (payoutItems s) i = Some x"
  shows "\<exists>y. db_get (payoutItems s') i = Some y \<and> transferRequest y = transferRequest x \<and>
    it_creatorId y = it_creatorId x \<and> it_attempts x \<le> it_attempts y \<and>
    (it_status x \<in> {Item_PAID, Item_FAILED} \<longrightarrow> y = x)"
proof -
  obtain y where y: "db_get (payoutItems s') i = Some y" "item_step x y"
    using item_log.persists [OF assms(2,1,3)] by blast
  then have "item_terms y = item_terms x" by (simp add: item_step_def)
  note fields = item_terms_fields [OF this]
  have "transferRequest y = transferRequest x" by (simp add: transferRequest_def fields)
  then show ?thesis using y fields(3) by (auto simp: item_step_def)
qed

theorem transfers_are_final_witness:
  "\<exists>x y. db_get (payoutItems demo_paid) 18 = Some x \<and>
     db_get (payoutItems (exec demo_host (by_user None 700000001) (Money (ClaimTransfer 18)) demo_paid)) 18 = Some y \<and>
     transferRequest y = transferRequest x \<and> it_status y = Item_SENDING"
proof -
  let ?s = "exec demo_host (by_user None 700000001) (Money (ClaimTransfer 18)) demo_paid"
  have run: "leads_to demo_host demo_paid ?s"
    by (intro leads_to.later leads_to.here) simp
  have "db_get (payoutItems demo_paid) 18 \<noteq> None \<and> map_option it_status (db_get (payoutItems ?s) 18) = Some Item_SENDING" by code_simp
  then obtain x y where xy: "db_get (payoutItems demo_paid) 18 = Some x" "db_get (payoutItems ?s) 18 = Some y"
    "it_status y = Item_SENDING" by auto
  then have "transferRequest y = transferRequest x"
    using transfers_are_final [OF demo_paid_reachable run xy(1)] by simp
  then show ?thesis using xy by blast
qed

end
