(* ===== verification/Signal_Delivery.thy ===== *)
theory Signal_Delivery
  imports Payout_Safety
begin

text \<open>
  What the signaling mailbox of \<open>convex/signals.ts\<close> promises the two browsers of a call:
  everything one participant sends arrives in the other's inbox, once and in the order it was sent,
  save that a \<open>ready\<close> is dropped while an earlier one is still unhandled; the sender's own inbox is
  not touched; and acknowledging what was read leaves nothing behind.
\<close>

section \<open>What a send adds\<close>

text \<open>The signals that a send keeps, given whether a \<open>ready\<close> is waiting already.\<close>

fun kept_signals :: "bool \<Rightarrow> (signal_type \<times> string) list \<Rightarrow> (signal_type \<times> string) list" where
  "kept_signals p [] = []"
| "kept_signals p (g # gs) =
     (if fst g = Signal_ready then (if p then kept_signals True gs else g # kept_signals True gs)
      else g # kept_signals p gs)"

lemma kept_signals_all: "Signal_ready \<notin> fst ` set gs \<Longrightarrow> kept_signals p gs = gs"
  by (induction p gs rule: kept_signals.induct) auto

definition signal_row :: "ctx \<Rightarrow> id \<Rightarrow> call_role \<Rightarrow> nat \<times> signal_type \<times> string \<Rightarrow> signal_doc" where
  "signal_row ctx i to = (\<lambda>(n, ty, payload). \<lparr>did = n, ctime = now ctx, sg_callId = i, sg_to = to,
     sg_type = ty, sg_payload = payload\<rparr>)"

definition with_signals :: "ctx \<Rightarrow> id \<Rightarrow> call_role \<Rightarrow> (signal_type \<times> string) list \<Rightarrow> db \<Rightarrow> db" where
  "with_signals ctx i to gs s = s\<lparr>callSignals := callSignals s @ map (signal_row ctx i to) (enumerate (nextId s) gs),
     nextId := nextId s + length gs\<rparr>"

lemma with_signals_Nil [simp]: "with_signals ctx i to [] s = s"
  by (simp add: with_signals_def)

lemma with_signals_Cons:
  "with_signals ctx i to gs (insertSignal ctx i to ty x s) = with_signals ctx i to ((ty, x) # gs) s"
  by (simp add: with_signals_def insertSignal_def signal_row_def db_insert_def)

lemma readyInInbox_insert:
  "readyInInbox (insertSignal ctx i to ty x s) i to \<longleftrightarrow> ty = Signal_ready \<or> readyInInbox s i to"
  by (auto simp: readyInInbox_def insertSignal_def first_by_None)

lemma sendEach_Inr:
  assumes "sendEach json_ok ctx i role gs pending s = Inr s'"
  shows "s' = with_signals ctx i (other role)
    (kept_signals (case pending of Some b \<Rightarrow> b | None \<Rightarrow> readyInInbox s i (other role)) gs) s"
  using assms
  by (induction json_ok ctx i role gs pending s rule: sendEach.induct)
    (auto simp: Let_def with_signals_Cons readyInInbox_insert split: if_splits option.splits)

lemma signals_send_Inr:
  assumes "signals_send json_ok ctx i gs s = Inr s'"
  obtains call role where "callForParticipant ctx i s = Inr (call, role)" "c_status call \<in> set CONNECTABLE_STATUSES"
    "s' = with_signals ctx i (other role) (kept_signals (readyInInbox s i (other role)) gs) s"
  using assms by (auto simp: signals_send_def split: if_splits dest!: sendEach_Inr)

section \<open>Reading and acknowledging\<close>

definition inbox_of :: "db \<Rightarrow> id \<Rightarrow> call_role \<Rightarrow> (id \<times> signal_type \<times> string) list" where
  "inbox_of s i role = map (\<lambda>g. (did g, sg_type g, sg_payload g))
     (sort_key ctime (filter (\<lambda>g. sg_callId g = i \<and> sg_to g = role) (callSignals s)))"

lemma signals_inbox_eq:
  "callForParticipant ctx i s = Inr (call, role) \<Longrightarrow> signals_inbox ctx i s = Inr (inbox_of s i role)"
  by (simp add: signals_inbox_def inbox_of_def)


lemma insort_key_append: "\<forall>y\<in>set B. f x \<le> f y \<Longrightarrow> insort_key f x (A @ B) = insort_key f x A @ B"
  by (induction A) (auto intro: insort_is_Cons)

lemma sort_key_append_later:
  "\<forall>x\<in>set xs. \<forall>y\<in>set ys. f x \<le> f y \<Longrightarrow> sort_key f (xs @ ys) = sort_key f xs @ sort_key f ys"
  for f :: "'a \<Rightarrow> 'k::linorder"
  by (induction xs) (auto simp: insort_key_append)

lemma sort_key_constant: "\<forall>x\<in>set xs. f x = k \<Longrightarrow> sort_key f xs = xs"
  for f :: "'a \<Rightarrow> 'k::linorder"
  by (induction xs) (auto intro: insort_is_Cons)

text \<open>The new rows as their reader sees them: in the order sent, after everything older.\<close>

lemma signal_row_fields [simp]:
  "did (signal_row c i to (n, g)) = n" "sg_callId (signal_row c i to (n, g)) = i" "sg_to (signal_row c i to (n, g)) = to"
  "ctime (signal_row c i to (n, g)) = now c"
  "(sg_type (signal_row c i to (n, g)), sg_payload (signal_row c i to (n, g))) = g"
  by (auto simp: signal_row_def split: prod.splits)

lemma map_signal_row: "map (\<lambda>g. (did g, sg_type g, sg_payload g)) (map (signal_row ctx i to) xs) = xs"
  by (induction xs) (auto simp: signal_row_def)

lemma inbox_with_signals:
  assumes "\<forall>g\<in>set (callSignals s). sg_callId g = i \<longrightarrow> ctime g \<le> now ctx"
  shows "inbox_of (with_signals ctx i to gs s) i to = inbox_of s i to @ enumerate (nextId s) gs"
    "role \<noteq> to \<Longrightarrow> inbox_of (with_signals ctx i to gs s) i role = inbox_of s i role"
    "j \<noteq> i \<Longrightarrow> inbox_of (with_signals ctx i to gs s) j role = inbox_of s j role"
proof -
  let ?new = "map (signal_row ctx i to) (enumerate (nextId s) gs)"
  have all: "filter (\<lambda>g. sg_callId g = i \<and> sg_to g = to) ?new = ?new"
    by (rule filter_True) (auto simp: signal_row_def)
  have view: "map (\<lambda>g. (did g, sg_type g, sg_payload g)) ?new = enumerate (nextId s) gs"
    by (rule map_signal_row)
  have sort: "sort_key ctime (filter (\<lambda>g. sg_callId g = i \<and> sg_to g = to) (callSignals s) @ ?new) =
      sort_key ctime (filter (\<lambda>g. sg_callId g = i \<and> sg_to g = to) (callSignals s)) @ ?new"
  proof -
    have "sort_key ctime ?new = ?new"
      by (rule sort_key_constant [where k = "now ctx"]) (auto simp: signal_row_def)
    then show ?thesis using assms by (subst sort_key_append_later) (auto simp: signal_row_def)
  qed
  show "inbox_of (with_signals ctx i to gs s) i to = inbox_of s i to @ enumerate (nextId s) gs"
    unfolding inbox_of_def with_signals_def by (simp add: all sort view del: map_map)
  show "role \<noteq> to \<Longrightarrow> inbox_of (with_signals ctx i to gs s) i role = inbox_of s i role"
    by (auto simp: inbox_of_def with_signals_def signal_row_def filter_map comp_def case_prod_beta)
  show "j \<noteq> i \<Longrightarrow> inbox_of (with_signals ctx i to gs s) j role = inbox_of s j role"
    by (auto simp: inbox_of_def with_signals_def signal_row_def filter_map comp_def case_prod_beta)
qed

lemma callSignals_acked:
  "callSignals (fold (ackOne i role) ids s) =
     filter (\<lambda>g. \<not> (did g \<in> set ids \<and> sg_callId g = i \<and> sg_to g = role)) (callSignals s)"
  if "wf_table (nextId s) (callSignals s)"
  using that
proof (induction ids arbitrary: s)
  case (Cons k ids)
  have one: "callSignals (ackOne i role k s) = filter (\<lambda>g. \<not> (did g = k \<and> sg_callId g = i \<and> sg_to g = role)) (callSignals s)"
  proof (cases "db_get (callSignals s) k")
    case None
    then have "\<forall>g\<in>set (callSignals s). did g \<noteq> k" by (simp add: db_get_None_iff)
    then show ?thesis by (simp add: ackOne_def None)
  next
    case (Some g)
    then have g: "\<forall>x\<in>set (callSignals s). did x = k \<longleftrightarrow> x = g"
      using Cons.prems by (auto simp: db_get_iff dest: wf_table_inj)
    then show ?thesis using Some
      by (auto simp: ackOne_def db_delete_def intro!: filter_cong filter_True [symmetric])
  qed
  have next_id: "nextId (ackOne i role k s) = nextId s"
    by (simp add: ackOne_def split: option.split)
  have "wf_table (nextId (ackOne i role k s)) (callSignals (ackOne i role k s))"
    unfolding one next_id using Cons.prems by (rule wf_filter)
  from Cons.IH [OF this] show ?case by (auto simp: one intro: filter_cong)
qed simp

lemma calls_acked: "calls (fold (ackOne i role) ids s) = calls s"
  by (induction ids arbitrary: s) (auto simp: ackOne_def split: option.split)


lemma callForParticipant_calls: "calls s = calls s' \<Longrightarrow> callForParticipant ctx i s = callForParticipant ctx i s'"
  by (simp add: callForParticipant_def)

lemma acked_inbox:
  assumes "wf_db s" "set (map fst (inbox_of s i role)) \<subseteq> set ids"
  shows "inbox_of (fold (ackOne i role) ids s) i role = []"
proof -
  have "wf_table (nextId s) (callSignals s)" using assms(1) by (simp add: wf_db_def Let_def)
  then have "callSignals (fold (ackOne i role) ids s) =
     filter (\<lambda>g. \<not> (did g \<in> set ids \<and> sg_callId g = i \<and> sg_to g = role)) (callSignals s)"
    by (rule callSignals_acked)
  moreover have "did g \<in> set ids" if "g \<in> set (callSignals s)" "sg_callId g = i" "sg_to g = role" for g
    using assms(2) that by (auto simp: inbox_of_def)
  ultimately have "filter (\<lambda>g. sg_callId g = i \<and> sg_to g = role) (callSignals (fold (ackOne i role) ids s)) = []"
    by (auto simp: filter_empty_conv)
  then show ?thesis by (simp only: inbox_of_def sort_key_simps list.map)
qed

lemma acked_other_inbox:
  assumes "wf_db s" "r \<noteq> role"
  shows "inbox_of (fold (ackOne i role) ids s) i r = inbox_of s i r"
proof -
  have "wf_table (nextId s) (callSignals s)" using assms(1) by (simp add: wf_db_def Let_def)
  note rows = callSignals_acked [OF this, of i role ids]
  have "filter (\<lambda>g. sg_callId g = i \<and> sg_to g = r) (callSignals (fold (ackOne i role) ids s)) =
      filter (\<lambda>g. sg_callId g = i \<and> sg_to g = r) (callSignals s)"
    unfolding rows filter_filter using assms(2) by (intro filter_cong) auto
  then show ?thesis by (simp only: inbox_of_def)
qed

lemma inbox_ids:
  assumes "wf_db s"
  shows "distinct (map fst (inbox_of s i role))" "\<forall>k\<in>set (map fst (inbox_of s i role)). k < nextId s"
proof -
  have "wf_table (nextId s) (callSignals s)" using assms by (simp add: wf_db_def Let_def)
  then show "distinct (map fst (inbox_of s i role))" "\<forall>k\<in>set (map fst (inbox_of s i role)). k < nextId s"
    by (auto simp: inbox_of_def comp_def wf_table_def distinct_map inj_on_def)
qed

section \<open>The round trip\<close>

text \<open>
  Signals make the round trip.  When one participant sends and the other has an inbox, the send
  leaves the recipient's inbox as it was followed by what was sent, in order (all of it unless it
  repeats a \<open>ready\<close>), under ids that are new; the sender's inbox does not change; and when the
  recipient acknowledges all it has read its inbox is empty.  The clock hypothesis says that no
  document of the call is younger than the send.
\<close>

theorem signals_make_the_round_trip:
  assumes "reachable h s" "signals_send (host_json h) ctx i gs s = Inr s'"
    and "callForParticipant ctx i s = Inr (call, role)" "callForParticipant ctx' i s = Inr (call', other role)"
    and "signals_inbox ctx' i s = Inr old" "\<forall>g\<in>set (callSignals s). sg_callId g = i \<longrightarrow> ctime g \<le> now ctx"
  shows "\<exists>new. signals_inbox ctx' i s' = Inr (old @ new) \<and> distinct (map fst (old @ new)) \<and>
    map snd new = kept_signals (readyInInbox s i (other role)) gs \<and>
    (Signal_ready \<in> fst ` set gs \<or> map snd new = gs) \<and>
    signals_inbox ctx i s' = signals_inbox ctx i s \<and>
    (case signals_ack ctx' i (map fst (old @ new)) s' of Inl _ \<Rightarrow> False
     | Inr s'' \<Rightarrow> signals_inbox ctx' i s'' = Inr [] \<and> signals_inbox ctx i s'' = signals_inbox ctx i s)"
proof -
  let ?kept = "kept_signals (readyInInbox s i (other role)) gs"
  let ?new = "enumerate (nextId s) ?kept"
  let ?acked = "fold (ackOne i (other role)) (map fst (old @ ?new)) s'"
  have s': "s' = with_signals ctx i (other role) ?kept s"
    using signals_send_Inr [OF assms(2)] assms(3) by (metis Pair_inject sum.inject(2))
  have same_calls: "calls s' = calls s" by (simp add: s' with_signals_def)
  have parties: "callForParticipant ctx i t = Inr (call, role)" "callForParticipant ctx' i t = Inr (call', other role)"
    if "calls t = calls s" for t
    using assms(3,4) callForParticipant_calls [OF that] by simp_all
  note reads = signals_inbox_eq [OF parties(1)] signals_inbox_eq [OF parties(2)]
  have old: "old = inbox_of s i (other role)" using assms(5) reads(2) [of s] by simp
  note sent = inbox_with_signals [OF assms(6), where to = "other role" and gs = ?kept, folded s']
  have own: "role \<noteq> other role" by (simp add: other_def split: call_role.split)
  have wf0: "wf_db s" by (rule reachable_wf [OF assms(1)])
  then have wf: "wf_db s'" using wf_signal_ops(1) [of s] assms(2) by (simp add: sat_def ensuresDb_def)
  have ids: "distinct (map fst (old @ ?new))"
    using inbox_ids [OF wf0, of i "other role"] by (auto simp: old)
  have inbox': "inbox_of s' i (other role) = old @ ?new" using sent(1) old by simp
  have ack: "signals_ack ctx' i (map fst (old @ ?new)) s' = Inr ?acked"
    by (simp add: signals_ack_def parties(2) [OF same_calls])
  have acked: "inbox_of ?acked i (other role) = []"
    by (rule acked_inbox [OF wf]) (simp add: inbox')
  have untouched: "inbox_of ?acked i role = inbox_of s' i role"
    by (rule acked_other_inbox [OF wf own])
  have calls'': "calls ?acked = calls s" by (simp only: calls_acked same_calls)
  have after: "signals_inbox ctx' i ?acked = Inr []" "signals_inbox ctx i ?acked = signals_inbox ctx i s"
    using acked untouched sent(2) [OF own] by (simp_all only: reads calls'' refl)
  have before: "signals_inbox ctx' i s' = Inr (old @ ?new)" "signals_inbox ctx i s' = signals_inbox ctx i s"
    using inbox' sent(2) [OF own] by (simp_all only: reads same_calls refl)
  have all: "Signal_ready \<in> fst ` set gs \<or> map snd ?new = gs" using kept_signals_all by auto
  show ?thesis
    by (intro exI [of _ ?new] conjI before ids all) (simp_all only: ack after sum.case map_snd_enumerate simp_thms)
qed

text \<open>The creator of the call of the demo offers, with two candidates.\<close>

definition demo_signals :: "(signal_type \<times> string) list" where
  "demo_signals = [(Signal_offer, ''o''), (Signal_ice, ''a''), (Signal_ice, ''b'')]"

definition demo_sent :: db where
  "demo_sent = commitDb (demo_at 16) (signals_send (host_json demo_host) (by_user (Some 0) 9700) 13 demo_signals (demo_at 16))"

theorem signals_make_the_round_trip_witness:
  "\<exists>new. signals_inbox (by_user (Some 2) 9800) 13 demo_sent = Inr new \<and> map snd new = demo_signals"
proof -
  have "case callForParticipant (by_user (Some 0) 9700) 13 (demo_at 16) of
      Inr (c, r) \<Rightarrow> r = Creator \<and> c_status c = Call_CONNECTING | Inl _ \<Rightarrow> False"
    "case callForParticipant (by_user (Some 2) 9800) 13 (demo_at 16) of Inr (_, r) \<Rightarrow> r = Viewer | Inl _ \<Rightarrow> False"
    by code_simp+
  then obtain call call' where c: "callForParticipant (by_user (Some 0) 9700) 13 (demo_at 16) = Inr (call, Creator)"
    "callForParticipant (by_user (Some 2) 9800) 13 (demo_at 16) = Inr (call', other Creator)" "c_status call = Call_CONNECTING"
    by (auto simp: other_def split: sum.splits)
  from c have send: "signals_send (host_json demo_host) (by_user (Some 0) 9700) 13 demo_signals (demo_at 16) = Inr demo_sent"
    by (simp add: demo_sent_def signals_send_def CONNECTABLE_STATUSES_def MAX_BATCH_def demo_signals_def demo_host_def
      ALLOWED_def utf8_length_def MAX_PAYLOAD_BYTES_def)
  have empty: "signals_inbox (by_user (Some 2) 9800) 13 (demo_at 16) = Inr []" "callSignals (demo_at 16) = []"
    by code_simp+
  have "\<exists>new. signals_inbox (by_user (Some 2) 9800) 13 demo_sent = Inr ([] @ new) \<and>
      (Signal_ready \<in> fst ` set demo_signals \<or> map snd new = demo_signals)"
    using signals_make_the_round_trip [OF demo_reachable send c(1,2) empty(1)] empty(2) by auto
  then show ?thesis by (simp add: demo_signals_def)
qed

end
