(* ===== verification/Signal_Socket.thy ===== *)
theory Signal_Socket
  imports Signal_Delivery
begin

text \<open>
  The browser's end of signaling: the class \<open>ConvexSignalSocket\<close> of
  \<open>src/lib/convex/signalSocket.ts\<close>, which looks like a WebSocket to the call manager.  The
  object is a record, and its effects on the world are a log in the order they happen: the
  mutations it asks for and the callbacks it makes.  A callback that nobody has attached does
  nothing and is not in the log.  Timers are flags saying that they are armed; a step of the
  socket is one event of the browser's event loop.
\<close>

section \<open>The object\<close>

datatype ready_state = Sock_CONNECTING | Sock_OPEN | Sock_CLOSED

type_synonym outgoing = "string \<times> string"

datatype socket_effect =
    Told_open
  | Told_message id string string
  | Told_error
  | Told_close
  | Ran_ack "id list"
  | Ran_heartbeat
  | Ran_leave

record socket =
  so_readyState :: ready_state
  so_seen :: "id list"
  so_unacked :: "id list"
  so_ice :: "outgoing list"
  so_iceTimer :: bool
  so_ackTimer :: bool
  so_heartbeat :: bool
  so_openTimer :: bool
  so_subscribed :: bool
  so_attached :: bool
  so_sending :: "outgoing list list"
  so_log :: "socket_effect list"

definition SOCKET_MAX_BATCH :: nat where "SOCKET_MAX_BATCH = 20"

definition note_effect :: "socket_effect \<Rightarrow> socket \<Rightarrow> socket" where
  "note_effect e so = so\<lparr>so_log := so_log so @ [e]\<rparr>"

definition call_back :: "socket_effect \<Rightarrow> socket \<Rightarrow> socket" where
  "call_back e so = (if so_attached so then note_effect e so else so)"

section \<open>Its methods\<close>

definition stopTimers :: "socket \<Rightarrow> socket" where
  "stopTimers so = so\<lparr>so_heartbeat := False, so_iceTimer := False, so_ackTimer := False\<rparr>"

definition socket_fail :: "socket \<Rightarrow> socket" where
  "socket_fail so =
     (if so_readyState so = Sock_CLOSED then so
      else call_back Told_close (call_back Told_error
             ((stopTimers (so\<lparr>so_readyState := Sock_CLOSED\<rparr>))\<lparr>so_subscribed := False\<rparr>)))"

definition socket_post :: "outgoing list \<Rightarrow> socket \<Rightarrow> socket" where
  "socket_post signals so = so\<lparr>so_sending := so_sending so @ [signals]\<rparr>"

text \<open>\<open>while (this.ice.length) this.post(this.ice.splice(0, MAX_BATCH))\<close>\<close>

function ice_batches :: "outgoing list \<Rightarrow> outgoing list list" where
  "ice_batches ice = (if ice = [] then [] else take SOCKET_MAX_BATCH ice # ice_batches (drop SOCKET_MAX_BATCH ice))"
  by pat_completeness auto

termination
  by (relation "measure length") (auto simp: SOCKET_MAX_BATCH_def)

definition flushIce :: "socket \<Rightarrow> socket" where
  "flushIce so = (fold socket_post (ice_batches (so_ice so)) (so\<lparr>so_iceTimer := False\<rparr>))\<lparr>so_ice := []\<rparr>"

definition flushAcks :: "socket \<Rightarrow> socket" where
  "flushAcks so =
     (let so' = so\<lparr>so_ackTimer := False, so_unacked := []\<rparr>
      in if so_unacked so = [] then so' else note_effect (Ran_ack (so_unacked so)) so')"

definition beat :: "socket \<Rightarrow> socket" where
  "beat so = note_effect Ran_heartbeat so"

definition receive_one :: "id \<times> string \<times> string \<Rightarrow> socket \<Rightarrow> socket" where
  "receive_one = (\<lambda>(i, ty, payload) so.
     if i \<in> set (so_seen so) then so
     else call_back (Told_message i ty payload)
            (so\<lparr>so_seen := so_seen so @ [i], so_unacked := so_unacked so @ [i]\<rparr>))"

definition receive :: "(id \<times> string \<times> string) list \<Rightarrow> socket \<Rightarrow> socket" where
  "receive signals so =
     (let so' = fold receive_one signals so
      in if so_unacked so' = [] then so' else so'\<lparr>so_ackTimer := True\<rparr>)"

definition socket_send :: "string \<Rightarrow> string \<Rightarrow> socket \<Rightarrow> socket" where
  "socket_send ty payload so =
     (if so_readyState so \<noteq> Sock_OPEN then so
      else if ty = ''signal.ice''
      then (let so' = so\<lparr>so_ice := so_ice so @ [(ty, payload)]\<rparr>
            in if length (so_ice so') \<ge> SOCKET_MAX_BATCH then flushIce so'
               else so'\<lparr>so_iceTimer := True\<rparr>)
      else socket_post [(ty, payload)] (flushIce so))"

definition socket_close :: "socket \<Rightarrow> socket" where
  "socket_close so =
     (if so_readyState so = Sock_CLOSED then so
      else note_effect Ran_leave
             ((stopTimers ((flushAcks (flushIce so))\<lparr>so_readyState := Sock_CLOSED\<rparr>))\<lparr>so_subscribed := False\<rparr>))"

text \<open>
  The local result of the inbox query: not there yet, the signals, or an error that it throws.
\<close>

datatype inbox_result = Inbox_undefined | Inbox_signals "(id \<times> string \<times> string) list" | Inbox_throws

definition deliver :: "inbox_result \<Rightarrow> socket \<Rightarrow> socket" where
  "deliver r so = (case r of
     Inbox_undefined \<Rightarrow> so | Inbox_signals signals \<Rightarrow> receive signals so | Inbox_throws \<Rightarrow> socket_fail so)"

text \<open>The constructor: the fields, the first delivery, the first beat and the two timers.\<close>

definition fresh_socket :: socket where
  "fresh_socket = \<lparr>so_readyState = Sock_CONNECTING, so_seen = [], so_unacked = [], so_ice = [], so_iceTimer = False,
     so_ackTimer = False, so_heartbeat = False, so_openTimer = False, so_subscribed = True, so_attached = False,
     so_sending = [], so_log = []\<rparr>"

definition new_socket :: "inbox_result \<Rightarrow> socket" where
  "new_socket r = (beat (deliver r fresh_socket))\<lparr>so_heartbeat := True, so_openTimer := True\<rparr>"

section \<open>Events\<close>

datatype socket_event =
    Attach
  | Updated inbox_result
  | Send string string
  | Close
  | Ice_timer
  | Ack_timer
  | Heartbeat_timer
  | Open_timer
  | Send_failed

text \<open>
  The handler of the zero timeout, and one step of the event loop.  \<open>Attach\<close> is the call manager
  setting its four handlers; \<open>Send_failed\<close> is the \<open>catch\<close> of a posted \<open>signals.send\<close>.
\<close>

definition open_socket :: "socket \<Rightarrow> socket" where
  "open_socket so = (if so_readyState so \<noteq> Sock_CONNECTING then so
     else call_back Told_open (so\<lparr>so_readyState := Sock_OPEN\<rparr>))"

fun socket_step :: "socket_event \<Rightarrow> socket \<Rightarrow> socket" where
  "socket_step Attach so = so\<lparr>so_attached := True\<rparr>"
| "socket_step (Updated r) so = (if so_subscribed so then deliver r so else so)"
| "socket_step (Send ty payload) so = socket_send ty payload so"
| "socket_step Close so = socket_close so"
| "socket_step Ice_timer so = (if so_iceTimer so then flushIce so else so)"
| "socket_step Ack_timer so = (if so_ackTimer so then flushAcks so else so)"
| "socket_step Heartbeat_timer so = (if so_heartbeat so then beat so else so)"
| "socket_step Open_timer so = (if so_openTimer so then open_socket (so\<lparr>so_openTimer := False\<rparr>) else so)"
| "socket_step Send_failed so = (if so_sending so \<noteq> [] then socket_fail so else so)"

definition socket_run :: "inbox_result \<Rightarrow> socket_event list \<Rightarrow> socket" where
  "socket_run r events = fold socket_step events (new_socket r)"

end
