(* ===== verification/Socket_Properties.thy ===== *)
theory Socket_Properties
  imports Signal_Socket
begin

text \<open>
  What the browser's signaling socket guarantees whatever the event loop does: nothing sent while it
  is open is lost or reordered, batches fit what the server takes, every signal is handed to the
  call manager once, and only handed-over signals are acknowledged.
\<close>

section \<open>Batches\<close>

declare ice_batches.simps [simp del]

lemma ice_batches_Nil [simp]: "ice_batches [] = []"
  by (simp add: ice_batches.simps)

lemma concat_ice_batches [simp]: "concat (ice_batches ice) = ice"
proof (induction ice rule: ice_batches.induct)
  case (1 ice)
  then show ?case by (cases "ice = []") (simp_all add: ice_batches.simps [of ice])
qed

definition fits_server :: "outgoing list \<Rightarrow> bool" where
  "fits_server b \<longleftrightarrow> b \<noteq> [] \<and> length b \<le> SOCKET_MAX_BATCH"

lemma ice_batches_fit: "b \<in> set (ice_batches ice) \<Longrightarrow> fits_server b"
proof (induction ice rule: ice_batches.induct)
  case (1 ice)
  then show ?case by (cases "ice = []") (auto simp: ice_batches.simps [of ice] fits_server_def SOCKET_MAX_BATCH_def)
qed

lemma fold_socket_post: "fold socket_post bs so = so\<lparr>so_sending := so_sending so @ bs\<rparr>"
  by (induction bs arbitrary: so) (simp_all add: socket_post_def)

lemma flushIce_eq:
  "flushIce so = so\<lparr>so_iceTimer := False, so_sending := so_sending so @ ice_batches (so_ice so), so_ice := []\<rparr>"
  by (simp add: flushIce_def fold_socket_post)

section \<open>Nothing sent is lost or reordered\<close>

text \<open>The signals that a run of events sends while the socket is open.\<close>

fun sent_open :: "socket_event list \<Rightarrow> socket \<Rightarrow> outgoing list" where
  "sent_open [] so = []"
| "sent_open (e # es) so = (case e of
     Send ty payload \<Rightarrow> if so_readyState so = Sock_OPEN then [(ty, payload)] else []
   | _ \<Rightarrow> []) @ sent_open es (socket_step e so)"

definition out_of :: "socket \<Rightarrow> outgoing list" where
  "out_of so = concat (so_sending so) @ so_ice so"

definition outbox_ok :: "socket \<Rightarrow> bool" where
  "outbox_ok so \<longleftrightarrow> (\<forall>b\<in>set (so_sending so). fits_server b) \<and> length (so_ice so) < SOCKET_MAX_BATCH \<and>
     (so_ice so \<noteq> [] \<and> so_readyState so \<noteq> Sock_CLOSED \<longrightarrow> so_iceTimer so)"

lemma call_back_fields [simp]:
  "so_sending (call_back e so) = so_sending so" "so_ice (call_back e so) = so_ice so"
  "so_readyState (call_back e so) = so_readyState so" "so_iceTimer (call_back e so) = so_iceTimer so"
  "so_seen (call_back e so) = so_seen so" "so_unacked (call_back e so) = so_unacked so"
  "so_attached (call_back e so) = so_attached so" "so_subscribed (call_back e so) = so_subscribed so"
  by (simp_all add: call_back_def note_effect_def)

lemma note_effect_fields [simp]:
  "so_sending (note_effect e so) = so_sending so" "so_ice (note_effect e so) = so_ice so"
  "so_readyState (note_effect e so) = so_readyState so" "so_iceTimer (note_effect e so) = so_iceTimer so"
  "so_seen (note_effect e so) = so_seen so" "so_unacked (note_effect e so) = so_unacked so"
  "so_attached (note_effect e so) = so_attached so" "so_subscribed (note_effect e so) = so_subscribed so"
  "so_log (note_effect e so) = so_log so @ [e]"
  by (simp_all add: note_effect_def)

text \<open>What every method does to the outbox.\<close>

lemma receive_one_outbox:
  "so_sending (receive_one g so) = so_sending so" "so_ice (receive_one g so) = so_ice so"
  "so_readyState (receive_one g so) = so_readyState so" "so_iceTimer (receive_one g so) = so_iceTimer so"
  by (simp_all add: receive_one_def split: prod.split)

lemma fold_receive_outbox:
  "so_sending (fold receive_one gs so) = so_sending so" "so_ice (fold receive_one gs so) = so_ice so"
  "so_readyState (fold receive_one gs so) = so_readyState so" "so_iceTimer (fold receive_one gs so) = so_iceTimer so"
  by (induction gs arbitrary: so) (simp_all add: receive_one_outbox)

lemma receive_outbox [simp]:
  "so_sending (receive gs so) = so_sending so" "so_ice (receive gs so) = so_ice so"
  "so_readyState (receive gs so) = so_readyState so" "so_iceTimer (receive gs so) = so_iceTimer so"
  by (simp_all add: receive_def Let_def fold_receive_outbox)

lemma fail_outbox:
  "so_sending (socket_fail so) = so_sending so" "so_ice (socket_fail so) = so_ice so"
  "so_readyState (socket_fail so) = Sock_CLOSED"
  by (simp_all add: socket_fail_def stopTimers_def)

lemma deliver_outbox:
  "out_of (deliver r so) = out_of so" "outbox_ok so \<Longrightarrow> outbox_ok (deliver r so)"
  by (auto simp: deliver_def out_of_def outbox_ok_def fail_outbox split: inbox_result.split)

lemma step_outbox:
  "out_of (socket_step e so) = out_of so @ (case e of
     Send ty payload \<Rightarrow> if so_readyState so = Sock_OPEN then [(ty, payload)] else [] | _ \<Rightarrow> [])"
  "outbox_ok so \<Longrightarrow> outbox_ok (socket_step e so)"
proof -
  show "out_of (socket_step e so) = out_of so @ (case e of
     Send ty payload \<Rightarrow> if so_readyState so = Sock_OPEN then [(ty, payload)] else [] | _ \<Rightarrow> [])"
    by (cases e)
      (auto simp: deliver_outbox [unfolded out_of_def] out_of_def socket_send_def socket_post_def flushIce_eq socket_close_def flushAcks_def
        stopTimers_def beat_def open_socket_def fail_outbox Let_def)
  show "outbox_ok (socket_step e so)" if ok: "outbox_ok so"
  proof (cases "\<exists>r. e = Updated r")
    case True
    then show ?thesis using ok by (auto simp: deliver_outbox(2))
  next
    case False
    then show ?thesis using ok
      by (cases e)
        (auto simp: outbox_ok_def socket_send_def socket_post_def flushIce_eq socket_close_def flushAcks_def
          stopTimers_def beat_def open_socket_def fail_outbox Let_def fits_server_def [of "[_]"] SOCKET_MAX_BATCH_def
          dest: ice_batches_fit split: if_splits)
  qed
qed

lemma run_outbox:
  "out_of (fold socket_step es so) = out_of so @ sent_open es so"
  "outbox_ok so \<Longrightarrow> outbox_ok (fold socket_step es so)"
  by (induction es arbitrary: so) (auto simp: step_outbox)

lemma new_socket_outbox: "out_of (new_socket r) = []" "outbox_ok (new_socket r)"
  by (cases r; simp add: new_socket_def deliver_def fresh_socket_def beat_def out_of_def outbox_ok_def fail_outbox
      SOCKET_MAX_BATCH_def)+

text \<open>
  Nothing a browser sends over the socket is lost or reordered.  Whatever events the socket
  sees, the batches it posts, followed by the candidates still waiting for their window, are
  exactly the signals sent while it was open, in that order; every batch has between one
  and twenty signals, as the server demands; and waiting candidates have their timer armed unless the socket
  is closed.
\<close>

theorem socket_keeps_what_is_sent:
  "let so = socket_run r es in
     concat (so_sending so) @ so_ice so = sent_open es (new_socket r) \<and>
     list_all (\<lambda>b. 1 \<le> length b \<and> length b \<le> MAX_BATCH) (so_sending so) \<and> length (so_ice so) < MAX_BATCH \<and>
     (so_ice so = [] \<or> so_readyState so = Sock_CLOSED \<or> so_iceTimer so)"
proof -
  let ?so = "socket_run r es"
  have ok: "outbox_ok ?so" unfolding socket_run_def by (rule run_outbox(2) [OF new_socket_outbox(2)])
  have "out_of ?so = sent_open es (new_socket r)"
    unfolding socket_run_def by (simp add: run_outbox(1) new_socket_outbox(1))
  moreover have "list_all (\<lambda>b. 1 \<le> length b \<and> length b \<le> MAX_BATCH) (so_sending ?so)"
    using ok by (auto simp: outbox_ok_def fits_server_def list_all_iff SOCKET_MAX_BATCH_def MAX_BATCH_def Suc_le_eq)
  ultimately show ?thesis
    using ok by (auto simp: out_of_def outbox_ok_def Let_def SOCKET_MAX_BATCH_def MAX_BATCH_def)
qed

section \<open>Every signal is handed over once\<close>

fun effect_message :: "socket_effect \<Rightarrow> (id \<times> string \<times> string) list" where
  "effect_message (Told_message i ty payload) = [(i, ty, payload)]"
| "effect_message _ = []"

fun effect_acks :: "socket_effect \<Rightarrow> id list" where
  "effect_acks (Ran_ack ids) = ids"
| "effect_acks _ = []"

definition told :: "socket \<Rightarrow> (id \<times> string \<times> string) list" where
  "told so = concat (map effect_message (so_log so))"

definition acked :: "socket \<Rightarrow> id list" where
  "acked so = concat (map effect_acks (so_log so))"

text \<open>The signals of a list that are new, each id once.\<close>

fun fresh_signals :: "id list \<Rightarrow> (id \<times> string \<times> string) list \<Rightarrow> (id \<times> string \<times> string) list" where
  "fresh_signals ids [] = []"
| "fresh_signals ids (g # gs) =
     (if fst g \<in> set ids then fresh_signals ids gs else g # fresh_signals (ids @ [fst g]) gs)"

text \<open>What the inbox query shows the socket while it is subscribed.\<close>

fun shown :: "socket_event list \<Rightarrow> socket \<Rightarrow> (id \<times> string \<times> string) list" where
  "shown [] so = []"
| "shown (e # es) so = (case e of
     Updated (Inbox_signals gs) \<Rightarrow> if so_subscribed so then gs else [] | _ \<Rightarrow> []) @ shown es (socket_step e so)"

definition inbound_ok :: "socket \<Rightarrow> bool" where
  "inbound_ok so \<longleftrightarrow> so_attached so \<and> distinct (so_seen so) \<and> map fst (told so) = so_seen so \<and>
     so_seen so = acked so @ so_unacked so"

lemma fresh_signals_append:
  "fresh_signals ids (gs @ hs) = fresh_signals ids gs @ fresh_signals (ids @ map fst (fresh_signals ids gs)) hs"
  by (induction ids gs rule: fresh_signals.induct) auto

lemma log_note [simp]:
  "told (note_effect e so) = told so @ effect_message e" "acked (note_effect e so) = acked so @ effect_acks e"
  by (simp_all add: told_def acked_def)

lemma log_call_back [simp]:
  "told (call_back e so) = told so @ (if so_attached so then effect_message e else [])"
  "acked (call_back e so) = acked so @ (if so_attached so then effect_acks e else [])"
  by (simp_all add: call_back_def)

lemma log_update [simp]:
  "told (so_seen_update f so) = told so" "acked (so_seen_update f so) = acked so"
  "told (so_unacked_update g so) = told so" "acked (so_unacked_update g so) = acked so"
  "told (so_readyState_update h so) = told so" "acked (so_readyState_update h so) = acked so"
  "told (so_ice_update k so) = told so" "acked (so_ice_update k so) = acked so"
  "told (so_sending_update l so) = told so" "acked (so_sending_update l so) = acked so"
  "told (so_iceTimer_update m so) = told so" "acked (so_iceTimer_update m so) = acked so"
  "told (so_ackTimer_update m so) = told so" "acked (so_ackTimer_update m so) = acked so"
  "told (so_heartbeat_update m so) = told so" "acked (so_heartbeat_update m so) = acked so"
  "told (so_openTimer_update m so) = told so" "acked (so_openTimer_update m so) = acked so"
  "told (so_subscribed_update m so) = told so" "acked (so_subscribed_update m so) = acked so"
  "told (so_attached_update m so) = told so" "acked (so_attached_update m so) = acked so"
  by (simp_all add: told_def acked_def)

lemma inbound_ok_ackTimer: "inbound_ok (so_ackTimer_update m so) = inbound_ok so"
  by (simp add: inbound_ok_def)

lemma receive_one_inbound:
  assumes "inbound_ok so"
  shows "inbound_ok (receive_one g so)" "told (receive_one g so) = told so @ fresh_signals (map fst (told so)) [g]"
  using assms by (auto simp: inbound_ok_def receive_one_def split: prod.split)

lemma receive_inbound:
  assumes "inbound_ok so"
  shows "inbound_ok (receive gs so)" "told (receive gs so) = told so @ fresh_signals (map fst (told so)) gs"
proof -
  have "inbound_ok (fold receive_one gs so) \<and>
      told (fold receive_one gs so) = told so @ fresh_signals (map fst (told so)) gs"
    using assms
  proof (induction gs arbitrary: so)
    case (Cons g gs)
    then show ?case
      using Cons.IH [OF receive_one_inbound(1) [OF Cons.prems]] receive_one_inbound(2) [OF Cons.prems, of g]
        fresh_signals_append [of "map fst (told so)" "[g]" gs] by simp
  qed simp
  then show "inbound_ok (receive gs so)" "told (receive gs so) = told so @ fresh_signals (map fst (told so)) gs"
    by (simp_all add: receive_def Let_def inbound_ok_ackTimer)
qed

lemma fail_inbound:
  assumes "inbound_ok so"
  shows "inbound_ok (socket_fail so)" "told (socket_fail so) = told so"
  using assms by (auto simp: inbound_ok_def socket_fail_def stopTimers_def)

lemma step_inbound:
  assumes "inbound_ok so"
  shows "inbound_ok (socket_step e so)"
    "told (socket_step e so) = told so @ fresh_signals (map fst (told so)) (case e of
       Updated (Inbox_signals gs) \<Rightarrow> if so_subscribed so then gs else [] | _ \<Rightarrow> [])"
proof -
  have "inbound_ok (socket_step e so) \<and>
    told (socket_step e so) = told so @ fresh_signals (map fst (told so)) (case e of
       Updated (Inbox_signals gs) \<Rightarrow> if so_subscribed so then gs else [] | _ \<Rightarrow> [])"
  proof (cases "(\<exists>r. e = Updated r) \<or> e = Send_failed")
    case True
    then show ?thesis
      using assms receive_inbound [OF assms] fail_inbound [OF assms]
      by (auto simp: deliver_def split: inbox_result.split)
  next
    case False
    then show ?thesis using assms
      by (cases e)
        (auto simp: inbound_ok_def socket_send_def socket_post_def flushIce_eq socket_close_def flushAcks_def
          stopTimers_def beat_def open_socket_def Let_def)
  qed
  then show "inbound_ok (socket_step e so)"
    "told (socket_step e so) = told so @ fresh_signals (map fst (told so)) (case e of
       Updated (Inbox_signals gs) \<Rightarrow> if so_subscribed so then gs else [] | _ \<Rightarrow> [])"
    by simp_all
qed

lemma run_inbound:
  assumes "inbound_ok so"
  shows "inbound_ok (fold socket_step es so) \<and>
    told (fold socket_step es so) = told so @ fresh_signals (map fst (told so)) (shown es so)"
  using assms
proof (induction es arbitrary: so)
  case (Cons e es)
  show ?case
    using Cons.IH [OF step_inbound(1) [OF Cons.prems]] step_inbound(2) [OF Cons.prems, of e]
    by (simp add: fresh_signals_append)
qed simp


section \<open>A socket that fails while it is being built\<close>

text \<open>
  The constructor delivers a first result before the call manager has attached its handlers.  When the
  query throws there, the socket closes without telling anyone, and the heartbeat armed afterwards is
  never stopped, not even by \<open>close\<close>; signals it already knows are dropped and still acknowledged.
\<close>

lemma failed_constructor_keeps_beating:
  "let so = socket_run Inbox_throws [Attach, Close, Heartbeat_timer] in
     so_readyState so = Sock_CLOSED \<and> so_heartbeat so \<and> so_log so = [Ran_heartbeat, Ran_heartbeat]"
  by (simp add: socket_run_def new_socket_def deliver_def fresh_socket_def beat_def socket_fail_def stopTimers_def
      call_back_def note_effect_def socket_close_def)

lemma early_signals_are_dropped:
  "let so = socket_run (Inbox_signals [(7, ''signal.offer'', ''{}'')]) [Attach, Ack_timer] in
     told so = [] \<and> acked so = [7]"
  by (simp add: socket_run_def new_socket_def deliver_def receive_def receive_one_def fresh_socket_def beat_def
      call_back_def note_effect_def flushAcks_def told_def acked_def)

end
