(* ===== verification/Signal_Path.thy ===== *)
theory Signal_Path
  imports Socket_Properties
begin

text \<open>
  From one browser to the other: the socket's batches become calls of \<open>signals.send\<close>, the
  mailbox's rows come back through \<open>signals.inbox\<close>, and the other socket hands them to its call
  manager.
\<close>

section \<open>The wire format\<close>

definition signalType :: "signal_type \<Rightarrow> string" where
  "signalType t = (case t of Signal_ready \<Rightarrow> ''signal.ready'' | Signal_offer \<Rightarrow> ''signal.offer''
     | Signal_answer \<Rightarrow> ''signal.answer'' | Signal_ice \<Rightarrow> ''signal.ice'')"

text \<open>The argument check of \<open>signals.send\<close>: a type the schema does not list is refused.\<close>

definition parse_signalType :: "string \<Rightarrow> signal_type option" where
  "parse_signalType x = List.find (\<lambda>t. signalType t = x) [Signal_ready, Signal_offer, Signal_answer, Signal_ice]"

lemma parse_signalType [simp]: "parse_signalType (signalType t) = Some t"
  by (cases t) (simp_all add: parse_signalType_def signalType_def)

definition on_wire :: "signal_type \<times> string \<Rightarrow> outgoing" where
  "on_wire = (\<lambda>(t, payload). (signalType t, payload))"

definition off_wire :: "outgoing \<Rightarrow> (signal_type \<times> string) option" where
  "off_wire = (\<lambda>(ty, payload). map_option (\<lambda>t. (t, payload)) (parse_signalType ty))"

lemma off_on_wire [simp]: "off_wire (on_wire g) = Some g"
  by (cases g) (simp add: off_wire_def on_wire_def)

text \<open>The inbox as the query returns it to the browser.\<close>

definition as_shown :: "(id \<times> signal_type \<times> string) list \<Rightarrow> (id \<times> string \<times> string) list" where
  "as_shown = map (\<lambda>(i, g). (i, on_wire g))"

text \<open>
  The chain \<open>sending\<close>: each posted batch is one mutation, the next runs when it has settled.  A refused
  batch ends the run here; the socket closes.
\<close>

fun send_batches :: "(string \<Rightarrow> bool) \<Rightarrow> id \<Rightarrow> (ctx \<times> outgoing list) list \<Rightarrow> db \<Rightarrow> (error_code + db) option" where
  "send_batches json_ok i [] s = Some (Inr s)"
| "send_batches json_ok i ((ctx, b) # rest) s = (case those (map off_wire b) of
     None \<Rightarrow> None
   | Some gs \<Rightarrow> (case signals_send json_ok ctx i gs s of
       Inl e \<Rightarrow> Some (Inl e) | Inr s' \<Rightarrow> send_batches json_ok i rest s'))"

section \<open>Sending what is allowed\<close>

definition sendable :: "(string \<Rightarrow> bool) \<Rightarrow> call_role \<Rightarrow> signal_type \<times> string \<Rightarrow> bool" where
  "sendable json_ok role = (\<lambda>(t, payload). t \<in> set (ALLOWED role) \<and> t \<noteq> Signal_ready \<and>
     utf8_length payload \<le> MAX_PAYLOAD_BYTES \<and> json_ok payload)"

lemma sendEach_sendable:
  assumes "list_all (sendable json_ok role) gs"
  shows "sendEach json_ok ctx i role gs pending s = Inr (with_signals ctx i (other role) gs s)"
  using assms
  by (induction json_ok ctx i role gs pending s rule: sendEach.induct)
    (auto simp: sendable_def with_signals_Cons)

lemma those_on_wire [simp]: "those (map (off_wire \<circ> on_wire) gs) = Some gs"
  by (induction gs) auto

lemma signals_send_sendable:
  assumes "callForParticipant ctx i s = Inr (call, role)" "c_status call \<in> set CONNECTABLE_STATUSES"
    and "list_all (sendable json_ok role) gs" "1 \<le> length gs" "length gs \<le> MAX_BATCH"
  shows "signals_send json_ok ctx i gs s = Inr (with_signals ctx i (other role) gs s)"
  using assms by (cases gs) (simp_all add: signals_send_def sendEach_sendable)

lemma send_batches_arrive:
  assumes "list_all (\<lambda>(c, b). callForParticipant c i s = Inr (call, role) \<and> b \<noteq> [] \<and> length b \<le> MAX_BATCH \<and>
      list_all (sendable json_ok role) b) bs"
    and "c_status call \<in> set CONNECTABLE_STATUSES"
    and "sorted (map (\<lambda>(c, b). now c) bs)"
    and "\<forall>g\<in>set (callSignals s). sg_callId g = i \<longrightarrow> (\<forall>(c, b)\<in>set bs. ctime g \<le> now c)"
    and "wf_db s"
  shows "\<exists>s' new. send_batches json_ok i (map (\<lambda>(c, b). (c, map on_wire b)) bs) s = Some (Inr s') \<and>
    calls s' = calls s \<and> wf_db s' \<and>
    inbox_of s' i (other role) = inbox_of s i (other role) @ new \<and> map snd new = concat (map snd bs)"
  using assms
proof (induction bs arbitrary: s)
  case (Cons cb bs)
  obtain c b where cb: "cb = (c, b)" by (cases cb)
  let ?s = "with_signals c i (other role) b s"
  have send: "signals_send json_ok c i b s = Inr ?s"
    using Cons.prems(1,2) by (intro signals_send_sendable) (auto simp: cb Suc_le_eq)
  have calls: "calls ?s = calls s" by (simp add: with_signals_def)
  have wf: "wf_db ?s"
    using wf_signal_ops(1) [of s json_ok c i b] Cons.prems(5) send by (simp add: sat_def ensuresDb_def)
  have now: "\<forall>g\<in>set (callSignals s). sg_callId g = i \<longrightarrow> ctime g \<le> now c"
    using Cons.prems(4) by (auto simp: cb)
  note sent = inbox_with_signals(1) [OF now, where to = "other role" and gs = b]
  have "\<exists>s' new. send_batches json_ok i (map (\<lambda>(c, b). (c, map on_wire b)) bs) ?s = Some (Inr s') \<and>
    calls s' = calls ?s \<and> wf_db s' \<and>
    inbox_of s' i (other role) = inbox_of ?s i (other role) @ new \<and> map snd new = concat (map snd bs)"
  proof (rule Cons.IH)
    show "list_all (\<lambda>(c, b). callForParticipant c i ?s = Inr (call, role) \<and> b \<noteq> [] \<and> length b \<le> MAX_BATCH \<and>
      list_all (sendable json_ok role) b) bs"
      using Cons.prems(1) callForParticipant_calls [OF calls] by (auto simp: list_all_iff)
    show "\<forall>g\<in>set (callSignals ?s). sg_callId g = i \<longrightarrow> (\<forall>(c, b)\<in>set bs. ctime g \<le> now c)"
    proof (intro ballI impI)
      fix g x assume g: "g \<in> set (callSignals ?s)" "sg_callId g = i" and x: "x \<in> set bs"
      obtain c' b' where x': "x = (c', b')" by (cases x)
      have later: "now c \<le> now c'" using Cons.prems(3) x by (auto simp: cb x')
      have "g \<in> set (callSignals s) \<or> ctime g = now c"
        using g(1) by (auto simp: with_signals_def signal_row_def)
      then show "case x of (c, b) \<Rightarrow> ctime g \<le> now c"
        using Cons.prems(4) g(2) x x' later by auto
    qed
    show "sorted (map (\<lambda>(c, b). now c) bs)" using Cons.prems(3) by (simp add: cb)
  qed (use Cons.prems(2) wf in simp_all)
  then obtain s' new where s': "send_batches json_ok i (map (\<lambda>(c, b). (c, map on_wire b)) bs) ?s = Some (Inr s')"
    "calls s' = calls ?s" "wf_db s'" "inbox_of s' i (other role) = inbox_of ?s i (other role) @ new"
    "map snd new = concat (map snd bs)" by blast
  have "send_batches json_ok i (map (\<lambda>(c, b). (c, map on_wire b)) (cb # bs)) s = Some (Inr s')"
    by (simp add: cb send s'(1))
  moreover have "inbox_of s' i (other role) = inbox_of s i (other role) @ (enumerate (nextId s) b @ new)"
    by (simp only: s'(4) sent append_assoc)
  moreover have "map snd (enumerate (nextId s) b @ new) = concat (map snd (cb # bs))"
    by (simp add: cb s'(5))
  ultimately show ?case using s'(2,3) calls by metis
qed auto

lemma concat_eq_map: "concat xss = map f ys \<Longrightarrow> \<exists>bs. map (map f) bs = xss \<and> concat bs = ys"
proof (induction xss arbitrary: ys)
  case (Cons xs xss)
  then obtain us vs where "ys = us @ vs" "map f us = xs" "concat xss = map f vs"
    by (auto simp: append_eq_map_conv)
  moreover from Cons.IH [OF this(3)] obtain bs where "map (map f) bs = xss" "concat bs = vs" by blast
  ultimately show ?case by (intro exI [of _ "us # bs"]) auto
qed auto

section \<open>The receiving browser\<close>

lemma fresh_signals_distinct:
  "distinct (map fst gs) \<Longrightarrow> set ids \<inter> fst ` set gs = {} \<Longrightarrow> fresh_signals ids gs = gs"
  by (induction ids gs rule: fresh_signals.induct) auto

lemma fst_as_shown [simp]: "map fst (as_shown gs) = map fst gs"
  by (simp add: as_shown_def comp_def case_prod_beta)

lemma told_shown:
  "distinct (map fst gs) \<Longrightarrow> told (socket_run Inbox_undefined [Attach, Updated (Inbox_signals (as_shown gs))]) = as_shown gs"
proof -
  assume gs: "distinct (map fst gs)"
  let ?start = "socket_step Attach (new_socket Inbox_undefined)"
  have "inbound_ok ?start" "told ?start = []" "so_subscribed ?start"
    by (simp_all add: inbound_ok_def new_socket_def deliver_def fresh_socket_def beat_def told_def acked_def note_effect_def)
  then have "told (socket_step (Updated (Inbox_signals (as_shown gs))) ?start) = fresh_signals [] (as_shown gs)"
    using step_inbound(2) by (simp del: socket_step.simps)
  also have "\<dots> = as_shown gs"
    by (rule fresh_signals_distinct) (simp_all only: fst_as_shown gs list.set Int_empty_left)
  finally show ?thesis by (simp add: socket_run_def)
qed


text \<open>The creator of the demo's call gathers candidates before and after the offer.\<close>

definition demo_events :: "socket_event list" where
  "demo_events = [Attach, Open_timer, Send ''signal.ice'' ''a'', Send ''signal.offer'' ''o'', Send ''signal.ice'' ''b'',
     Send ''signal.ice'' ''c'', Ice_timer]"


end
