(* ===== verification/Tier_Form_Properties.thy ===== *)
theory Tier_Form_Properties
  imports Tier_Form Signal_Path
begin

text \<open>
  The tier form and the server agree: the numbers the form shows read back as the numbers stored,
  what the form lets through is within the server's bounds, and a saved configuration shown again
  and submitted unchanged is the same configuration.
\<close>

section \<open>Decimals read back\<close>

lemma is_digit_char [simp]: "is_digit (digit_char n)"
  by (simp add: is_digit_def digit_char_def Let_def)

lemma digit_value_char [simp]: "digit_value (digit_char n) = n mod 10"
  by (simp add: digit_value_def digit_char_def)

lemma point_not_digit [simp]: "\<not> is_digit CHR ''.''"
  by (simp add: is_digit_def)

lemma decimal_digits: "list_all is_digit (decimal n)"
proof (induction n rule: decimal.induct)
  case (1 n)
  then show ?case by (cases "n < 10") (simp_all add: decimal.simps [of n])
qed

lemma decimal_not_Nil [simp]: "decimal n \<noteq> []"
  by (simp add: decimal.simps [of n])

lemma read_digits_append_char [simp]: "read_digits (cs @ [c]) = 10 * read_digits cs + digit_value c"
  by (simp add: read_digits_def)

lemma read_digits_Nil [simp]: "read_digits [] = 0"
  by (simp add: read_digits_def)

lemma read_decimal [simp]: "read_digits (decimal n) = n"
proof (induction n rule: decimal.induct)
  case (1 n)
  then show ?case
    by (cases "n < 10") (simp_all add: decimal.simps [of n] read_digits_def)
qed

lemma dropWhile_digits: "list_all is_digit cs \<Longrightarrow> dropWhile is_digit (cs @ ds) = dropWhile is_digit ds"
  by (induction cs) auto

lemma takeWhile_digits: "list_all is_digit cs \<Longrightarrow> takeWhile is_digit (cs @ ds) = cs @ takeWhile is_digit ds"
  by (induction cs) auto

lemma parts_whole [simp]: "decimal_parts (decimal n) = Some (decimal n, [])"
proof -
  have "dropWhile is_digit (decimal n) = []" using dropWhile_digits [OF decimal_digits, of n "[]"] by simp
  then show ?thesis unfolding decimal_parts_def by (simp only: list.case)
qed

lemma parts_fraction [simp]:
  "list_all is_digit fs \<Longrightarrow> length fs \<le> 2 \<Longrightarrow> decimal_parts (decimal n @ CHR ''.'' # fs) = Some (decimal n, fs)"
  by (simp add: decimal_parts_def dropWhile_digits [OF decimal_digits] takeWhile_digits [OF decimal_digits])

lemma decimal_not_point [simp]: "decimal n \<noteq> ''.''" "decimal n @ CHR ''.'' # fs \<noteq> ''.''"
proof -
  have "hd (decimal n) \<noteq> CHR ''.''"
    using decimal_digits [of n] by (cases "decimal n") auto
  then show "decimal n \<noteq> ''.''" "decimal n @ CHR ''.'' # fs \<noteq> ''.''"
    by (cases "decimal n"; auto)+
qed

lemma hundredths: "(of_nat (h div 100) :: rat) + of_nat (h mod 100) / 100 = of_nat h / 100"
proof -
  have "(of_nat h :: rat) = of_nat (100 * (h div 100) + h mod 100)" by simp
  then show ?thesis by (simp only: of_nat_add of_nat_mult) (simp add: add_divide_distrib)
qed

lemma two_digits: "10 * (h div 10 mod 10) + h mod 10 = h mod 100" for h :: nat
  using mod_mult2_eq [of h 10 10] by simp

lemma js_number_fixed2 [simp]: "js_number (fixed2 h) = Some (of_nat h / 100)"
proof -
  have "read_digits [digit_char (h div 10), digit_char h] = h mod 100"
    using two_digits [of h] by (simp add: read_digits_def)
  then show ?thesis
    by (simp add: js_number_def fixed2_def hundredths)
qed

lemma js_number_shortest2 [simp]: "js_number (shortest2 h) = Some (of_nat h / 100)"
proof -
  have frac: "read_digits [digit_char (h div 10), digit_char h] = h mod 100" "read_digits [digit_char (h div 10)] = h div 10 mod 10"
    using two_digits [of h] by (simp_all add: read_digits_def)
  consider "h mod 100 = 0" | "h mod 100 \<noteq> 0" "h mod 10 = 0" | "h mod 100 \<noteq> 0" "h mod 10 \<noteq> 0" by blast
  then show ?thesis
  proof cases
    case 1
    then show ?thesis using hundredths [of h] by (simp add: js_number_def shortest2_def)
  next
    case 2
    then have "(of_nat (h mod 100) :: rat) = 10 * of_nat (h div 10 mod 10)"
      using two_digits [of h] by (metis add.right_neutral of_nat_mult of_nat_numeral)
    then show ?thesis using 2 frac hundredths [of h] by (simp add: js_number_def shortest2_def)
  next
    case 3
    then show ?thesis using frac hundredths [of h] by (simp add: js_number_def shortest2_def)
  qed
qed

lemma math_round_int [simp]: "math_round (of_int n) = n"
  unfolding math_round_def by (intro floor_unique) simp_all

lemma math_round_numeral [simp]: "math_round (numeral k) = numeral k"
  using math_round_int [of "numeral k"] by simp

lemma cents_of_price: "0 \<le> c \<Longrightarrow> c \<le> 1000000 \<Longrightarrow> centsFromPriceInput (priceInputFromCents c) = Some c"
proof -
  assume c: "0 \<le> c" "c \<le> 1000000"
  have "decimal_parts (fixed2 (nat c)) \<noteq> None" "fixed2 (nat c) \<noteq> []" "fixed2 (nat c) \<noteq> ''.''"
    by (simp_all add: fixed2_def)
  moreover have "(of_nat (nat c) / 100 :: rat) * 100 = of_int c" "(of_nat (nat c) / 100 :: rat) \<le> 10000"
    using c by simp_all
  ultimately show ?thesis
    by (simp add: centsFromPriceInput_def priceInputFromCents_def)
qed

text \<open>Two places of minutes are enough for a whole number of seconds.\<close>

lemma seconds_of_duration:
  assumes "0 \<le> d"
  obtains m where "js_number (durationInputFromSeconds d) = Some m" "math_round (m * 60) = d"
    "30 \<le> d \<Longrightarrow> 1/2 \<le> m" "d \<le> 3600 \<Longrightarrow> m \<le> 60"
proof -
  let ?h = "round_div (d * 100) 60"
  have h: "0 \<le> ?h" "?h * 60 \<le> d * 100 + 30" "d * 100 - 30 < ?h * 60"
    using assms by (simp_all add: round_div_def)
  let ?m = "of_nat (nat ?h) / 100 :: rat"
  have m: "?m = of_int ?h / 100" using h(1) by simp
  have "of_int (d * 100 - 30) < (of_int (?h * 60) :: rat)" "(of_int (?h * 60) :: rat) \<le> of_int (d * 100 + 30)"
    using h(2,3) by (simp_all only: of_int_less_iff of_int_le_iff)
  then have close: "of_int d - 1/2 < ?m * 60" "?m * 60 < of_int d + 1/2"
    unfolding m by simp_all
  show ?thesis
  proof (rule that [of ?m])
    show "js_number (durationInputFromSeconds d) = Some ?m" by (simp add: durationInputFromSeconds_def)
    show "math_round (?m * 60) = d"
      using close unfolding math_round_def by (intro floor_unique) simp_all
    show "1/2 \<le> ?m" if "30 \<le> d"
      using that h(3) unfolding m by (simp add: round_div_def)
    show "?m \<le> 60" if "d \<le> 3600"
      using that h(2) unfolding m by (simp add: round_div_def)
  qed
qed

section \<open>What the server makes of a configuration\<close>

lemma normalizeTiers_Inr:
  "normalizeTiers i n k seen ts = Inr rows \<longleftrightarrow>
     rows = map (\<lambda>(j, t). tierRow i n j t) (enumerate k ts) \<and> (\<forall>t\<in>set ts. validTier t) \<and>
     distinct (map (toLowerCase \<circ> trim \<circ> tin_name) ts) \<and> (\<forall>t\<in>set ts. toLowerCase (trim (tin_name t)) \<notin> set seen)"
  by (induction i n k seen ts arbitrary: rows rule: normalizeTiers.induct)
    (auto simp: Let_def image_iff split: if_splits)

lemma normalizeTiers_Inl: "normalizeTiers i n k seen ts = Inl e \<Longrightarrow> e = INVALID_TIER_CONFIGURATION"
  by (induction i n k seen ts rule: normalizeTiers.induct) (auto simp: Let_def bindE_eq_Inl split: if_splits)

lemma fold_insertTier_rows:
  "showTiers (fold (insertTier c) rows s) =
     showTiers s @ map (\<lambda>(k, r). r\<lparr>did := k, ctime := now c\<rparr>) (enumerate (nextId s) rows)"
  by (induction rows arbitrary: s) (auto simp: insertTier_def db_insert_def)

lemma insort_key_last: "\<forall>y\<in>set ys. f y < f x \<Longrightarrow> insort_key f x ys = ys @ [x]"
  for f :: "'a \<Rightarrow> 'k::linorder"
  by (induction ys) auto

lemma sort_key_decreasing: "sorted_wrt (\<lambda>x y. f y < f x) xs \<Longrightarrow> sort_key f xs = rev xs"
  for f :: "'a \<Rightarrow> 'k::linorder"
  by (induction xs) (auto simp: insort_key_last)

definition saved_row :: "ctx \<Rightarrow> id \<Rightarrow> nat \<Rightarrow> nat \<times> nat \<times> tier_input \<Rightarrow> tier_doc" where
  "saved_row c i n = (\<lambda>(k, j, t). (tierRow i n j t)\<lparr>did := k, ctime := now c\<rparr>)"

lemma saved_row_fields [simp]:
  "ti_showId (saved_row c i n (k, j, t)) = i" "ti_priorityRank (saved_row c i n (k, j, t)) = (int n - int j) * 100"
  by (simp_all add: saved_row_def tierRow_def)

lemma map_saved_row:
  "map (\<lambda>(k, r). r\<lparr>did := k, ctime := now c\<rparr>) (enumerate m (map (\<lambda>(j, t). tierRow i n j t) xs)) =
     map (saved_row c i n) (enumerate m xs)"
  by (induction xs arbitrary: m) (auto simp: saved_row_def)

lemma saved_rows_decreasing:
  "sorted_wrt (\<lambda>x y. ti_priorityRank y < ti_priorityRank x) (map (saved_row c i n) (enumerate m (enumerate k ts)))"
proof (induction ts arbitrary: m k)
  case (Cons t ts)
  have "k < j" if "(l, j, u) \<in> set (enumerate (Suc m) (enumerate (Suc k) ts))" for l j u
    using that by (auto simp: in_set_enumerate_eq nth_enumerate_eq)
  then show ?case using Cons.IH by fastforce
qed simp

lemma tiers_replace_Inr:
  assumes "tiers_replace c i ts s = Inr (rows, s')"
  shows "\<exists>norm. normalizeTiers i (length ts) 0 [] ts = Inr norm \<and> list_ex ti_enabled norm \<and> 1 \<le> length ts \<and>
    length ts \<le> MAX_TIERS \<and> rows = tiersOf s' i \<and>
    s' = fold (insertTier c) norm (fold deleteTier (query_asc (\<lambda>t. ti_showId t = i) ti_priorityRank (showTiers s)) s)"
proof -
  let ?done = "\<lambda>norm. fold (insertTier c) norm
    (fold deleteTier (query_asc (\<lambda>t. ti_showId t = i) ti_priorityRank (showTiers s)) s)"
  let ?rest = "bindE (normalizeTiers i (length ts) 0 [] ts) (\<lambda>rows.
    if \<not> list_ex ti_enabled rows then Inl INVALID_TIER_CONFIGURATION else Inr (tiersOf (?done rows) i, ?done rows))"
  obtain sh :: show_doc where sh: "(if sh_status sh \<noteq> Show_CREATED then Inl SHOW_NOT_CONFIGURABLE
       else if length ts < 1 \<or> length ts > MAX_TIERS then Inl INVALID_TIER_CONFIGURATION else ?rest) = Inr (rows, s')"
    using assms unfolding tiers_replace_def Let_def bindE_eq_Inr by (elim exE conjE) (rule that)
  have created: "sh_status sh = Show_CREATED" by (rule ccontr) (use sh in simp)
  have len: "\<not> (length ts < 1 \<or> length ts > MAX_TIERS)"
  proof
    assume "length ts < 1 \<or> length ts > MAX_TIERS"
    then show False using sh unfolding created by (simp only: simp_thms if_True if_False sum.distinct)
  qed
  then have "?rest = Inr (rows, s')" using sh unfolding created by (simp only: simp_thms if_False)
  then obtain norm where norm: "normalizeTiers i (length ts) 0 [] ts = Inr norm"
    "(if \<not> list_ex ti_enabled norm then Inl INVALID_TIER_CONFIGURATION else Inr (tiersOf (?done norm) i, ?done norm)) = Inr (rows, s')"
    unfolding bindE_eq_Inr by (elim exE conjE) (rule that)
  then show ?thesis using len by (cases "list_ex ti_enabled norm") (auto simp: not_less Suc_le_eq)
qed

lemma tiers_replace_rows:
  assumes "tiers_replace c i ts s = Inr (rows, s')"
  obtains m where "rows = map (saved_row c i (length ts)) (enumerate m (enumerate 0 ts))" "rows = tiersOf s' i"
    "\<forall>t\<in>set ts. validTier t" "list_ex tin_enabled ts" "1 \<le> length ts" "length ts \<le> MAX_TIERS"
proof -
  obtain norm where norm: "normalizeTiers i (length ts) 0 [] ts = Inr norm" and en: "list_ex ti_enabled norm"
    and len: "1 \<le> length ts" "length ts \<le> MAX_TIERS" and rows: "rows = tiersOf s' i"
    and s': "s' = fold (insertTier c) norm (fold deleteTier (query_asc (\<lambda>t. ti_showId t = i) ti_priorityRank (showTiers s)) s)"
    using tiers_replace_Inr [OF assms] by blast
  define s1 where "s1 = fold deleteTier (query_asc (\<lambda>t. ti_showId t = i) ti_priorityRank (showTiers s)) s"
  let ?rows = "map (saved_row c i (length ts)) (enumerate (nextId s1) (enumerate 0 ts))"
  have norm': "norm = map (\<lambda>(j, t). tierRow i (length ts) j t) (enumerate 0 ts)" "\<forall>t\<in>set ts. validTier t"
    using norm by (auto simp: normalizeTiers_Inr)
  have gone: "filter (\<lambda>t. ti_showId t = i) (showTiers s1) = []"
    by (auto simp: s1_def fold_deleteTier filter_empty_conv)
  have "map (\<lambda>(k, r). r\<lparr>did := k, ctime := now c\<rparr>) (enumerate (nextId s1) norm) = ?rows"
    unfolding norm'(1) by (rule map_saved_row)
  then have "showTiers s' = showTiers s1 @ ?rows"
    by (simp add: s' fold_insertTier_rows flip: s1_def)
  moreover have "filter (\<lambda>t. ti_showId t = i) ?rows = ?rows"
    by (rule filter_True) auto
  moreover have "sort_key ti_priorityRank ?rows = rev ?rows"
    by (rule sort_key_decreasing [OF saved_rows_decreasing])
  ultimately have "rows = ?rows"
    by (simp add: rows tiersOf_def query_desc_def query_asc_def gone del: rev_map)
  moreover have "list_ex tin_enabled ts"
    using en by (force simp: norm'(1) list_ex_iff tierRow_def in_set_enumerate_eq)
  ultimately show ?thesis using that rows norm'(2) len by blast
qed

section \<open>The round trip of a saved configuration\<close>

definition trimmed :: "tier_input \<Rightarrow> tier_input" where
  "trimmed t = t\<lparr>tin_name := trim (tin_name t)\<rparr>"

lemma isInteger_floor: "isInteger x \<Longrightarrow> of_int (floor x) = x"
proof -
  assume "isInteger x"
  then obtain a where "quotient_of x = (a, 1)" by (cases "quotient_of x") (auto simp: isInteger_def)
  then have "x = of_int a" using quotient_of_div by fastforce
  then show ?thesis by simp
qed

lemma isInteger_of_int [simp]: "isInteger (of_int n)"
  by (simp add: isInteger_def)

lemma isInteger_0 [simp]: "isInteger 0"
  using isInteger_of_int [of 0] by simp

lemma row_survives_the_form:
  assumes "validTier t"
  shows "tierSchema (tierValuesFromServer (saved_row c i n (k, j, t))) = Some (tierValuesFromServer (saved_row c i n (k, j, t)))"
    "tierInputFromValues (tierValuesFromServer (saved_row c i n (k, j, t))) = trimmed t"
proof -
  obtain d p where dp: "floor (tin_callDurationSeconds t) = d" "floor (tin_priceCents t) = p" by blast
  have t: "1 \<le> length (trim (tin_name t))" "length (trim (tin_name t)) \<le> 40"
    "isInteger (tin_callDurationSeconds t)" "isInteger (tin_priceCents t)"
    using assms by (simp_all add: validTier_def Let_def)
  have bounds: "30 \<le> d" "d \<le> 3600" "p = 0 \<or> 50 \<le> p \<and> p \<le> 1000000"
    using validTier_row [OF assms] by (simp_all add: tier_ok_def tierRow_def dp)
  have exact: "of_int d = tin_callDurationSeconds t" "of_int p = tin_priceCents t"
    using isInteger_floor t(3,4) by (simp_all add: dp [symmetric])
  obtain m where m: "js_number (durationInputFromSeconds d) = Some m" "math_round (m * 60) = d" "1/2 \<le> m" "m \<le> 60"
    using seconds_of_duration [of d] bounds(1,2) by auto
  have nonempty: "durationInputFromSeconds d \<noteq> []"
    by (simp add: durationInputFromSeconds_def shortest2_def)
  have price: "p > 0 \<Longrightarrow> centsFromPriceInput (priceInputFromCents p) = Some p"
    using bounds(3) by (intro cents_of_price) auto
  show "tierSchema (tierValuesFromServer (saved_row c i n (k, j, t))) = Some (tierValuesFromServer (saved_row c i n (k, j, t)))"
    using t(1,2) bounds(3) m nonempty price
    by (auto simp: tierSchema_def Let_def tierValuesFromServer_def saved_row_def tierRow_def nameField_def
        durationField_def priceRefinement_def MINIMUM_PAID_TIER_CENTS_def dp)
  show "tierInputFromValues (tierValuesFromServer (saved_row c i n (k, j, t))) = trimmed t"
    using bounds(3) m price exact
    by (auto simp: tierInputFromValues_def tierValuesFromServer_def saved_row_def tierRow_def trimmed_def dp)
qed

lemma those_map_same: "\<forall>x\<in>set xs. f x = Some x \<Longrightarrow> those (map f xs) = Some xs"
  by (induction xs) auto

lemma map_saved_rows_form:
  assumes "\<forall>t\<in>set ts. validTier t"
  shows "those (map (tierSchema \<circ> (tierValuesFromServer \<circ> saved_row c i n)) (enumerate m (enumerate l ts))) =
      Some (map (tierValuesFromServer \<circ> saved_row c i n) (enumerate m (enumerate l ts)))"
    "map (tierInputFromValues \<circ> (tierValuesFromServer \<circ> saved_row c i n)) (enumerate m (enumerate l ts)) = map trimmed ts"
  using assms by (induction ts arbitrary: m l) (simp_all add: row_survives_the_form)

text \<open>
  C32. A saved tier configuration survives the form.  What \<open>tiers.replace\<close> returns is the show's tiers as a
  later read finds them, in the order given; and when the studio's form is filled from them and submitted
  untouched, its schema lets it through and it sends exactly the configuration that was saved, names trimmed, every
  second and every cent of it.
\<close>

theorem saved_tiers_survive_the_form:
  assumes "tiers_replace c i ts s = Inr (rows, s')"
  shows "rows = tiersOf s' i \<and> submittedTiers (map tierValuesFromServer rows) = Some (map trimmed ts)"
proof -
  obtain m where rows: "rows = map (saved_row c i (length ts)) (enumerate m (enumerate 0 ts))" "rows = tiersOf s' i"
    and valid: "\<forall>t\<in>set ts. validTier t" and len: "1 \<le> length ts" "length ts \<le> MAX_TIERS"
    using tiers_replace_rows [OF assms] by blast
  have "submittedTiers (map tierValuesFromServer rows) = Some (map trimmed ts)"
    using len map_saved_rows_form [OF valid]
    by (simp add: rows(1) submittedTiers_def tierConfigSchema_def FORM_MAX_TIERS_def MAX_TIERS_def flip: length_greater_0_conv)
  then show ?thesis using rows(2) by simp
qed

theorem saved_tiers_survive_witness:
  "\<exists>rows. map ti_name rows = [''VIP'', ''Standard''] \<and> map ti_callDurationSeconds rows = [60, 300] \<and>
    submittedTiers (map tierValuesFromServer rows) = Some demo_tiers"
proof -
  have "case tiers_replace (by_user (Some 0) 2000) 5 demo_tiers (demo_at 5) of
      Inr (rows, s') \<Rightarrow> map ti_name rows = [''VIP'', ''Standard''] \<and> map ti_callDurationSeconds rows = [60, 300] | Inl _ \<Rightarrow> False"
    by code_simp
  then obtain rows s' where "tiers_replace (by_user (Some 0) 2000) 5 demo_tiers (demo_at 5) = Inr (rows, s')"
    "map ti_name rows = [''VIP'', ''Standard'']" "map ti_callDurationSeconds rows = [60, 300]"
    by (auto split: sum.splits)
  moreover have "map trimmed demo_tiers = demo_tiers"
    by (simp add: demo_tiers_def trimmed_def trim_def js_space_def)
  ultimately show ?thesis
    using saved_tiers_survive_the_form [of "by_user (Some 0) 2000" 5 demo_tiers "demo_at 5" rows s']
    by metis
qed

section \<open>What the form lets through\<close>

lemma math_round_mono: "x \<le> y \<Longrightarrow> math_round x \<le> math_round y"
  unfolding math_round_def by (intro floor_mono) simp

lemma cents_bound: "centsFromPriceInput v = Some c \<Longrightarrow> c \<le> 1000000"
proof -
  assume c: "centsFromPriceInput v = Some c"
  have "math_round (x * 100) \<le> 1000000" if "x \<le> 10000" for x :: rat
    using math_round_mono [of "x * 100" 1000000] that by simp
  then show ?thesis using c by (auto simp: centsFromPriceInput_def split: if_splits option.splits)
qed

lemma form_tier_valid:
  assumes "tierSchema v = Some w"
  shows "validTier (tierInputFromValues w)" "trim (tin_name (tierInputFromValues w)) = tin_name (tierInputFromValues w)"
proof -
  have w: "w = v\<lparr>tv_name := trim (tv_name v)\<rparr>" and ok: "nameField (tv_name w)" "durationField (tv_duration w)" "priceRefinement w"
    using assms by (auto simp: tierSchema_def Let_def split: if_splits)
  obtain m where m: "js_number (tv_duration w) = Some m" "1/2 \<le> m" "m \<le> 60"
    using ok(2) by (auto simp: durationField_def split: option.splits)
  have "math_round 30 \<le> math_round (m * 60)" "math_round (m * 60) \<le> math_round 3600"
    using m by (intro math_round_mono; simp)+
  then have d: "30 \<le> math_round (m * 60)" "math_round (m * 60) \<le> 3600" by simp_all
  have p: "\<not> tv_paid w \<or> (\<exists>c. centsFromPriceInput (tv_price w) = Some c \<and> 50 \<le> c \<and> c \<le> 1000000)"
    using ok(3) by (auto simp: priceRefinement_def MINIMUM_PAID_TIER_CENTS_def dest: cents_bound split: option.splits)
  show "trim (tin_name (tierInputFromValues w)) = tin_name (tierInputFromValues w)"
    by (simp add: w tierInputFromValues_def)
  then show "validTier (tierInputFromValues w)"
    using ok(1) m d p by (auto simp: validTier_def Let_def tierInputFromValues_def nameField_def)
qed

lemma those_Some_iff: "those xs = Some ys \<longleftrightarrow> xs = map Some ys"
  by (induction xs arbitrary: ys) (auto split: option.splits)

lemma submitted_tiers_valid:
  assumes "submittedTiers vs = Some ts"
  shows "\<forall>t\<in>set ts. validTier t \<and> trim (tin_name t) = tin_name t" "1 \<le> length ts" "length ts \<le> MAX_TIERS"
proof -
  obtain ws where ws: "those (map tierSchema vs) = Some ws" "ts = map tierInputFromValues ws" "\<not> length vs < 1" "\<not> length vs > FORM_MAX_TIERS"
    using assms by (auto simp: submittedTiers_def tierConfigSchema_def split: if_splits)
  then have all: "map tierSchema vs = map Some ws" by (simp add: those_Some_iff)
  then have "length ws = length vs" by (metis length_map)
  then show "1 \<le> length ts" "length ts \<le> MAX_TIERS"
    using ws(2-4) by (simp_all add: FORM_MAX_TIERS_def MAX_TIERS_def Suc_le_eq)
  have "validTier t \<and> trim (tin_name t) = tin_name t" if t: "t \<in> set ts" for t
  proof -
    obtain w where w: "t = tierInputFromValues w" "w \<in> set ws" using t by (auto simp: ws(2))
    then have "Some w \<in> set (map tierSchema vs)" by (simp add: all)
    then obtain v where "tierSchema v = Some w" by auto
    then show ?thesis using form_tier_valid w(1) by simp
  qed
  then show "\<forall>t\<in>set ts. validTier t \<and> trim (tin_name t) = tin_name t" by blast
qed

text \<open>
  C34. What the server does with a configuration the form lets through.  It is within every bound the server
  checks one tier against, so for a show that can still be configured \<open>tiers.replace\<close> saves it exactly when
  no two names are equal up to case and some tier is enabled, two rules the form's schema does not check; otherwise
  it answers \<open>INVALID_TIER_CONFIGURATION\<close>.
\<close>

theorem form_configurations_meet_the_server:
  assumes "submittedTiers vs = Some ts" "requireCreatorId ctx s = Inr u" "showForCreator s i u = Inr sh"
    and "sh_status sh = Show_CREATED"
  shows "if distinct (map (toLowerCase \<circ> tin_name) ts) \<and> list_ex tin_enabled ts
    then \<exists>s'. tiers_replace ctx i ts s = Inr (tiersOf s' i, s') \<and> map ti_name (tiersOf s' i) = map tin_name ts
    else tiers_replace ctx i ts s = Inl INVALID_TIER_CONFIGURATION"
proof -
  note ts = submitted_tiers_valid [OF assms(1)]
  have keys: "map (toLowerCase \<circ> trim \<circ> tin_name) ts = map (toLowerCase \<circ> tin_name) ts"
    using ts(1) by simp
  have len: "\<not> (length ts < 1 \<or> length ts > MAX_TIERS)" using ts(2,3) by linarith
  let ?norm = "normalizeTiers i (length ts) 0 [] ts"
  have run: "tiers_replace ctx i ts s = bindE ?norm (\<lambda>rows. if \<not> list_ex ti_enabled rows then Inl INVALID_TIER_CONFIGURATION
      else (let s1 = fold deleteTier (query_asc (\<lambda>t. ti_showId t = i) ti_priorityRank (showTiers s)) s;
                s2 = fold (insertTier ctx) rows s1 in Inr (tiersOf s2 i, s2)))"
    unfolding tiers_replace_def assms(2,3) bindE_Inr assms(4) by (simp only: simp_thms if_False len Let_def)
  have enabled: "list_ex ti_enabled (map (\<lambda>(j, t). tierRow i n j t) (enumerate k ts)) = list_ex tin_enabled ts" for n k
    by (induction ts arbitrary: k) (auto simp: tierRow_def)
  show ?thesis
  proof (cases ?norm)
    case (Inl e)
    then have "\<not> distinct (map (toLowerCase \<circ> tin_name) ts)"
      using normalizeTiers_Inr [of i "length ts" 0 "[]" ts] ts(1) unfolding keys by auto
    then show ?thesis using Inl normalizeTiers_Inl [OF Inl] by (simp add: run)
  next
    case (Inr rows)
    then have rows: "rows = map (\<lambda>(j, t). tierRow i (length ts) j t) (enumerate 0 ts)" and dist: "distinct (map (toLowerCase \<circ> tin_name) ts)"
      using normalizeTiers_Inr [of i "length ts" 0 "[]" ts rows] unfolding keys by auto
    show ?thesis
    proof (cases "list_ex tin_enabled ts")
      case True
      then obtain s' where s': "tiers_replace ctx i ts s = Inr (tiersOf s' i, s')"
        using Inr by (simp add: run rows enabled Let_def)
      then obtain m where "tiersOf s' i = map (saved_row ctx i (length ts)) (enumerate m (enumerate 0 ts))"
        using tiers_replace_rows by metis
      moreover have "map (ti_name \<circ> saved_row ctx i n) (enumerate m (enumerate k xs)) = map tin_name xs"
        if "\<forall>t\<in>set xs. trim (tin_name t) = tin_name t" for n k xs and m :: nat
        using that by (induction xs arbitrary: m k) (auto simp: saved_row_def tierRow_def)
      ultimately show ?thesis using s' ts(1) dist True by auto
    next
      case False
      then show ?thesis using Inr by (simp add: run rows enabled)
    qed
  qed
qed

text \<open>Two tiers that differ only in case, and one tier alone.\<close>

definition demo_form :: "tier_values list" where
  "demo_form = [\<lparr>tv_name = '' VIP '', tv_duration = ''1.5'', tv_paid = True, tv_price = ''12.3'', tv_enabled = True\<rparr>,
     \<lparr>tv_name = ''vip'', tv_duration = ''.5'', tv_paid = False, tv_price = [], tv_enabled = True\<rparr>]"

theorem form_configurations_witness:
  "tiers_replace (by_user (Some 0) 2000) 5 (map tierInputFromValues (map (\<lambda>v. v\<lparr>tv_name := trim (tv_name v)\<rparr>) demo_form))
     (demo_at 5) = Inl INVALID_TIER_CONFIGURATION"
proof -
  have numbers: "js_number ''1.5'' = Some (3/2)" "js_number ''.5'' = Some (1/2)" "centsFromPriceInput ''12.3'' = Some 1230"
    by (simp_all add: js_number_def decimal_parts_def is_digit_def read_digits_def digit_value_def centsFromPriceInput_def)
  then have form: "submittedTiers demo_form =
      Some (map tierInputFromValues (map (\<lambda>v. v\<lparr>tv_name := trim (tv_name v)\<rparr>) demo_form))"
    by (simp add: submittedTiers_def tierConfigSchema_def demo_form_def FORM_MAX_TIERS_def tierSchema_def Let_def trim_def
        js_space_def nameField_def durationField_def priceRefinement_def MINIMUM_PAID_TIER_CENTS_def)
  have "case requireCreatorId (by_user (Some 0) 2000) (demo_at 5) of Inl _ \<Rightarrow> False
      | Inr u \<Rightarrow> (case showForCreator (demo_at 5) 5 u of Inl _ \<Rightarrow> False | Inr sh \<Rightarrow> sh_status sh = Show_CREATED)"
    by code_simp
  then obtain u sh where "requireCreatorId (by_user (Some 0) 2000) (demo_at 5) = Inr u"
    "showForCreator (demo_at 5) 5 u = Inr sh" "sh_status sh = Show_CREATED"
    by (auto split: sum.splits)
  note main = form_configurations_meet_the_server [OF form this]
  have "toLowerCase ''VIP'' = ''vip''" "toLowerCase ''vip'' = ''vip''" by code_simp+
  then have "\<not> distinct (map (toLowerCase \<circ> tin_name) (map tierInputFromValues (map (\<lambda>v. v\<lparr>tv_name := trim (tv_name v)\<rparr>) demo_form)))"
    by (simp add: demo_form_def tierInputFromValues_def trim_def js_space_def Let_def)
  then show ?thesis using main by (simp only: simp_thms if_False)
qed

section \<open>What the studio and the pricing page quote\<close>

lemma quoted_estimate:
  "estimatedCreatorEarningsCents price = max 0 ((price * 8000) div 10000 - ((price * 290 + 5000) div 10000 + 30) div 2)"
proof -
  have "(of_int price * (29/1000) + 1/2 :: rat) = of_int (price * 290 + 5000) / of_int 10000" by (simp add: field_simps)
  then have card: "math_round (of_int price * (29/1000)) = (price * 290 + 5000) div 10000"
    unfolding math_round_def by (simp only: floor_divide_of_int_eq)
  have "(of_int price * (8/10) :: rat) = of_int (price * 8000) / of_int 10000" by (simp add: field_simps)
  then have share: "floor (of_int price * (8/10 :: rat)) = (price * 8000) div 10000"
    by (simp only: floor_divide_of_int_eq)
  show ?thesis by (simp only: estimatedCreatorEarningsCents_def card share Let_def)
qed

text \<open>
  The figures Bling quotes are the figures it pays.  For every price and share, the take-home of the pricing
  page is the price less the platform fee that \<open>paymentFees\<close> charges at the complementary
  rate; and for every price a tier may have, the studio's estimate is that take-home at the standard share of 80 percent.
\<close>

theorem quoted_earnings_are_paid:
  assumes "50 \<le> price" "price \<le> 1000000"
  shows "creatorTakeHomeCents price share = price - fee_platformFeeCents (paymentFees price (10000 - 100 * share)) \<and>
    estimatedCreatorEarningsCents price = price - fee_platformFeeCents (paymentFees price STANDARD_PLATFORM_FEE_BPS)"
proof
  show "creatorTakeHomeCents price share = price - fee_platformFeeCents (paymentFees price (10000 - 100 * share))"
    by (simp add: creatorTakeHomeCents_def fee_defs mult.assoc mult.commute)
  have "0 < price - fee_platformFeeCents (paymentFees price STANDARD_PLATFORM_FEE_BPS)"
    using paymentFees_sound(2) [OF assms, of STANDARD_PLATFORM_FEE_BPS] by (simp add: STANDARD_PLATFORM_FEE_BPS_def)
  then show "estimatedCreatorEarningsCents price = price - fee_platformFeeCents (paymentFees price STANDARD_PLATFORM_FEE_BPS)"
    unfolding quoted_estimate by (simp add: fee_defs)
qed

theorem quoted_earnings_witness:
  "creatorTakeHomeCents 500 90 = 428 \<and> estimatedCreatorEarningsCents 500 = 378"
  using quoted_earnings_are_paid [of 500 90] by (simp add: fee_defs)

text \<open>
  Creators who join during the beta pay ten percent, so for them, and today everyone is one of them, the studio's estimate is
  too low at every price.
\<close>

lemma estimate_is_low_in_the_beta:
  assumes "50 \<le> price" "price \<le> 1000000"
  shows "estimatedCreatorEarningsCents price < price - fee_platformFeeCents (paymentFees price SIGNUP_PLATFORM_FEE_BPS)"
proof -
  have "(price * 8000 + 10000) div 10000 \<le> (price * 9000) div 10000"
    using assms(1) by (intro zdiv_mono1) simp_all
  then have "(price * 8000) div 10000 < (price * 9000) div 10000" by simp
  moreover have credited: "price - fee_platformFeeCents (paymentFees price SIGNUP_PLATFORM_FEE_BPS) =
      (price * 9000) div 10000 - ((price * 290 + 5000) div 10000 + 30) div 2"
    by (simp add: fee_defs SIGNUP_PLATFORM_FEE_BPS_def)
  moreover have "0 < price - fee_platformFeeCents (paymentFees price SIGNUP_PLATFORM_FEE_BPS)"
    using paymentFees_sound(2) [OF assms, of SIGNUP_PLATFORM_FEE_BPS]
    by (simp add: SIGNUP_PLATFORM_FEE_BPS_def BETA_PLATFORM_FEE_BPS_def STANDARD_PLATFORM_FEE_BPS_def)
  ultimately show ?thesis
    unfolding quoted_estimate credited max_less_iff_conj by linarith
qed

end
