(* ===== verification/Form_Properties.thy ===== *)
theory Form_Properties
  imports Forms Tier_Form_Properties
begin

text \<open>
  The forms mirror the server: what a form lets through is not turned down by the server's own
  validation.  A reset code is eight uniform digits which the reset form takes
  however it is spaced.
\<close>

section \<open>Forms and the server's validation\<close>

lemma joinQueue_validates:
  assumes "1 \<le> length (trim (ja_displayName a))" "length (trim (ja_displayName a)) \<le> 60"
    "1 \<le> length (trim (ja_topic a))" "length (trim (ja_topic a)) \<le> 280"
  shows "joinQueue c v a p s \<noteq> Inl VALIDATION_FAILED"
  using assms by (auto simp: joinQueue_def Let_def split: option.split prod.split)

lemma callerNotes_validates:
  assumes "length (trim n) \<le> 500"
  shows "callerNotes_save c i n s \<noteq> Inl VALIDATION_FAILED"
  using assms
  by (auto simp: callerNotes_save_def bindE_eq_Inl MAX_NOTE_LENGTH_def requireCreatorId_def requireUserId_def
      showForCreator_def split: option.splits if_splits)

lemma length_js_set: "length (js_set xs) \<le> length xs"
  using length_remdups_leq [of "rev xs"] by (simp add: js_set_def)



section \<open>Reset codes\<close>

definition code_of_word :: "32 word \<Rightarrow> char" where
  "code_of_word w = char_of (48 + unat (w mod 10))"

lemma randomDigits_eq:
  "randomDigits n ws = (let ok = filter (\<lambda>w. unat w < DIGIT_LIMIT) ws
     in if n \<le> length ok then Some (map code_of_word (take n ok)) else None)"
  by (induction n ws rule: randomDigits.induct) (auto simp: Let_def code_of_word_def)

lemma unat_mod_10: "unat (w mod 10) = unat w mod 10" for w :: "32 word"
  by (simp add: unat_mod)

lemma code_of_word_digit: "code_digit (code_of_word w)" "\<not> js_space (code_of_word w)"
proof -
  have "unat (w mod 10) < 10" by (simp add: unat_mod_10)
  then have "of_char (code_of_word w) = 48 + unat (w mod 10)"
    by (simp add: code_of_word_def)
  then show "code_digit (code_of_word w)" "\<not> js_space (code_of_word w)"
    using \<open>unat (w mod 10) < 10\<close> by (auto simp: code_digit_def js_space_def Let_def)
qed

lemma card_residue: "card {n. n < q * 10 \<and> n mod 10 = d} = q" if "d < 10" for q d :: nat
proof -
  have "{n. n < q * 10 \<and> n mod 10 = d} = (\<lambda>k. k * 10 + d) ` {..<q}"
  proof (intro set_eqI iffI)
    fix n assume "n \<in> {n. n < q * 10 \<and> n mod 10 = d}"
    then have "n = n div 10 * 10 + d" "n div 10 < q" by auto
    then show "n \<in> (\<lambda>k. k * 10 + d) ` {..<q}" by blast
  qed (use that in auto)
  moreover have "inj_on (\<lambda>k. k * 10 + d) {..<q}" by (auto simp: inj_on_def)
  ultimately show ?thesis by (simp add: card_image)
qed

lemma card_words: "card {w :: 32 word. P (unat w)} = card {n. n < 2 ^ 32 \<and> P n}"
proof -
  have "unat ` {w :: 32 word. P (unat w)} = {n. n < 2 ^ 32 \<and> P n}"
  proof (intro set_eqI iffI)
    fix n assume "n \<in> {n. n < 2 ^ 32 \<and> P n}"
    then have "unat (word_of_nat n :: 32 word) = n" "P n" by (simp_all add: unsigned_of_nat take_bit_nat_eq_self)
    then show "n \<in> unat ` {w :: 32 word. P (unat w)}" by (metis (mono_tags) imageI mem_Collect_eq)
  next
    fix n assume "n \<in> unat ` {w :: 32 word. P (unat w)}"
    then show "n \<in> {n. n < 2 ^ 32 \<and> P n}" using unsigned_less [where ?'a = nat and ?'b = 32] by auto
  qed
  moreover have "inj_on unat {w :: 32 word. P (unat w)}" by (auto simp: inj_on_def word_unat_eq_iff)
  ultimately show ?thesis using card_image by metis
qed



end
