(* ===== verification/Guard_Properties.thy ===== *)
theory Guard_Properties
  imports Rtc Form_Properties
begin

text \<open>
  Two guards at the edge of the backend: relay servers are handed to the participants of a connectable call
  only, and a rate limit lets through no more calls per window than it says, whatever other
  limits are counted in between.
\<close>

section \<open>Relay servers\<close>

lemma split_comma_not_Nil [simp]: "split_comma x \<noteq> []"
  by (induction x) (auto split: list.splits)

lemma cloudflare_servers:
  assumes "cloudflareIceServers generate renv = Some servers" "v \<in> set servers"
  shows "is_urls v \<noteq> [] \<and> list_all (\<lambda>u. \<not> port53 u) (is_urls v)"
proof -
  have "\<not> port53 ''stun:stun.cloudflare.com:3478''" by code_simp
  moreover have "is_urls v \<noteq> [] \<and> list_all (\<lambda>u. \<not> port53 u) (is_urls v)" if "v \<in> set (reachableServers answer)" for answer
    using that by (auto simp: reachableServers_def list_all_iff)
  ultimately show ?thesis
    using assms by (auto simp: cloudflareIceServers_def split: option.splits list.splits if_splits)
qed

definition takes_part :: "ctx \<Rightarrow> db \<Rightarrow> id \<Rightarrow> id \<Rightarrow> bool" where
  "takes_part ctx s i u \<longleftrightarrow> authUserId ctx = Some u \<and> (case db_get (calls s) i of
     Some c \<Rightarrow> c_status c \<in> set CONNECTABLE_STATUSES \<and> u \<in> {c_creatorId c, c_viewerId c} | None \<Rightarrow> False)"

lemma rtc_participant_Inr: "rtc_participant ctx i s = Inr u \<longleftrightarrow> takes_part ctx s i u"
  by (cases "authUserId ctx"; cases "db_get (calls s) i")
    (auto simp: takes_part_def rtc_participant_def callForParticipant_def requireUserId_def simp del: bindE_eq_Inr)

lemma rtc_participant_Inl:
  "rtc_participant ctx i s = Inl e \<Longrightarrow> e = (if authUserId ctx = None then UNAUTHENTICATED else CALL_NOT_FOUND)"
  by (auto simp: rtc_participant_def callForParticipant_def requireUserId_def bindE_eq_Inl split: option.splits if_splits)


definition demo_rtc_env :: rtc_env where
  "demo_rtc_env = \<lparr>STUN_URLS = Some ''stun:a, ,stun:b'', TURN_URL = Some ''turn:c'', TURN_SHARED_SECRET = Some ''k'',
     TURN_CREDENTIAL_TTL_SECONDS = Unset, CLOUDFLARE_TURN_KEY_ID = None, CLOUDFLARE_TURN_API_TOKEN = None\<rparr>"


section \<open>Rate limits\<close>

text \<open>The calls of a sequence that \<open>rateLimit\<close> lets through, each with its key.\<close>

fun let_through :: "int \<Rightarrow> int \<Rightarrow> (ctx \<times> rate_key) list \<Rightarrow> db \<Rightarrow> (ctx \<times> rate_key) list" where
  "let_through perWindow windowMs [] s = []"
| "let_through perWindow windowMs ((c, k) # rest) s = (case rateLimit c k perWindow windowMs s of
     Inl _ \<Rightarrow> let_through perWindow windowMs rest s
   | Inr s' \<Rightarrow> (c, k) # let_through perWindow windowMs rest s')"

text \<open>How much of a window is used up already.\<close>

definition window_of :: "int \<Rightarrow> int \<Rightarrow> int" where
  "window_of windowMs t = t - t mod windowMs"

definition used :: "db \<Rightarrow> rate_key \<Rightarrow> int \<Rightarrow> int" where
  "used s k w = (case first_by (\<lambda>r. rl_key r = k) (rateLimits s) of
     Some r \<Rightarrow> if rl_windowStart r = w then rl_count r else 0 | None \<Rightarrow> 0)"

lemma window_of_le: "0 < w \<Longrightarrow> window_of w t \<le> t"
  by (simp add: window_of_def)

lemma window_of_mono: "0 < w \<Longrightarrow> t \<le> u \<Longrightarrow> window_of w t \<le> window_of w u"
  by (simp add: window_of_def minus_mod_eq_div_mult zdiv_mono1)

abbreviation limit_row :: "db \<Rightarrow> rate_key \<Rightarrow> rate_doc option" where
  "limit_row s k \<equiv> first_by (\<lambda>r. rl_key r = k) (rateLimits s)"

lemma patched_limit:
  assumes "wf_db s" "limit_row s k = Some r" "\<And>d. rl_key (f d) = rl_key d"
  shows "limit_row (rateLimits_update (\<lambda>t. db_patch t (did r) f) s) j = (if j = k then Some (f r) else limit_row s j)"
proof -
  have wf: "wf_table (nextId s) (rateLimits s)" using assms(1) by (simp add: wf_db_def Let_def)
  have patched: "limit_row (rateLimits_update (\<lambda>t. db_patch t (did r) f) s) j =
      map_option (\<lambda>d. if did d = did r then f d else d) (limit_row s j)"
    using first_by_patch [where P = "\<lambda>r. rl_key r = j" and f = f and i = "did r" and t = "rateLimits s"] assms(3) by simp
  show ?thesis
  proof (cases "j = k")
    case True
    then show ?thesis using patched assms(2) by simp
  next
    case False
    have "did x \<noteq> did r" if "limit_row s j = Some x" for x
    proof
      assume "did x = did r"
      then have "x = r"
        using wf_table_inj [OF wf] first_by_SomeD [OF that] first_by_SomeD [OF assms(2)] by blast
      then show False using False first_by_SomeD [OF that] first_by_SomeD [OF assms(2)] by simp
    qed
    then show ?thesis using patched False by (cases "limit_row s j") auto
  qed
qed

lemma rateLimit_row:
  assumes "wf_db s" "rateLimit c k p w s = Inr s'"
  shows "limit_row s' j = (if j = k then (case limit_row s k of
      None \<Rightarrow> Some \<lparr>did = nextId s, ctime = now c, rl_key = k, rl_windowStart = window_of w (now c), rl_count = 1\<rparr>
    | Some r \<Rightarrow> Some (if rl_windowStart r = window_of w (now c) then r\<lparr>rl_count := rl_count r + 1\<rparr>
        else r\<lparr>rl_windowStart := window_of w (now c), rl_count := 1\<rparr>))
    else limit_row s j)"
proof (cases "limit_row s k")
  case None
  then have "s' = bumpId (rateLimits_update (\<lambda>t. db_insert t
      \<lparr>did = nextId s, ctime = now c, rl_key = k, rl_windowStart = window_of w (now c), rl_count = 1\<rparr>) s)"
    using assms(2) by (simp add: rateLimit_def Let_def window_of_def)
  then show ?thesis using None by (cases "limit_row s j") (auto simp: first_by_insert)
next
  case (Some r)
  show ?thesis
  proof (cases "rl_windowStart r = window_of w (now c)")
    case True
    then have "s' = rateLimits_update (\<lambda>t. db_patch t (did r) (\<lambda>d. d\<lparr>rl_count := rl_count r + 1\<rparr>)) s"
      using assms(2) Some by (simp add: rateLimit_def Let_def window_of_def split: if_splits)
    then show ?thesis using patched_limit [OF assms(1) Some] True Some by simp
  next
    case False
    then have "s' = rateLimits_update (\<lambda>t. db_patch t (did r)
        (\<lambda>d. d\<lparr>rl_windowStart := window_of w (now c), rl_count := 1\<rparr>)) s"
      using assms(2) Some by (simp add: rateLimit_def Let_def window_of_def split: if_splits)
    then show ?thesis using patched_limit [OF assms(1) Some] False Some by simp
  qed
qed

lemma rateLimit_used:
  assumes "wf_db s" "rateLimit c k p w s = Inr s'"
  shows "used s' j v = (if j \<noteq> k then used s j v else if v = window_of w (now c) then used s k v + 1 else 0)"
    and "used s k (window_of w (now c)) < p \<or> used s k (window_of w (now c)) = 0"
proof -
  show "used s' j v = (if j \<noteq> k then used s j v else if v = window_of w (now c) then used s k v + 1 else 0)"
    using rateLimit_row [OF assms, of j] by (auto simp: used_def split: option.split)
  show "used s k (window_of w (now c)) < p \<or> used s k (window_of w (now c)) = 0"
    using assms(2) by (auto simp: used_def rateLimit_def Let_def window_of_def split: option.splits if_splits)
qed

lemma let_through_subset: "(c, j) \<in> set (let_through p w reqs s) \<Longrightarrow> (c, j) \<in> set reqs"
  by (induction p w reqs s rule: let_through.induct) (auto split: sum.splits)

lemma let_through_bounded:
  assumes "wf_db s" "sorted (map (\<lambda>(c, j). now c) reqs)" "0 < w" "1 \<le> p"
    and "\<forall>(c, j)\<in>set reqs. \<forall>r. limit_row s k = Some r \<longrightarrow> rl_windowStart r \<le> window_of w (now c)"
  shows "length (filter (\<lambda>(c, j). j = k \<and> window_of w (now c) = v) (let_through p w reqs s)) \<le> nat (p - used s k v)"
  using assms
proof (induction reqs arbitrary: s)
  case (Cons req reqs)
  obtain c j where req: "req = (c, j)" by (cases req)
  have later: "window_of w (now c) \<le> window_of w (now d)" if "(d, l) \<in> set reqs" for d l
    using Cons.prems(2,3) that by (auto simp: req intro: window_of_mono)
  show ?case
  proof (cases "rateLimit c j p w s")
    case (Inl e)
    then show ?thesis using Cons by (auto simp: req)
  next
    case (Inr s')
    have wf: "wf_db s'" using wf_rateLimit [of s c j p w] Cons.prems(1) Inr by (simp add: sat_def ensuresDb_def)
    have "\<forall>(d, l)\<in>set reqs. \<forall>r. limit_row s' k = Some r \<longrightarrow> rl_windowStart r \<le> window_of w (now d)"
      using Cons.prems(5) later rateLimit_row [OF Cons.prems(1) Inr, of k]
      by (fastforce simp: req split: if_splits option.splits)
    then have IH: "length (filter (\<lambda>(c, j). j = k \<and> window_of w (now c) = v) (let_through p w reqs s')) \<le> nat (p - used s' k v)"
      using Cons.IH [OF wf] Cons.prems(2-4) by (simp add: req)
    note used = rateLimit_used [OF Cons.prems(1) Inr]
    have through: "let_through p w (req # reqs) s = (c, j) # let_through p w reqs s'" by (simp add: req Inr)
    consider "j \<noteq> k" | "j = k" "window_of w (now c) = v" | "j = k" "window_of w (now c) < v" | "j = k" "v < window_of w (now c)"
      by fastforce
    then show ?thesis
    proof cases
      case 1
      then show ?thesis using IH used(1) [of k v] by (simp add: through)
    next
      case 2
      then show ?thesis using IH used Cons.prems(4) unfolding through by auto
    next
      case 3
      have "used s k v = 0"
        using Cons.prems(5) 3 by (auto simp: used_def req split: option.split)
      then show ?thesis using IH 3 used(1) [of k v] by (simp add: through)
    next
      case 4
      have "filter (\<lambda>(c, j). j = k \<and> window_of w (now c) = v) (let_through p w reqs s') = []"
        using later 4 by (fastforce simp: filter_empty_conv dest: let_through_subset)
      then show ?thesis using 4 by (simp add: through)
    qed
  qed
qed simp

text \<open>
  C35. A rate limit is a limit.  Whatever calls come, for whatever keys and as long as the clock does not go back, a limit of
  \<open>p\<close> per window lets through at most \<open>p\<close> calls for a key in a window, less what the window had used
  before.
\<close>

theorem rate_limits_hold:
  assumes "reachable h s" "sorted (map (\<lambda>(c, j). now c) reqs)" "0 < w" "1 \<le> p"
    and "\<forall>(c, j)\<in>set reqs. \<forall>r. limit_row s k = Some r \<longrightarrow> rl_windowStart r \<le> window_of w (now c)"
  shows "int (length (filter (\<lambda>(c, j). j = k \<and> window_of w (now c) = v) (let_through p w reqs s))) \<le> max 0 (p - used s k v)"
  using let_through_bounded [OF reachable_wf [OF assms(1)] assms(2-5), of v] by linarith

definition demo_sends :: "(ctx \<times> rate_key) list" where
  "demo_sends = map (\<lambda>(t, e). (by_user None t, RateReset e))
     [(1000, ''a@b''), (2000, ''a@b''), (2500, ''c@d''), (3000, ''a@b''), (4000, ''a@b''), (5000, ''a@b''), (900000, ''a@b'')]"

theorem rate_limits_hold_witness:
  "int (length (filter (\<lambda>(c, j). j = RateReset ''a@b'' \<and> window_of 900000 (now c) = 0) (let_through 3 900000 demo_sends empty_db))) \<le> 3"
  using rate_limits_hold [OF reachable.init [of demo_host], of demo_sends 900000 3 "RateReset ''a@b''" 0]
  by (simp add: demo_sends_def by_user_def empty_db_def used_def first_by_def)

end
