(* ===== verification/Follow_Safety.thy ===== *)
theory Follow_Safety
  imports Payout_Safety
begin

text \<open>
  Followers are counted exactly although no counter is ever computed from the follows: a creator's total is spread over
  64 shards, each follow and unfollow moves one of them chosen at random, and the follower's own count is kept
  in a row of its own.  The invariant ties both to the rows of \<open>follows\<close>.
\<close>

section \<open>The invariant\<close>

definition followers :: "db \<Rightarrow> id \<Rightarrow> int" where
  "followers s c = int (length (filter (\<lambda>f. fo_creatorId f = c) (follows s)))"

definition following :: "db \<Rightarrow> id \<Rightarrow> int" where
  "following s u = int (length (filter (\<lambda>f. fo_followerId f = u) (follows s)))"

definition counted :: "db \<Rightarrow> id \<Rightarrow> int" where
  "counted s u = (case countRow s u of Some r \<Rightarrow> fc_count r | None \<Rightarrow> 0)"

definition pairs_ok :: "db \<Rightarrow> bool" where
  "pairs_ok s \<longleftrightarrow> distinct (map (\<lambda>f. (fo_followerId f, fo_creatorId f)) (follows s)) \<and>
     (\<forall>f\<in>set (follows s). fo_followerId f \<noteq> fo_creatorId f)"

definition shards_ok :: "db \<Rightarrow> bool" where
  "shards_ok s \<longleftrightarrow> distinct (map (\<lambda>d. (fs_creatorId d, fs_shard d)) (followerShards s)) \<and>
     (\<forall>d\<in>set (followerShards s). fs_shard d < SHARDS \<and> 0 \<le> fs_count d)"

definition counts_ok :: "db \<Rightarrow> bool" where
  "counts_ok s \<longleftrightarrow> distinct (map fc_userId (followingCounts s))"

definition follow_ok :: "db \<Rightarrow> bool" where
  "follow_ok s \<longleftrightarrow> pairs_ok s \<and> shards_ok s \<and> counts_ok s \<and> (\<forall>c. shardTotal s c = followers s c) \<and>
     (\<forall>u. counted s u = following s u \<and> counted s u \<le> MAX_FOLLOWS)"

lemma follow_ok_cong:
  assumes "follows s' = follows s" "followerShards s' = followerShards s" "followingCounts s' = followingCounts s"
  shows "follow_ok s' = follow_ok s"
  by (simp add: follow_ok_def pairs_ok_def shards_ok_def counts_ok_def shardTotal_def followers_def following_def
      counted_def countRow_def assms)

section \<open>The follower's own count\<close>

lemma setCount_frame [simp]:
  "follows (setCount c u r n s) = follows s" "followerShards (setCount c u r n s) = followerShards s"
  by (simp_all add: setCount_def split: option.split)

lemma setCount_counts:
  assumes "wf_db s" "counts_ok s"
  shows "counts_ok (setCount c u (countRow s u) n s)"
    "counted (setCount c u (countRow s u) n s) v = (if v = u then n else counted s v)"
proof -
  let ?s = "setCount c u (countRow s u) n s"
  have wf: "wf_table (nextId s) (followingCounts s)" using assms(1) by (simp add: wf_db_def Let_def)
  have "counts_ok ?s \<and> countRow ?s v = (if v = u then Some (case countRow s u of Some r \<Rightarrow> r\<lparr>fc_count := n\<rparr>
      | None \<Rightarrow> \<lparr>did = nextId s, ctime = now c, fc_userId = u, fc_count = n\<rparr>) else countRow s v)"
  proof (cases "countRow s u")
    case None
    then have "\<forall>r\<in>set (followingCounts s). fc_userId r \<noteq> u" by (simp add: countRow_def first_by_None)
    moreover have "followingCounts ?s = followingCounts s @ [\<lparr>did = nextId s, ctime = now c, fc_userId = u, fc_count = n\<rparr>]"
      by (simp add: setCount_def None db_insert_def)
    ultimately show ?thesis using assms(2) None
      by (auto simp: counts_ok_def countRow_def first_by_def find_append split: option.split)
  next
    case (Some r)
    have r: "r \<in> set (followingCounts s)" "fc_userId r = u"
      using first_by_SomeD Some by (auto simp: countRow_def)
    have patched: "countRow ?s v = map_option (\<lambda>d. if did d = did r then d\<lparr>fc_count := n\<rparr> else d) (countRow s v)"
      using first_by_patch [where P = "\<lambda>d. fc_userId d = v" and f = "\<lambda>d. d\<lparr>fc_count := n\<rparr>" and i = "did r" and t = "followingCounts s"]
      unfolding setCount_def Some option.case by (simp add: countRow_def)
    have "did x \<noteq> did r" if "countRow s v = Some x" "v \<noteq> u" for x
      using wf_table_inj [OF wf _ r(1)] first_by_SomeD [of _ "followingCounts s" x] that r(2) by (force simp: countRow_def)
    then have "countRow ?s v = (if v = u then Some (r\<lparr>fc_count := n\<rparr>) else countRow s v)"
      using patched Some by (cases "countRow s v") auto
    moreover have "counts_ok ?s"
      using assms(2) by (simp add: counts_ok_def Some setCount_def map_db_patch)
    ultimately show ?thesis by (simp add: Some)
  qed
  then show "counts_ok ?s" "counted ?s v = (if v = u then n else counted s v)"
    by (simp_all add: counted_def split: option.split)
qed

section \<open>The follow itself\<close>

lemma writeFollow_frame [simp]:
  "followerShards (writeFollow c u k e s) = followerShards s" "followingCounts (writeFollow c u k e s) = followingCounts s"
  by (simp_all add: writeFollow_def split: option.split)

lemma length_filter_delete:
  assumes "wf_table n t" "x \<in> set t"
  shows "int (length (filter P (db_delete t (did x)))) = int (length (filter P t)) - (if P x then 1 else 0)"
  using assms
proof (induction t)
  case (Cons y t)
  have wf: "wf_table n t" using Cons.prems(1) by (auto simp: wf_table_def)
  show ?case
  proof (cases "did y = did x")
    case True
    have "y = x" by (rule wf_table_inj [OF Cons.prems(1)]) (use Cons.prems(2) True in auto)
    have "did y \<notin> did ` set t" using Cons.prems(1) by (simp add: wf_table_def)
    then have "\<forall>z\<in>set t. did z \<noteq> did x" using True by (metis image_eqI)
    then have "db_delete (y # t) (did x) = t" using True by (auto simp: db_delete_def intro: filter_True)
    then show ?thesis using \<open>y = x\<close> by simp
  next
    case False
    then have "x \<in> set t" using Cons.prems(2) by auto
    then have "int (length (filter P (db_delete t (did x)))) = int (length (filter P t)) - (if P x then 1 else 0)"
      by (rule Cons.IH [OF wf])
    moreover have "db_delete (y # t) (did x) = y # db_delete t (did x)" using False by (simp add: db_delete_def)
    ultimately show ?thesis by (cases "P x"; cases "P y") simp_all
  qed
qed simp

lemma writeFollow_follow:
  assumes "pairs_ok s" "followRow s u k = None" "u \<noteq> k"
  shows "pairs_ok (writeFollow c u k None s)"
    "followers (writeFollow c u k None s) x = followers s x + (if x = k then 1 else 0)"
    "following (writeFollow c u k None s) x = following s x + (if x = u then 1 else 0)"
  using assms by (auto simp: pairs_ok_def writeFollow_def followers_def following_def db_insert_def followRow_def first_by_None)

lemma writeFollow_unfollow:
  assumes "pairs_ok s" "followRow s u k = Some f" "wf_db s"
  shows "pairs_ok (writeFollow c u k (Some f) s)"
    "followers (writeFollow c u k (Some f) s) x = followers s x - (if x = k then 1 else 0)"
    "following (writeFollow c u k (Some f) s) x = following s x - (if x = u then 1 else 0)"
proof -
  have f: "f \<in> set (follows s)" "fo_followerId f = u" "fo_creatorId f = k"
    using first_by_SomeD assms(2) by (auto simp: followRow_def)
  have wf: "wf_table (nextId s) (follows s)" using assms(3) by (simp add: wf_db_def Let_def)
  show "pairs_ok (writeFollow c u k (Some f) s)"
    using assms(1) by (auto simp: pairs_ok_def writeFollow_def db_delete_def distinct_map_filter)
  show "followers (writeFollow c u k (Some f) s) x = followers s x - (if x = k then 1 else 0)"
    "following (writeFollow c u k (Some f) s) x = following s x - (if x = u then 1 else 0)"
    using length_filter_delete [OF wf f(1)] f(2,3) by (auto simp: writeFollow_def followers_def following_def)
qed

section \<open>The shards\<close>

lemma scheduleProjection_frame [simp]:
  "followerShards (scheduleProjection c k s) = followerShards s" "followingCounts (scheduleProjection c k s) = followingCounts s"
  "follows (scheduleProjection c k s) = follows s"
  by (simp_all add: scheduleProjection_def split: option.split)

lemma shardTotal_sum: "shardTotal s c = sum_list (map (\<lambda>d. if fs_creatorId d = c then fs_count d else 0) (followerShards s))"
proof -
  have "sum_list (map f (filter P xs)) = sum_list (map (\<lambda>d. if P d then f d else 0) xs)" for f :: "shard_doc \<Rightarrow> int" and P xs
    by (induction xs) auto
  then show ?thesis by (simp add: shardTotal_def)
qed

lemma shardAt_SomeD: "shardAt s c n = Some d \<Longrightarrow> d \<in> set (followerShards s) \<and> fs_creatorId d = c \<and> fs_shard d = n"
  using first_by_SomeD by (auto simp: shardAt_def)

lemma shardAt_unique:
  assumes "shards_ok s" "d \<in> set (followerShards s)"
  shows "shardAt s (fs_creatorId d) (fs_shard d) = Some d"
  unfolding shardAt_def
  by (rule first_by_unique) (use assms in \<open>auto simp: shards_ok_def distinct_map dest: inj_onD\<close>)

lemma patchShard_shards:
  assumes "wf_db s" "shards_ok s" "d \<in> set (followerShards s)" "0 \<le> n"
  shows "shards_ok (patchShard (did d) n s)"
    "shardTotal (patchShard (did d) n s) c = shardTotal s c + (if fs_creatorId d = c then n - fs_count d else 0)"
proof -
  have wf: "wf_table (nextId s) (followerShards s)" using assms(1) by (simp add: wf_db_def Let_def)
  show "shards_ok (patchShard (did d) n s)"
    using assms(2,4) by (auto simp: shards_ok_def patchShard_def map_db_patch set_db_patch)
  show "shardTotal (patchShard (did d) n s) c = shardTotal s c + (if fs_creatorId d = c then n - fs_count d else 0)"
    unfolding shardTotal_sum
    by (simp add: patchShard_def sum_db_patch [OF wf db_get_in [OF wf assms(3)]])
qed

lemma patchShard_frame [simp]:
  "follows (patchShard i n s) = follows s" "followingCounts (patchShard i n s) = followingCounts s"
  by (simp_all add: patchShard_def)

lemma incShard_shards:
  assumes "wf_db s" "shards_ok s" "start < SHARDS"
  shows "shards_ok (incShard c k start s)" "shardTotal (incShard c k start s) x = shardTotal s x + (if x = k then 1 else 0)"
    "follows (incShard c k start s) = follows s" "followingCounts (incShard c k start s) = followingCounts s"
proof -
  have "shards_ok (incShard c k start s) \<and> shardTotal (incShard c k start s) x = shardTotal s x + (if x = k then 1 else 0)"
  proof (cases "shardAt s k start")
    case None
    then have "\<forall>d\<in>set (followerShards s). \<not> (fs_creatorId d = k \<and> fs_shard d = start)"
      by (simp add: shardAt_def first_by_None)
    moreover have "followerShards (incShard c k start s) = followerShards s @
        [\<lparr>did = nextId s, ctime = now c, fs_creatorId = k, fs_shard = start, fs_count = 1\<rparr>]"
      by (simp add: incShard_def None db_insert_def)
    ultimately show ?thesis using assms(2,3) by (auto simp: shards_ok_def shardTotal_def)
  next
    case (Some d)
    then have d: "d \<in> set (followerShards s)" "fs_creatorId d = k" using shardAt_SomeD by auto
    then have "0 \<le> fs_count d + 1" using assms(2) by (auto simp: shards_ok_def)
    then show ?thesis using patchShard_shards [OF assms(1,2) d(1)] d(2) Some by (auto simp: incShard_def)
  qed
  then show "shards_ok (incShard c k start s)" "shardTotal (incShard c k start s) x = shardTotal s x + (if x = k then 1 else 0)"
    by auto
  show "follows (incShard c k start s) = follows s" "followingCounts (incShard c k start s) = followingCounts s"
    by (simp_all add: incShard_def split: option.split)
qed

text \<open>The loop over the offsets finds a shard to take from when there is one.\<close>

lemma decShard_takes:
  assumes "\<exists>off\<in>set offs. \<exists>d. shardAt s k ((start + off) mod SHARDS) = Some d \<and> fs_count d > 0"
  shows "\<exists>d\<in>set (followerShards s). fs_creatorId d = k \<and> fs_count d > 0 \<and>
    decShard k start offs s = patchShard (did d) (fs_count d - 1) s"
  using assms
proof (induction k start offs s rule: decShard.induct)
  case (2 k start off rest s)
  show ?case
  proof (cases "\<exists>d. shardAt s k ((start + off) mod SHARDS) = Some d \<and> fs_count d > 0")
    case True
    then show ?thesis using shardAt_SomeD by fastforce
  next
    case False
    then have rest: "\<exists>off\<in>set rest. \<exists>d. shardAt s k ((start + off) mod SHARDS) = Some d \<and> fs_count d > 0"
      using "2.prems" by auto
    have "decShard k start (off # rest) s = decShard k start rest s"
      using False by (auto split: option.split)
    then show ?thesis using "2.IH" rest False by (cases "shardAt s k ((start + off) mod SHARDS)") auto
  qed
qed simp

lemma residue_reached: "n < m \<Longrightarrow> \<exists>off<m. (start + off) mod m = n" for n m start :: nat
proof -
  assume n: "n < m"
  let ?off = "(n + (m - start mod m)) mod m"
  have "start mod m \<le> m" using n by simp
  then have wrap: "start mod m + (n + (m - start mod m)) = n + m" by linarith
  have "(start + ?off) mod m = (start mod m + (n + (m - start mod m))) mod m" by (simp add: mod_simps)
  also have "\<dots> = (n + m) mod m" by (simp only: wrap)
  finally have "(start + ?off) mod m = n" using n by simp
  moreover have "?off < m" using n by simp
  ultimately show ?thesis by blast
qed

lemma decShard_shards:
  assumes "wf_db s" "shards_ok s" "0 < shardTotal s k"
  shows "shards_ok (decShard k start [0..<SHARDS] s)"
    "shardTotal (decShard k start [0..<SHARDS] s) x = shardTotal s x - (if x = k then 1 else 0)"
    "follows (decShard k start [0..<SHARDS] s) = follows s"
    "followingCounts (decShard k start [0..<SHARDS] s) = followingCounts s"
proof -
  obtain d where d: "d \<in> set (followerShards s)" "fs_creatorId d = k" "fs_count d > 0"
  proof (rule ccontr)
    assume "\<not> thesis"
    then have "\<forall>d\<in>set (followerShards s). (if fs_creatorId d = k then fs_count d else 0) \<le> 0"
      using that by force
    then have "shardTotal s k \<le> 0" unfolding shardTotal_sum by (intro sum_list_nonpos) auto
    then show False using assms(3) by simp
  qed
  have "fs_shard d < SHARDS" using assms(2) d(1) by (auto simp: shards_ok_def)
  then obtain off where "off < SHARDS" "(start + off) mod SHARDS = fs_shard d" using residue_reached by blast
  then have "shardAt s k ((start + off) mod SHARDS) = Some d" "off \<in> set [0..<SHARDS]"
    using shardAt_unique [OF assms(2) d(1)] d(2) by auto
  then have "\<exists>off\<in>set [0..<SHARDS]. \<exists>d. shardAt s k ((start + off) mod SHARDS) = Some d \<and> fs_count d > 0"
    using d(3) by blast
  then obtain e where e: "e \<in> set (followerShards s)" "fs_creatorId e = k" "fs_count e > 0"
    "decShard k start [0..<SHARDS] s = patchShard (did e) (fs_count e - 1) s"
    using decShard_takes by blast
  then show "shards_ok (decShard k start [0..<SHARDS] s)"
    "shardTotal (decShard k start [0..<SHARDS] s) x = shardTotal s x - (if x = k then 1 else 0)"
    "follows (decShard k start [0..<SHARDS] s) = follows s"
    "followingCounts (decShard k start [0..<SHARDS] s) = followingCounts s"
    using patchShard_shards [OF assms(1,2) e(1), of "fs_count e - 1"] by auto
qed

section \<open>Every request keeps the invariant\<close>

lemma startShard_bound: "valid_ctx ctx \<Longrightarrow> startShard ctx < SHARDS"
proof -
  assume "valid_ctx ctx"
  then have "rnd ctx * 64 < 64" "0 \<le> rnd ctx * 64" by (auto simp: valid_ctx_def)
  then have "floor (rnd ctx * 64) < 64" "0 \<le> floor (rnd ctx * 64)" by (simp_all add: floor_less_iff)
  then show ?thesis by (simp add: startShard_def SHARDS_def nat_less_iff)
qed

lemma applyFollow_follow_ok:
  assumes "follow_ok s" "wf_db s" "valid_ctx ctx" "u \<noteq> k" "(followRow s u k = None) = follow"
    and "applyFollow ctx u k (followRow s u k) follow s = Inr s'"
  shows "follow_ok s'"
proof -
  let ?n = "counted s u + (if follow then 1 else - 1)"
  define s1 where "s1 = setCount ctx u (countRow s u) ?n s"
  define s2 where "s2 = writeFollow ctx u k (followRow s u k) s1"
  have ok: "pairs_ok s" "shards_ok s" "counts_ok s" "shardTotal s c = followers s c" "counted s v = following s v" "counted s v \<le> MAX_FOLLOWS"
    for c v using assms(1) unfolding follow_ok_def by blast+
  have s': "s' = adjustShard ctx k follow s2" and room: "follow \<Longrightarrow> counted s u < MAX_FOLLOWS"
    using assms(6) by (auto simp: applyFollow_def Let_def s1_def s2_def counted_def split: if_splits)
  have wf1: "wf_db s1" using wf_follow_writes(1) [of s] assms(2) by (simp add: s1_def sat_def)
  have wf2: "wf_db s2" using wf_follow_writes(2) [of s1] wf1 by (simp add: s2_def sat_def)
  note counts1 = setCount_counts [OF assms(2) ok(3), of ctx u ?n, folded s1_def]
  have same1: "follows s1 = follows s" "followerShards s1 = followerShards s" by (simp_all add: s1_def)
  have row1: "followRow s1 u k = followRow s u k" by (simp add: followRow_def same1)
  have pairs1: "pairs_ok s1" using ok(1) by (simp add: pairs_ok_def same1)
  have foll1: "followers s1 x = followers s x" "following s1 x = following s x" for x
    by (simp_all add: followers_def following_def same1)
  let ?d = "if follow then 1 else - 1 :: int"
  have pairs2: "pairs_ok s2"
    and foll2: "\<And>x. followers s2 x = followers s x + (if x = k then ?d else 0)"
      "\<And>x. following s2 x = following s x + (if x = u then ?d else 0)"
  proof -
    have "pairs_ok s2 \<and> (\<forall>x. followers s2 x = followers s x + (if x = k then ?d else 0)) \<and>
        (\<forall>x. following s2 x = following s x + (if x = u then ?d else 0))"
    proof (cases "followRow s u k")
      case None
      then show ?thesis using writeFollow_follow [OF pairs1 _ assms(4)] row1 assms(5) by (simp add: s2_def foll1)
    next
      case (Some f)
      then show ?thesis using writeFollow_unfollow [OF pairs1 _ wf1] row1 assms(5) by (auto simp: s2_def foll1)
    qed
    then show "pairs_ok s2" "\<And>x. followers s2 x = followers s x + (if x = k then ?d else 0)"
      "\<And>x. following s2 x = following s x + (if x = u then ?d else 0)" by blast+
  qed
  have same2: "followerShards s2 = followerShards s" "followingCounts s2 = followingCounts s1"
    by (simp_all add: s2_def same1)
  have shards2: "shards_ok s2" "shardTotal s2 x = shardTotal s x" for x
    using ok(2) by (simp_all add: shards_ok_def shardTotal_def same2)
  have "0 < shardTotal s2 k" if un: "\<not> follow"
  proof -
    obtain f where "followRow s u k = Some f" using assms(5) un by auto
    then have "f \<in> set (follows s)" "fo_creatorId f = k" using first_by_SomeD by (auto simp: followRow_def)
    then have "filter (\<lambda>f. fo_creatorId f = k) (follows s) \<noteq> []" by (auto simp: filter_empty_conv)
    then show ?thesis by (simp add: shards2(2) ok(4) followers_def)
  qed
  then have after: "shards_ok s' \<and> (\<forall>x. shardTotal s' x = shardTotal s x + (if x = k then ?d else 0)) \<and>
      follows s' = follows s2 \<and> followingCounts s' = followingCounts s2"
    using incShard_shards [OF wf2 shards2(1) startShard_bound [OF assms(3)]] decShard_shards [OF wf2 shards2(1)]
    by (auto simp: s' adjustShard_def shards_ok_def shardTotal_def shards2(2) [unfolded shardTotal_def])
  have counted': "counted s' v = (if v = u then ?n else counted s v)" for v
    using counts1(2) [of v] after by (simp add: counted_def countRow_def same2)
  show ?thesis
    unfolding follow_ok_def
  proof (intro conjI allI)
    show "pairs_ok s'" using pairs2 after by (simp add: pairs_ok_def)
    show "shards_ok s'" using after by blast
    show "counts_ok s'" using counts1(1) after by (simp add: counts_ok_def same2)
    show "shardTotal s' c = followers s' c" for c
      using after foll2(1) [of c] ok(4) by (simp add: followers_def)
    show "counted s' v = following s' v" for v
    proof -
      have "following s' v = following s2 v" using after by (simp add: following_def)
      then show ?thesis using counted' [of v] foll2(2) [of v] ok(5) [of v] by (cases "v = u") auto
    qed
    show "counted s' v \<le> MAX_FOLLOWS" for v
      using counted' [of v] ok(6) [of v] room by (auto split: if_splits)
  qed
qed

lemma setFollow_Inr:
  assumes "setFollow ctx name follow s = Inr (x, s')"
  shows "s' = s \<or> (\<exists>u k s1. u \<noteq> k \<and> (followRow s u k = None) = follow \<and>
    rateLimit ctx (RateFollow u) 60 60000 s = Inr s1 \<and> applyFollow ctx u k (followRow s u k) follow s1 = Inr s')"
proof (cases "requireCreatorId ctx s")
  case (Inl e)
  show ?thesis using assms unfolding setFollow_def Inl by simp
next
  case (Inr u)
  show ?thesis
  proof (cases "profileByUsername s name")
    case None
    show ?thesis using assms unfolding setFollow_def Inr bindE_Inr None by simp
  next
    case (Some p)
    have checks: "\<not> (follow \<and> \<not> p_published p)" "p_userId p \<noteq> u"
      using assms unfolding setFollow_def Inr bindE_Inr Some by (auto split: if_split_asm)
    then have rest: "(if (followRow s u (p_userId p) \<noteq> None) = follow then Inr (follow, s)
        else bindE (rateLimit ctx (RateFollow u) 60 60000 s) (\<lambda>s1.
          bindE (applyFollow ctx u (p_userId p) (followRow s u (p_userId p)) follow s1) (\<lambda>s2. Inr (follow, s2)))) = Inr (x, s')"
      using assms unfolding setFollow_def Inr bindE_Inr Some option.case if_not_P [OF checks(1)] if_not_P [OF checks(2)] Let_def by blast
    show ?thesis
    proof (cases "(followRow s u (p_userId p) \<noteq> None) = follow")
      case True
      then show ?thesis using rest by simp
    next
      case False
      then obtain s1 where "rateLimit ctx (RateFollow u) 60 60000 s = Inr s1"
        "applyFollow ctx u (p_userId p) (followRow s u (p_userId p)) follow s1 = Inr s'"
        using rest unfolding if_not_P [OF False] bindE_eq_Inr by auto
      moreover have "(followRow s u (p_userId p) = None) = follow" using False by blast
      ultimately show ?thesis using checks(2) by metis
    qed
  qed
qed

lemma setFollow_follow_ok:
  assumes "follow_ok s" "wf_db s" "valid_ctx ctx"
  shows "ensures follow_ok (setFollow ctx name follow s)"
  unfolding ensures_def
proof (intro allI impI)
  fix x s' assume "setFollow ctx name follow s = Inr (x, s')"
  then consider "s' = s" | u k s1 where "u \<noteq> k" "(followRow s u k = None) = follow"
      "rateLimit ctx (RateFollow u) 60 60000 s = Inr s1" "applyFollow ctx u k (followRow s u k) follow s1 = Inr s'"
    using setFollow_Inr by blast
  then show "sat follow_ok s'"
  proof cases
    case 1
    then show ?thesis using assms(1) by (simp add: sat_def)
  next
    case 2
    have "sat (same {T_rateLimits} s) s" by (simp add: sat_def)
    then have "same {T_rateLimits} s s1"
      using mod_rateLimit [of "{T_rateLimits}" s s ctx "RateFollow u" 60 60000] 2(3) by (simp add: ensuresDb_def sat_def)
    then have frame: "follows s1 = follows s" "followerShards s1 = followerShards s" "followingCounts s1 = followingCounts s"
      by (simp_all add: same_def)
    have "wf_db s1" using wf_rateLimit [of s] assms(2) 2(3) by (simp add: ensuresDb_def sat_def)
    then show ?thesis
      using applyFollow_follow_ok [of s1 ctx u k follow s'] follow_ok_cong [OF frame] assms(1,3) 2
      by (simp add: sat_def followRow_def frame)
  qed
qed

lemma exec_follow_ok:
  assumes "follow_ok s" "wf_db s" "valid_ctx c"
  shows "follow_ok (exec h c r s)"
proof (cases "T_follows \<in> writes r \<or> T_followerShards \<in> writes r \<or> T_followingCounts \<in> writes r")
  case False
  then show ?thesis
    using follow_ok_cong [of "exec h c r s" s] sameD(21-23) [OF exec_same [of r s h c]] assms(1) by blast
next
  case True
  have sat: "sat follow_ok s" using assms(1) by (simp add: sat_def)
  obtain name follow where "r = Social (SetFollow name follow)"
  proof (cases r)
    case (Stage q)
    then show ?thesis using True by (cases q) simp_all
  next
    case (Money q)
    then show ?thesis using True by (cases q) simp_all
  next
    case (Social q)
    then show ?thesis using True that by (cases q) simp_all
  qed
  then show ?thesis
    using sat_commit [OF sat setFollow_follow_ok [OF assms]] by (simp add: sat_def)
qed

lemma follow_empty: "follow_ok empty_db"
  by (simp add: follow_ok_def pairs_ok_def shards_ok_def counts_ok_def shardTotal_def followers_def following_def
      counted_def countRow_def first_by_def empty_db_def MAX_FOLLOWS_def)

interpretation follow_counts: inductive_invariant h wf_db follow_ok for h
  using exec_follow_ok by unfold_locales (auto intro: reachable_wf follow_empty)

lemma project_shows_total:
  "case profileForUser (follows_project c s) c of Some p \<Rightarrow> p_followerCount p = shardTotal s c | None \<Rightarrow> True"
proof (cases "profileForUser s c")
  case None
  then show ?thesis by (simp add: follows_project_def Let_def profileForUser_def)
next
  case (Some p)
  show ?thesis
  proof (cases "p_followerCount p = shardTotal s c")
    case True
    then show ?thesis using Some by (simp add: follows_project_def Let_def profileForUser_def)
  next
    case False
    then have "profiles (follows_project c s) = db_patch (profiles s) (did p) (\<lambda>p. p\<lparr>p_followerCount := shardTotal s c\<rparr>)"
      by (simp add: follows_project_def Let_def Some)
    then show ?thesis
      using first_by_patch [where P = "\<lambda>p. p_userId p = c" and f = "\<lambda>p. p\<lparr>p_followerCount := shardTotal s c\<rparr>"
          and i = "did p" and t = "profiles s"] Some by (simp add: profileForUser_def)
  qed
qed

text \<open>
  C25. Follower counts are exact.  In every reachable database a creator's shards add up to the number of their
  followers, none below zero, and the projection writes that number to their profile; a user's own count is the number
  of creators they follow, at most a thousand; and nobody follows a creator twice, or themselves.
\<close>

theorem follower_counts_are_exact:
  assumes "reachable h s"
  shows "shardTotal s c = int (card {f. \<exists>x\<in>set (follows s). fo_creatorId x = c \<and> fo_followerId x = f}) \<and>
    (case profileForUser (follows_project c s) c of Some p \<Rightarrow> p_followerCount p = shardTotal s c | None \<Rightarrow> True) \<and>
    (case followingCount ctx s of
       Inr n \<Rightarrow> n \<le> 1000 \<and> n = int (card {k. \<exists>x\<in>set (follows s). Some (fo_followerId x) = authUserId ctx \<and> fo_creatorId x = k})
     | Inl _ \<Rightarrow> True) \<and>
    distinct (map (\<lambda>f. (fo_followerId f, fo_creatorId f)) (follows s)) \<and>
    (\<forall>f\<in>set (follows s). fo_followerId f \<noteq> fo_creatorId f)"
proof -
  have ok: "follow_ok s" by (rule follow_counts.holds [OF assms])
  then have dist: "distinct (map (\<lambda>f. (fo_followerId f, fo_creatorId f)) (follows s))" by (simp add: follow_ok_def pairs_ok_def)
  have card_filter: "int (length (filter P (follows s))) = int (card (g ` {x \<in> set (follows s). P x}))"
    if "inj_on g {x \<in> set (follows s). P x}" for P and g :: "follow_doc \<Rightarrow> id"
    using that dist by (simp add: card_image distinct_card distinct_map flip: set_filter)
  have inj: "inj_on (\<lambda>f. (fo_followerId f, fo_creatorId f)) (set (follows s))" using dist by (simp add: distinct_map)
  have "{f. \<exists>x\<in>set (follows s). fo_creatorId x = c \<and> fo_followerId x = f} = fo_followerId ` {x \<in> set (follows s). fo_creatorId x = c}"
    by auto
  moreover have "inj_on fo_followerId {x \<in> set (follows s). fo_creatorId x = c}"
    using inj by (auto simp: inj_on_def)
  ultimately have shards: "shardTotal s c = int (card {f. \<exists>x\<in>set (follows s). fo_creatorId x = c \<and> fo_followerId x = f})"
    using ok card_filter [of fo_followerId "\<lambda>x. fo_creatorId x = c"] by (simp add: follow_ok_def followers_def)
  have "{k. \<exists>x\<in>set (follows s). fo_followerId x = u \<and> fo_creatorId x = k} = fo_creatorId ` {x \<in> set (follows s). fo_followerId x = u}" for u
    by auto
  moreover have "inj_on fo_creatorId {x \<in> set (follows s). fo_followerId x = u}" for u
    using inj by (auto simp: inj_on_def)
  ultimately have counts: "counted s u = int (card {k. \<exists>x\<in>set (follows s). fo_followerId x = u \<and> fo_creatorId x = k})" for u
    using ok card_filter [of fo_creatorId "\<lambda>x. fo_followerId x = u"] by (simp add: follow_ok_def following_def)
  have project: "case profileForUser (follows_project c s) c of Some p \<Rightarrow> p_followerCount p = shardTotal s c | None \<Rightarrow> True"
    by (rule project_shows_total)
  have own: "case followingCount ctx s of
      Inr n \<Rightarrow> n \<le> 1000 \<and> n = int (card {k. \<exists>x\<in>set (follows s). Some (fo_followerId x) = authUserId ctx \<and> fo_creatorId x = k})
     | Inl _ \<Rightarrow> True"
  proof (cases "requireCreatorId ctx s")
    case (Inl e)
    show ?thesis unfolding followingCount_def Inl by simp
  next
    case (Inr u)
    then have "authUserId ctx = Some u" by simp
    moreover have "counted s u \<le> 1000" using ok unfolding follow_ok_def MAX_FOLLOWS_def by blast
    ultimately show ?thesis using counts [of u] unfolding followingCount_def Inr by (simp add: counted_def)
  qed
  have pairs: "pairs_ok s" using ok by (simp add: follow_ok_def)
  show ?thesis
    by (intro conjI shards project own) (use pairs in \<open>simp_all add: pairs_ok_def\<close>)
qed

text \<open>A second creator joins the demo and follows the first.\<close>

definition demo_follow :: db where
  "demo_follow = exec demo_host (by_user (Some 10) 3200) (Social (SetFollow ''Alice'' True))
     (exec demo_host (by_user None 3100) (Social (CreateUser None (demo_user (Some ''bob'')))) (demo_at 7))"

lemma demo_follow_reachable: "reachable demo_host demo_follow"
  unfolding demo_follow_def by (intro reachable.step demo_reachable by_user_valid)

theorem follower_counts_witness:
  "shardTotal demo_follow 0 = 1 \<and> card {f. \<exists>x\<in>set (follows demo_follow). fo_creatorId x = 0 \<and> fo_followerId x = f} = 1 \<and>
    followingCount (by_user (Some 10) 3300) demo_follow = Inr 1"
proof -
  have "shardTotal demo_follow 0 = 1" "followingCount (by_user (Some 10) 3300) demo_follow = Inr 1"
    by code_simp+
  then show ?thesis
    using follower_counts_are_exact [OF demo_follow_reachable, of 0 "by_user (Some 10) 3300"] by simp
qed

end
