(* ===== verification/Webhook_Safety.thy ===== *)
theory Webhook_Safety
  imports Payout_Safety
begin

text \<open>
  Stripe delivers an event at least once; Bling applies it at most once.  The event's id is recorded in the same
  transaction as its effects, no request ever changes or removes such a record, and an event whose id is recorded is
  answered without doing anything.
\<close>

section \<open>The record of events\<close>

lemma applyEvent_keeps_log: "stripeEvents (applyEvent c a s) = stripeEvents s"
proof -
  have "sat (same (- {T_stripeEvents}) s) (applyEvent c a s)"
    unfolding applyEvent_def by (intro sat_intros mod_intros) (simp_all add: sat_def)
  then show ?thesis by (simp add: sat_def same_def)
qed

lemma webhooks_apply_log:
  "stripeEvents (webhooks_apply c a s) = (if eventSeen s (wh_eventId a) then stripeEvents s
     else stripeEvents s @ [\<lparr>did = nextId s, ctime = now c, ev_stripeEventId = wh_eventId a, ev_type = wh_type a,
      ev_connectedAccountId = wh_connectedAccountId a\<rparr>])"
  by (simp add: webhooks_apply_def applyEvent_keeps_log recordEvent_def db_insert_def)

lemma webhooks_apply_seen: "eventSeen (webhooks_apply c a s) (wh_eventId a)"
  by (auto simp: eventSeen_def webhooks_apply_log first_by_None split: if_splits)

lemma exec_keeps_log: "\<exists>new. stripeEvents (exec h c r s) = stripeEvents s @ new"
proof (cases "T_stripeEvents \<in> writes r")
  case False
  then show ?thesis using sameD(12) [OF exec_same [of r s h c]] by simp
next
  case True
  obtain a where "r = Money (StripeEvent a)"
  proof (cases r)
    case (Stage q)
    then show ?thesis using True by (cases q) simp_all
  next
    case (Money q)
    then show ?thesis using True that by (cases q) simp_all
  next
    case (Social q)
    then show ?thesis using True by (cases q) simp_all
  qed
  then show ?thesis by (simp add: webhooks_apply_log)
qed

lemma run_keeps_log: "leads_to h s s' \<Longrightarrow> \<exists>new. stripeEvents s' = stripeEvents s @ new"
proof (induction rule: leads_to.induct)
  case (later s s' c r)
  then show ?case using exec_keeps_log [of h c r s'] by auto
qed simp

lemma seen_for_good: "leads_to h s s' \<Longrightarrow> eventSeen s i \<Longrightarrow> eventSeen s' i"
  using run_keeps_log [of h s s'] by (force simp: eventSeen_def first_by_None)

lemma reduceEvent_id [simp]: "wh_eventId (reduceEvent e) = se_id e"
  by (simp add: reduceEvent_def baseArgs_def)

text \<open>
  C24. A webhook event takes effect once.  After an event has been applied, whatever happens next, applying it
  again changes nothing, even if its contents differ; and its redelivery over HTTP is answered with 204 and changes nothing.
\<close>

theorem webhook_events_apply_once:
  assumes "leads_to h (webhooks_apply ctx a s) s'" "wh_eventId b = wh_eventId a"
  shows "webhooks_apply c b s' = s' \<and>
    (verifiedEvent check body sig secrets = Some e \<and> se_id e = wh_eventId a \<and> length body \<le> 2 ^ 20 \<longrightarrow>
       stripeWebhook check True secrets body (Some sig) c s' = (204, s'))"
proof -
  have seen: "eventSeen s' (wh_eventId a)" by (rule seen_for_good [OF assms(1) webhooks_apply_seen])
  then show ?thesis using assms(2)
    by (cases secrets) (auto simp: webhooks_apply_def stripeWebhook_def)
qed

theorem webhook_events_witness:
  "webhooks_apply (by_user None 15000) (demo_refund ''evt_1'' ''re_9'' 500) (demo_at 21) = demo_at 21 \<and>
    length (stripeEvents (demo_at 21)) = 4"
proof -
  have at18: "demo_at 18 = webhooks_apply (by_user None 11000) (demo_refund ''evt_1'' ''re_1'' 300) (demo_at 17)"
    by (simp add: demo_at_def demo_script_def)
  have "leads_to demo_host (webhooks_apply (by_user None 11000) (demo_refund ''evt_1'' ''re_1'' 300) (demo_at 17)) (demo_at 21)"
    using demo_leads_to [of 18 21] unfolding at18 by simp
  then have "webhooks_apply (by_user None 15000) (demo_refund ''evt_1'' ''re_9'' 500) (demo_at 21) = demo_at 21"
    by (rule webhook_events_apply_once [THEN conjunct1]) (simp add: demo_refund_def stripe_args_def)
  moreover have "length (stripeEvents (demo_at 21)) = 4" by code_simp
  ultimately show ?thesis ..
qed

end
