(* ===== verification/Payout_Calendar.thy ===== *)
theory Payout_Calendar
  imports Payout_Safety
begin

text \<open>
  The calendar of the monthly payouts: the months are numbered through, a payout month starts on its
  payday, and \<open>nextPayoutAt\<close> and \<open>payoutPeriod\<close> are read off that numbering.
\<close>

section \<open>Payout months\<close>

text \<open>The payday of month \<open>k\<close>, as a day number, and the payout month a time falls in.\<close>

definition payday :: "int \<Rightarrow> int \<Rightarrow> int" where
  "payday day k = firstDay k + day - 1"

definition payoutMonth :: "int \<Rightarrow> int \<Rightarrow> int" where
  "payoutMonth day t =
     (let d = t div DAY_MS; k = monthNo d in if d < payday day k then k - 1 else k)"

lemma DAY_MS_pos: "0 < DAY_MS"
  by (simp add: DAY_MS_def)

lemma day_nonneg: "0 \<le> t \<Longrightarrow> 0 \<le> t div DAY_MS"
  by (simp add: DAY_MS_def pos_imp_zdiv_nonneg_iff)

lemma day_le_iff: "d * DAY_MS \<le> t \<longleftrightarrow> d \<le> t div DAY_MS"
proof
  assume "d * DAY_MS \<le> t"
  then have "(d * DAY_MS) div DAY_MS \<le> t div DAY_MS" by (intro zdiv_mono1) (simp_all add: DAY_MS_pos)
  then show "d \<le> t div DAY_MS" using DAY_MS_pos by simp
next
  assume "d \<le> t div DAY_MS"
  then have "d * DAY_MS \<le> t div DAY_MS * DAY_MS" using DAY_MS_pos by simp
  also have "\<dots> \<le> t" using div_mult_mod_eq [of t DAY_MS] DAY_MS_pos
    by (smt (verit) pos_mod_sign)
  finally show "d * DAY_MS \<le> t" .
qed

lemma payday_less: "i < j \<Longrightarrow> payday day i < payday day j"
  by (simp add: payday_def firstDay_less)

lemma payday_le_iff: "payday day i \<le> payday day j \<longleftrightarrow> i \<le> j"
  using payday_less [of i j day] payday_less [of j i day] by (cases i j rule: linorder_cases) auto

lemma payoutMonth_spec:
  assumes "0 \<le> t" "1 \<le> day" "day \<le> 28"
  shows "payday day (payoutMonth day t) \<le> t div DAY_MS"
    and "t div DAY_MS < payday day (payoutMonth day t + 1)"
proof -
  let ?d = "t div DAY_MS" let ?k = "monthNo ?d"
  have k: "firstDay ?k \<le> ?d" "?d < firstDay (?k + 1)"
    using monthNo_spec [OF day_nonneg [OF assms(1)]] by simp_all
  have s: "firstDay (?k - 1) + 28 \<le> firstDay ?k" using firstDay_step [of "?k - 1"] by simp
  show "payday day (payoutMonth day t) \<le> ?d"
    using k s assms by (simp add: payoutMonth_def payday_def Let_def)
  show "?d < payday day (payoutMonth day t + 1)"
    using k assms by (simp add: payoutMonth_def payday_def Let_def)
qed

lemma payoutMonth_eq:
  assumes "0 \<le> t" "1 \<le> day" "day \<le> 28"
    and "payday day k \<le> t div DAY_MS" "t div DAY_MS < payday day (k + 1)"
  shows "payoutMonth day t = k"
proof -
  have "payday day (payoutMonth day t) < payday day (k + 1)" "payday day k < payday day (payoutMonth day t + 1)"
    using payoutMonth_spec [OF assms(1-3)] assms(4,5) by linarith+
  then have "\<not> payday day (k + 1) \<le> payday day (payoutMonth day t)"
    "\<not> payday day (payoutMonth day t + 1) \<le> payday day k" by linarith+
  then show ?thesis by (simp add: payday_le_iff)
qed

lemma monthNo_parts:
  assumes "0 \<le> t"
  shows "12 * getUTCFullYear t + getUTCMonth t = monthNo (t div DAY_MS)"
  by (simp add: getUTCFullYear_def getUTCMonth_def monthNo_def)

lemma dateUTC_payday: "dateUTC y m day = payday day (12 * y + m) * DAY_MS"
  by (simp add: dateUTC_def makeDay_firstDay payday_def)

lemma nextPayoutAt_month:
  assumes "0 \<le> t" "1 \<le> day" "day \<le> 28"
  shows "nextPayoutAt t day = payday day (payoutMonth day t + 1) * DAY_MS"
  using monthNo_parts [OF assms(1)]
  by (simp add: nextPayoutAt_def Let_def dateUTC_payday day_le_iff payoutMonth_def
      not_less add.assoc [symmetric])

lemma getUTCDate_payday:
  assumes "0 \<le> payday day k" "1 \<le> day" "day \<le> 28"
  shows "getUTCDate (payday day k * DAY_MS) = day"
proof -
  have "monthNo (payday day k) = k"
    using assms firstDay_step [of k] by (intro monthNo_eq) (auto simp: payday_def)
  then show ?thesis
    using assms DAY_MS_pos by (simp add: getUTCDate_firstDay) (simp add: payday_def)
qed

lemma nextPayoutAt_spec:
  assumes "0 \<le> t" "1 \<le> day" "day \<le> 28"
  shows "t < nextPayoutAt t day" "nextPayoutAt t day \<le> t + 31 * DAY_MS"
    "nextPayoutAt t day mod DAY_MS = 0" "getUTCDate (nextPayoutAt t day) = day"
proof -
  let ?m = "payoutMonth day t"
  note n = nextPayoutAt_month [OF assms] and m = payoutMonth_spec [OF assms]
  show lt: "t < nextPayoutAt t day" using m(2) day_le_iff [of "payday day (?m + 1)" t] by (simp add: n)
  have "payday day (?m + 1) \<le> t div DAY_MS + 31"
    using m(1) firstDay_step [of ?m] by (simp add: payday_def)
  then have "payday day (?m + 1) - 31 \<le> t div DAY_MS" by simp
  then have "(payday day (?m + 1) - 31) * DAY_MS \<le> t" by (simp only: day_le_iff)
  then show "nextPayoutAt t day \<le> t + 31 * DAY_MS" by (simp add: n left_diff_distrib)
  show "nextPayoutAt t day mod DAY_MS = 0" by (simp add: n)
  have "0 \<le> payday day (?m + 1)" using m(2) day_nonneg [OF assms(1)] by linarith
  then show "getUTCDate (nextPayoutAt t day) = day"
    using assms by (simp add: n getUTCDate_payday)
qed

text \<open>A midnight with the payday's date is the payday of its month.\<close>

lemma payday_dates:
  assumes "0 \<le> u" "u mod DAY_MS = 0" "getUTCDate u = day"
  shows "u = payday day (monthNo (u div DAY_MS)) * DAY_MS"
proof -
  have "u div DAY_MS = payday day (monthNo (u div DAY_MS))"
    using assms(3) getUTCDate_firstDay [OF assms(1)] by (simp add: payday_def)
  then show ?thesis using assms(2) div_mult_mod_eq [of u DAY_MS] by simp
qed

lemma nextPayoutAt_first:
  assumes "0 \<le> t" "1 \<le> day" "day \<le> 28" "t < u" "u mod DAY_MS = 0" "getUTCDate u = day"
  shows "nextPayoutAt t day \<le> u"
proof -
  let ?m = "payoutMonth day t" let ?k = "monthNo (u div DAY_MS)"
  have u: "u = payday day ?k * DAY_MS" using payday_dates [of u day] assms by simp
  then have "t < payday day ?k * DAY_MS" using assms(4) by simp
  then have "t div DAY_MS < payday day ?k" using day_le_iff [of "payday day ?k" t] by simp
  then have "\<not> payday day ?k \<le> payday day ?m" using payoutMonth_spec(1) [OF assms(1-3)] by simp
  then have "payday day (?m + 1) \<le> payday day ?k" by (simp add: payday_le_iff)
  then have "payday day (?m + 1) * DAY_MS \<le> payday day ?k * DAY_MS" using DAY_MS_pos by simp
  then show ?thesis using u nextPayoutAt_month [OF assms(1-3)] by simp
qed

section \<open>The period a run pays out\<close>

lemma digits_inj:
  "digits w m = digits w n \<Longrightarrow> m < 10 ^ w \<Longrightarrow> n < 10 ^ w \<Longrightarrow> m = n"
proof (induction w arbitrary: m n)
  case (Suc w)
  have "m mod 10 = n mod 10"
  proof -
    have "of_char (char_of (48 + m mod 10)) = (of_char (char_of (48 + n mod 10)) :: nat)"
      using Suc.prems(1) by simp
    moreover have "48 + m mod 10 < 256" "48 + n mod 10 < 256"
      using mod_less_divisor [of 10 m] mod_less_divisor [of 10 n] by linarith+
    ultimately show ?thesis by (simp only: of_char_of mod_less)
  qed
  moreover have "m div 10 = n div 10"
    using Suc.prems by (intro Suc.IH) (simp_all add: less_mult_imp_div_less mult.commute)
  ultimately show ?case by (metis div_mult_mod_eq)
qed simp

lemma length_digits [simp]: "length (digits w n) = w"
  by (induction w arbitrary: n) simp_all

text \<open>The months whose first day the model and \<open>toISOString\<close> both print with four digits.\<close>

definition iso_months :: "int set" where
  "iso_months = {12 * 1970 ..< 12 * 10000}"

lemma firstDay_nonneg: "12 * 1970 \<le> k \<Longrightarrow> 0 \<le> firstDay k"
  using firstDay_mono [of "12 * 1970" k] by (simp add: firstDay_def dayFromYear_def)

lemma isoDate_firstDay:
  assumes "12 * 1970 \<le> k"
  shows "isoDate (firstDay k * DAY_MS)
    = digits 4 (nat (k div 12)) @ ''-'' @ digits 2 (nat (k mod 12 + 1)) @ ''-'' @ digits 2 1"
proof -
  have d: "0 \<le> firstDay k" using firstDay_nonneg [OF assms] .
  have k: "monthNo (firstDay k) = k" using d firstDay_step [of k] by (intro monthNo_eq) auto
  have "getUTCDate (firstDay k * DAY_MS) = 1"
    using getUTCDate_payday [of 1 k] d by (simp add: payday_def)
  then show ?thesis
    using monthNo_spec(3,4) [OF d] k DAY_MS_pos
    by (simp add: isoDate_def getUTCFullYear_def getUTCMonth_def)
qed

lemma isoDate_inj:
  assumes "i \<in> iso_months" "j \<in> iso_months"
  shows "isoDate (firstDay i * DAY_MS) = isoDate (firstDay j * DAY_MS) \<longleftrightarrow> i = j"
proof
  assume eq: "isoDate (firstDay i * DAY_MS) = isoDate (firstDay j * DAY_MS)"
  have y: "digits 4 (nat (i div 12)) = digits 4 (nat (j div 12))"
    and m: "digits 2 (nat (i mod 12 + 1)) = digits 2 (nat (j mod 12 + 1))"
    using eq assms by (simp_all add: isoDate_firstDay iso_months_def)
  have "nat (i div 12) = nat (j div 12)"
    using assms by (intro digits_inj [OF y]) (auto simp: iso_months_def)
  moreover have "nat (i mod 12 + 1) = nat (j mod 12 + 1)"
    by (intro digits_inj [OF m]) (simp_all add: nat_less_iff)
  moreover have "0 \<le> i div 12" "0 \<le> j div 12" "0 \<le> i mod 12" "0 \<le> j mod 12"
    using assms by (simp_all add: iso_months_def pos_imp_zdiv_nonneg_iff)
  ultimately have "i div 12 = j div 12" "i mod 12 = j mod 12"
    by (simp_all only: eq_nat_nat_iff add_nonneg_nonneg zero_le_one add_right_cancel)
  then show "i = j" by (metis div_mult_mod_eq)
qed simp

lemma payoutPeriod_month:
  assumes "0 \<le> t" "1 \<le> day" "day \<le> 28"
  shows "payoutPeriod t day = (isoDate (firstDay (payoutMonth day t - 1) * DAY_MS),
    isoDate (firstDay (payoutMonth day t) * DAY_MS))"
proof -
  let ?d = "t div DAY_MS" let ?k = "monthNo ?d"
  have g: "getUTCDate t < day \<longleftrightarrow> ?d < payday day ?k"
    using getUTCDate_firstDay [OF assms(1)] by (auto simp: payday_def)
  have y: "getUTCMonth t = ?k - 12 * getUTCFullYear t"
    using monthNo_parts [OF assms(1)] by simp
  show ?thesis
    by (simp add: payoutPeriod_def Let_def g dateUTC_def makeDay_firstDay payoutMonth_def y)
qed

lemma payoutMonth_mono:
  assumes "0 \<le> t" "t \<le> u" "1 \<le> day" "day \<le> 28"
  shows "payoutMonth day t \<le> payoutMonth day u"
proof -
  have "t div DAY_MS \<le> u div DAY_MS" using assms(2) DAY_MS_pos by (simp add: zdiv_mono1)
  then have "payday day (payoutMonth day t) < payday day (payoutMonth day u + 1)"
    using payoutMonth_spec(1) [of t day] payoutMonth_spec(2) [of u day] assms by simp
  then have "\<not> payday day (payoutMonth day u + 1) \<le> payday day (payoutMonth day t)" by simp
  then show ?thesis by (simp add: payday_le_iff)
qed

lemma payoutMonth_low:
  assumes "62 * DAY_MS \<le> t" "1 \<le> day" "day \<le> 28"
  shows "12 * 1970 + 1 \<le> payoutMonth day t"
proof -
  let ?m = "payoutMonth day t"
  have d: "62 \<le> t div DAY_MS" using assms(1) by (simp only: day_le_iff)
  have t: "0 \<le> t" using assms(1) DAY_MS_pos by auto
  have "firstDay (12 * 1970 + 1) = 31" by (simp add: firstDay_def dayFromYear_def)
  then have "payday day (12 * 1970 + 1) < payday day (?m + 1)"
    using payoutMonth_spec(2) [OF t assms(2,3)] d assms(3) by (simp add: payday_def)
  then have "\<not> payday day (?m + 1) \<le> payday day (12 * 1970 + 1)" by simp
  then show ?thesis by (simp add: payday_le_iff)
qed

lemma payoutMonth_high:
  assumes "0 \<le> t" "getUTCFullYear t < 9999"
  shows "payoutMonth day t < 12 * 9999"
proof -
  have "monthNo (t div DAY_MS) div 12 < 9999"
    using monthNo_spec(3) [OF day_nonneg [OF assms(1)]] assms(2) by (simp add: getUTCFullYear_def)
  moreover have "payoutMonth day t \<le> monthNo (t div DAY_MS)" by (simp add: payoutMonth_def Let_def)
  ultimately show ?thesis by simp
qed

text \<open>
  C26. The payout calendar.  With a payday from 1 to 28, for any time from two months after the epoch
  on: the next payout a creator is shown is the first midnight (UTC) after it that has the payday's
  date, and is at most 31 days away.  The hourly runs book a payout under the same period until
  that moment exactly, and from then on under the period that starts where the last one ended; so
  there is one run per currency from payday to payday, and no month is skipped or paid under two
  periods.
\<close>

theorem payouts_are_monthly:
  assumes "1 \<le> day" "day \<le> 28" "62 * DAY_MS \<le> t" "t \<le> u" "getUTCFullYear u < 9999"
  shows "t < nextPayoutAt t day \<and> nextPayoutAt t day \<le> t + 31 * DAY_MS
    \<and> nextPayoutAt t day mod DAY_MS = 0 \<and> getUTCDate (nextPayoutAt t day) = day
    \<and> (\<forall>v. t < v \<and> v mod DAY_MS = 0 \<and> getUTCDate v = day \<longrightarrow> nextPayoutAt t day \<le> v)
    \<and> (payoutPeriod u day = payoutPeriod t day \<longleftrightarrow> u < nextPayoutAt t day)
    \<and> fst (payoutPeriod (nextPayoutAt t day) day) = snd (payoutPeriod t day)"
proof -
  have t: "0 \<le> t" "0 \<le> u" using assms(3,4) DAY_MS_pos by auto
  note d = assms(1,2)
  let ?m = "payoutMonth day t" let ?n = "nextPayoutAt t day"
  have mono: "?m \<le> payoutMonth day u" by (rule payoutMonth_mono [OF t(1) assms(4) d])
  have low: "12 * 1970 + 1 \<le> ?m" by (rule payoutMonth_low [OF assms(3) d])
  have high: "payoutMonth day u < 12 * 9999" by (rule payoutMonth_high [OF t(2) assms(5)])
  have r: "?m \<in> iso_months" "?m - 1 \<in> iso_months" "payoutMonth day u \<in> iso_months"
    "payoutMonth day u - 1 \<in> iso_months"
    using mono low high by (simp_all add: iso_months_def)
  have "payoutPeriod u day = payoutPeriod t day \<longleftrightarrow> payoutMonth day u = ?m"
    using r t d by (simp add: payoutPeriod_month isoDate_inj)
  also have "\<dots> \<longleftrightarrow> payoutMonth day u < ?m + 1"
    using mono by auto
  also have "\<dots> \<longleftrightarrow> u div DAY_MS < payday day (?m + 1)"
  proof
    assume "payoutMonth day u < ?m + 1"
    then show "u div DAY_MS < payday day (?m + 1)"
      using payoutMonth_spec(2) [OF t(2) d] payday_le_iff [of day "payoutMonth day u + 1" "?m + 1"]
      by simp
  next
    assume "u div DAY_MS < payday day (?m + 1)"
    then have "\<not> payday day (?m + 1) \<le> payday day (payoutMonth day u)"
      using payoutMonth_spec(1) [OF t(2) d] by simp
    then show "payoutMonth day u < ?m + 1" by (simp add: payday_le_iff)
  qed
  also have "\<dots> \<longleftrightarrow> u < ?n"
    using day_le_iff [of "payday day (?m + 1)" u] by (auto simp: nextPayoutAt_month [OF t(1) d])
  finally have same: "payoutPeriod u day = payoutPeriod t day \<longleftrightarrow> u < ?n" .
  have n: "0 \<le> ?n" using nextPayoutAt_spec(1) [OF t(1) d] t by simp
  have "payoutMonth day ?n = ?m + 1"
    using DAY_MS_pos payday_less [of "?m + 1" "?m + 2" day] n
    by (intro payoutMonth_eq) (simp_all add: nextPayoutAt_month [OF t(1) d] d add.commute)
  then have "fst (payoutPeriod ?n day) = snd (payoutPeriod t day)"
    using t n d by (simp add: payoutPeriod_month)
  moreover have "\<forall>v. t < v \<and> v mod DAY_MS = 0 \<and> getUTCDate v = day \<longrightarrow> ?n \<le> v"
    by (intro allI impI, elim conjE) (rule nextPayoutAt_first [OF t(1) d])
  ultimately show ?thesis
    using nextPayoutAt_spec [OF t(1) d] same by (intro conjI)
qed

theorem payouts_are_monthly_witness:
  "nextPayoutAt 1706700000000 15 = 1707955200000
    \<and> payoutPeriod 1706700000000 15 = (''2023-12-01'', ''2024-01-01'')
    \<and> payoutPeriod 1707955199999 15 = payoutPeriod 1706700000000 15
    \<and> fst (payoutPeriod 1707955200000 15) = ''2024-01-01''"
proof -
  have n: "nextPayoutAt 1706700000000 15 = 1707955200000" by code_simp
  have p: "payoutPeriod 1706700000000 15 = (''2023-12-01'', ''2024-01-01'')" by code_simp
  have h: "62 * DAY_MS \<le> 1706700000000" "getUTCFullYear 1707955199999 < 9999" by code_simp+
  have "payoutPeriod 1707955199999 15 = payoutPeriod 1706700000000 15"
    "fst (payoutPeriod 1707955200000 15) = ''2024-01-01''"
    using payouts_are_monthly [of 15 1706700000000 1707955199999] h n p by simp_all
  with n p show ?thesis by simp
qed

end
