(* ===== verification/Divergences.thy ===== *)
theory Divergences
  imports Payout_Safety
begin

text \<open>
  Where the backend does something its comments do not say, shown on the model: money that stays
  captured for a call that failed, a caller thrown out of the free tier, a creator charged twice for one
  payment, and a refund that is left \<open>PROCESSING\<close> for good.
\<close>

section \<open>A capture that arrives after the call failed\<close>

text \<open>
  Stripe reports a failed attempt to pay while the capture is pending, which fails the call; then the
  capture succeeds.  The show is still live, so \<open>recordCaptured\<close> neither opens the call nor
  requests a refund, and ending the show does not either.
\<close>

definition demo_intent :: "string \<Rightarrow> string \<Rightarrow> apply_args" where
  "demo_intent ev ty = (stripe_args ev ty)\<lparr>wh_intent := Some \<lparr>wi_id = ''pi_1'', wi_failureCode = None,
     wi_customerId = None, wi_paymentMethodId = None, wi_savedForFuture = False\<rparr>\<rparr>"

definition demo_late_capture :: db where
  "demo_late_capture =
     exec demo_host (by_user (Some 0) 9000) (Stage (EndShow 5))
     (exec demo_host (by_user None 8500) (Money (StripeEvent (demo_intent ''evt_b'' ''payment_intent.succeeded'')))
     (exec demo_host (by_user None 8000) (Money (StripeEvent (demo_intent ''evt_a'' ''payment_intent.payment_failed'')))
       (demo_at 13)))"

lemma late_capture_is_kept:
  "reachable demo_host demo_late_capture"
  "map_option pa_status (db_get (paymentAttempts demo_late_capture) 10) = Some Pay_CAPTURED"
  "map_option c_status (callForAttempt demo_late_capture 10) = Some Call_FAILED"
  "refundForAttempt demo_late_capture 10 = None"
  "earningFor demo_late_capture 10 = None"
proof -
  show "reachable demo_host demo_late_capture"
    unfolding demo_late_capture_def by (intro reachable.step demo_reachable by_user_valid)
qed code_simp+

section \<open>Leaving a paid tier for a free one\<close>

text \<open>
  A caller leaves the paid tier, which schedules the release of the hold, and at once joins the free tier,
  which reuses the queue entry.  When the release is recorded the entry waits, but for no
  payment; \<open>recordNotCaptured\<close> takes the caller out of the queue all the same.
\<close>

definition demo_rejoined :: db where
  "demo_rejoined =
     exec demo_host (by_user (Some 2) 5200) (Stage (JoinQueue (demo_join 8)))
     (exec demo_host (by_user (Some 2) 5100) (Stage (LeaveQueue 5)) (demo_at 11))"

definition demo_evicted :: db where
  "demo_evicted = exec demo_host (by_user None 5300) (Money (NotCapturedPayment 10 True None)) demo_rejoined"

lemma rejoined_caller_is_evicted:
  "reachable demo_host demo_evicted"
  "map_option q_status (db_get (queueEntries demo_rejoined) 11) = Some Q_WAITING"
  "map_option q_paymentAttemptId (db_get (queueEntries demo_rejoined) 11) = Some None"
  "map_option q_status (db_get (queueEntries demo_evicted) 11) = Some Q_LEFT"
proof -
  show "reachable demo_host demo_evicted"
    unfolding demo_evicted_def demo_rejoined_def by (intro reachable.step demo_reachable by_user_valid)
qed code_simp+

section \<open>A refund and a dispute of the same payment\<close>

text \<open>
  The two reversals of the refunds already took back all 428 cents of the earning; the dispute takes them
  back again, and once it is lost nothing gives them back.
\<close>

lemma refund_and_dispute_both_debit:
  "reachable demo_host (demo_at 20)"
  "bs_totalCents (balanceAt (demo_at 20) 0 ''usd'' 14000) = - 428"
  by (rule demo_reachable) code_simp

section \<open>The tenth run of a refund\<close>

text \<open>
  A refund whose tenth run dies between its claim and its outcome stays \<open>PROCESSING\<close>: no later
  run can claim it, however often the sweep schedules one.
\<close>

lemma tenth_claim_is_the_last:
  assumes "db_get (paymentRefunds s) i = Some r" "rf_attempts r = 9" "refundDue (now ctx) r" "wf_db s"
  shows "map_option rf_status (db_get (paymentRefunds (snd (refunds_claim ctx i s))) i) = Some Ref_PROCESSING"
    and "refunds_claim c i (snd (refunds_claim ctx i s)) = (None, snd (refunds_claim ctx i s))"
  using assms by (simp_all add: refunds_claim_def Let_def MAX_ATTEMPTS_def db_get_patch)

end
