(* ===== verification/Call_Manager.thy ===== *)
theory Call_Manager
  imports Schema
begin

text \<open>
  The browser's side of a call: the class \<open>WebRTCCallManager\<close> of \<open>src/lib/webrtc.ts\<close>.  The object is
  a record and what it does to the world is a log.  The code awaits the browser and its callbacks in many places
  and anything may happen meanwhile; a method is therefore cut at its awaits, and each piece is one step.  The
  promise chain \<open>signalChain\<close> is a list of jobs with the await that its first job stands at.  Peer connections and
  sockets are numbered, so that what an old one still does is told apart from the present one.
  \<open>RTCPeerConnection\<close> is the browser's: of it the model keeps the four attributes the code reads and
  changes the descriptions when the promise of setting one is fulfilled, as WebRTC has it.
\<close>

section \<open>State\<close>

datatype call_phase = Ph_idle | Ph_requesting_microphone | Ph_waiting | Ph_connecting | Ph_reconnecting
  | Ph_live | Ph_microphone_denied | Ph_failed | Ph_ended

datatype signaling_state = Sig_stable | Sig_have_local_offer | Sig_have_remote_offer

datatype connection_state = Con_new | Con_connecting | Con_connected | Con_disconnected | Con_failed

record peer =
  pe_id :: nat
  pe_signalingState :: signaling_state
  pe_localDescription :: "string option"
  pe_remoteDescription :: "string option"
  pe_connectionState :: connection_state

text \<open>
  A message as \<open>JSON.parse\<close> leaves it: it may not parse, may not be an envelope, and its payload may not be an
  object or lack the field looked for.
\<close>

datatype sig_payload = Not_object | Fields (f_sdp: "string option") (f_candidate: "string option")

datatype envelope = Not_JSON | No_type | Envelope string sig_payload

datatype chain_job = Handle envelope | Make_offer

text \<open>What follows the flush of the held candidates.\<close>

datatype after_flush = Then_answer | Then_connect

text \<open>Where the first job of the chain stands: the promise it awaits, with the locals it needs afterwards.\<close>

datatype await = At_remote_offer nat "string option" | At_remote_answer nat "string option"
  | At_flush "string option list" after_flush | At_answer | At_local_answer nat string
  | At_offer | At_local_offer nat string | At_candidate | At_failure

datatype effect = Told_phase call_phase | Told_remote_stream "nat option" | Told_local_ready
  | Told_connected | Told_failure | Granted "nat list" | Stopped nat | Enabled nat bool
  | Sent string "string option" | Opened_socket nat | Closed_socket nat | Opened_peer nat | Closed_peer nat
  | Set_remote "string option" | Described "string option" | Added_candidate "string option" | Restarted_ice
  | Reconnect_after rat

record manager =
  m_role :: call_role
  m_phase :: call_phase
  m_localStream :: "nat list option"
  m_peer :: "peer option"
  m_socket :: "nat option"
  m_socketOpen :: bool
  m_remoteCandidates :: "string option list"
  m_jobs :: "chain_job list"
  m_await :: "(await \<times> bool) option"
  m_chainBroken :: bool
  m_reconnectAttempts :: nat
  m_reconnectTimer :: bool
  m_disconnectTimer :: bool
  m_readyTimer :: bool
  m_closing :: bool
  m_connectedNotified :: bool
  m_connectedPending :: bool
  m_atMicrophone :: nat
  m_atLocalReady :: nat
  m_peers :: nat
  m_sockets :: nat
  m_log :: "effect list"

definition new_manager :: "call_role \<Rightarrow> manager" where
  "new_manager role = \<lparr>m_role = role, m_phase = Ph_idle, m_localStream = None, m_peer = None, m_socket = None,
     m_socketOpen = False, m_remoteCandidates = [], m_jobs = [], m_await = None, m_chainBroken = False,
     m_reconnectAttempts = 0, m_reconnectTimer = False, m_disconnectTimer = False, m_readyTimer = False,
     m_closing = False, m_connectedNotified = False, m_connectedPending = False, m_atMicrophone = 0,
     m_atLocalReady = 0, m_peers = 0, m_sockets = 0, m_log = []\<rparr>"

definition log_one :: "effect \<Rightarrow> manager \<Rightarrow> manager" where
  "log_one e m = m\<lparr>m_log := m_log m @ [e]\<rparr>"

definition log_all :: "effect list \<Rightarrow> manager \<Rightarrow> manager" where
  "log_all es m = m\<lparr>m_log := m_log m @ es\<rparr>"

section \<open>Phases, sending, ending\<close>

definition setPhase :: "call_phase \<Rightarrow> manager \<Rightarrow> manager" where
  "setPhase ph m = log_one (Told_phase ph) (m\<lparr>m_phase := ph\<rparr>)"

definition mgr_send :: "string \<Rightarrow> string option \<Rightarrow> manager \<Rightarrow> manager" where
  "mgr_send ty x m = (if m_socket m = None \<or> \<not> m_socketOpen m then m else log_one (Sent ty x) m)"

definition stopReadyPulse :: "manager \<Rightarrow> manager" where
  "stopReadyPulse m = m\<lparr>m_readyTimer := False\<rparr>"

definition tracks_of :: "manager \<Rightarrow> nat list" where
  "tracks_of m = (case m_localStream m of Some ts \<Rightarrow> ts | None \<Rightarrow> [])"

definition cleanup :: "manager \<Rightarrow> manager" where
  "cleanup m = (let m1 = stopReadyPulse (m\<lparr>m_closing := True\<rparr>);
     m2 = m1\<lparr>m_reconnectTimer := False, m_disconnectTimer := False\<rparr>;
     m3 = log_all (case m_socket m2 of Some n \<Rightarrow> [Closed_socket n] | None \<Rightarrow> []) (m2\<lparr>m_socket := None, m_socketOpen := False\<rparr>);
     m4 = (log_all (case m_peer m3 of Some p \<Rightarrow> [Closed_peer (pe_id p)] | None \<Rightarrow> []) m3)\<lparr>m_peer := None\<rparr>;
     m5 = (log_all (map Stopped (tracks_of m4)) m4)\<lparr>m_localStream := None, m_remoteCandidates := []\<rparr>
     in log_one (Told_remote_stream None) m5)"

definition mgr_end :: "manager \<Rightarrow> manager" where
  "mgr_end m = cleanup (setPhase Ph_ended m)"

text \<open>\<open>fail\<close> up to its await of \<open>onFailure\<close>.\<close>

definition mgr_fail :: "manager \<Rightarrow> manager" where
  "mgr_fail m = (if m_phase m = Ph_failed \<or> m_phase m = Ph_ended then m
     else log_one Told_failure (cleanup (setPhase Ph_failed m)))"

definition setMuted :: "bool \<Rightarrow> manager \<Rightarrow> manager" where
  "setMuted muted m = log_all (map (\<lambda>t. Enabled t (\<not> muted)) (tracks_of m)) m"

section \<open>Starting\<close>

definition mgr_start :: "manager \<Rightarrow> manager" where
  "mgr_start m =
     (if m_phase m \<in> {Ph_requesting_microphone, Ph_waiting, Ph_connecting, Ph_reconnecting, Ph_live} then m
      else (setPhase Ph_requesting_microphone (m\<lparr>m_closing := False\<rparr>))\<lparr>m_atMicrophone := Suc (m_atMicrophone m)\<rparr>)"

definition createPeer :: "manager \<Rightarrow> manager" where
  "createPeer m = log_one (Opened_peer (m_peers m)) (m\<lparr>m_peers := Suc (m_peers m), m_peer := Some \<lparr>pe_id = m_peers m,
     pe_signalingState = Sig_stable, pe_localDescription = None, pe_remoteDescription = None,
     pe_connectionState = Con_new\<rparr>\<rparr>)"

text \<open>\<open>getUserMedia\<close> has settled; the flag says whether \<open>createPeer\<close> succeeds.\<close>

datatype microphone = Mic_granted "nat list" bool | Mic_denied | Mic_error

definition microphone_settles :: "microphone \<Rightarrow> manager \<Rightarrow> manager" where
  "microphone_settles mic m =
     (if m_atMicrophone m = 0 then m
      else (let m' = m\<lparr>m_atMicrophone := m_atMicrophone m - 1\<rparr>
            in case mic of
                 Mic_denied \<Rightarrow> setPhase Ph_microphone_denied m'
               | Mic_error \<Rightarrow> mgr_fail m'
               | Mic_granted ts ok \<Rightarrow>
                   (let m'' = log_one (Granted ts) (m'\<lparr>m_localStream := Some ts\<rparr>)
                    in if ok then log_one Told_local_ready (createPeer m'')\<lparr>m_atLocalReady := Suc (m_atLocalReady m)\<rparr>
                       else mgr_fail m'')))"

definition openSocket :: "bool \<Rightarrow> manager \<Rightarrow> manager option" where
  "openSocket ok m =
     (if m_closing m then Some m
      else if \<not> ok then None
      else Some (log_one (Opened_socket (m_sockets m))
             (m\<lparr>m_socket := Some (m_sockets m), m_socketOpen := False, m_sockets := Suc (m_sockets m)\<rparr>)))"

text \<open>\<open>onLocalReady\<close> has settled; the flags say that it was fulfilled and that \<open>createSocket\<close> succeeds.\<close>

definition local_ready_settles :: "bool \<Rightarrow> bool \<Rightarrow> manager \<Rightarrow> manager" where
  "local_ready_settles fulfilled ok m =
     (if m_atLocalReady m = 0 then m
      else (let m' = m\<lparr>m_atLocalReady := m_atLocalReady m - 1\<rparr>
            in if \<not> fulfilled then mgr_fail m'
               else (let m'' = setPhase Ph_waiting m'
                     in case openSocket ok m'' of Some m3 \<Rightarrow> m3 | None \<Rightarrow> mgr_fail m'')))"

section \<open>The socket\<close>

definition announce :: "manager \<Rightarrow> manager" where
  "announce m = (if m_closing m \<or> (case m_peer m of Some p \<Rightarrow> pe_remoteDescription p \<noteq> None | None \<Rightarrow> False) then m
     else (mgr_send ''signal.ready'' None m)\<lparr>m_readyTimer := True\<rparr>)"

definition startReadyPulse :: "manager \<Rightarrow> manager" where
  "startReadyPulse m = announce (stopReadyPulse m)"

text \<open>An offer that was made and is still out, which the code sends again.\<close>

definition standing_offer :: "manager \<Rightarrow> string option" where
  "standing_offer m = (case m_peer m of
     Some p \<Rightarrow> if pe_signalingState p = Sig_have_local_offer then pe_localDescription p else None
   | None \<Rightarrow> None)"

definition socket_opens :: "nat \<Rightarrow> manager \<Rightarrow> manager" where
  "socket_opens n m =
     (if m_socket m \<noteq> Some n then m
      else (let m' = m\<lparr>m_socketOpen := True, m_reconnectAttempts := 0\<rparr>
            in if m_role m = Viewer then startReadyPulse m'
               else (case standing_offer m' of Some sdp \<Rightarrow> mgr_send ''signal.offer'' (Some sdp) m' | None \<Rightarrow> m')))"

definition socket_message :: "nat \<Rightarrow> envelope \<Rightarrow> manager \<Rightarrow> manager" where
  "socket_message n e m = (if m_socket m \<noteq> Some n then m else m\<lparr>m_jobs := m_jobs m @ [Handle e]\<rparr>)"

definition socket_errs :: "nat \<Rightarrow> manager \<Rightarrow> manager" where
  "socket_errs n m = log_one (Closed_socket n) (if m_socket m = Some n then m\<lparr>m_socketOpen := False\<rparr> else m)"

definition scheduleReconnect :: "rat \<Rightarrow> manager \<Rightarrow> manager" where
  "scheduleReconnect r m =
     (if m_reconnectTimer m then m
      else log_one (Reconnect_after (of_int (min 10000 (500 * 2 ^ m_reconnectAttempts m)) * (1/2 + r)))
             (m\<lparr>m_reconnectAttempts := Suc (m_reconnectAttempts m), m_reconnectTimer := True\<rparr>))"

definition socket_closes :: "nat \<Rightarrow> rat \<Rightarrow> manager \<Rightarrow> manager" where
  "socket_closes n r m =
     (if m_socket m \<noteq> Some n then m
      else (let m' = m\<lparr>m_socket := None, m_socketOpen := False\<rparr>
            in if m_closing m' then m' else scheduleReconnect r m'))"

definition reconnect_fires :: "bool \<Rightarrow> manager \<Rightarrow> manager" where
  "reconnect_fires ok m =
     (if \<not> m_reconnectTimer m then m
      else (let m' = m\<lparr>m_reconnectTimer := False\<rparr> in case openSocket ok m' of Some m'' \<Rightarrow> m'' | None \<Rightarrow> m'))"

definition ready_fires :: "manager \<Rightarrow> manager" where
  "ready_fires m = (if \<not> m_readyTimer m then m else announce (m\<lparr>m_readyTimer := False\<rparr>))"

section \<open>The connection\<close>

definition beginRecovery :: "manager \<Rightarrow> manager" where
  "beginRecovery m =
     (if m_disconnectTimer m \<or> m_closing m then m
      else (let m1 = setPhase Ph_reconnecting m;
                m2 = (if m_role m = Creator
                      then log_all (if m_peer m1 = None then [] else [Restarted_ice]) (m1\<lparr>m_jobs := m_jobs m1 @ [Make_offer]\<rparr>)
                      else m1)
            in m2\<lparr>m_disconnectTimer := True\<rparr>))"

definition connectionChanged :: "manager \<Rightarrow> manager" where
  "connectionChanged m = (case m_peer m of
     None \<Rightarrow> m
   | Some p \<Rightarrow>
       if pe_connectionState p = Con_connected
       then (let m' = setPhase Ph_live (m\<lparr>m_disconnectTimer := False\<rparr>)
             in if m_connectedNotified m' then m'
                else log_one Told_connected (m'\<lparr>m_connectedNotified := True, m_connectedPending := True\<rparr>))
       else if pe_connectionState p = Con_failed then beginRecovery m
       else if pe_connectionState p = Con_disconnected \<and> \<not> m_disconnectTimer m then beginRecovery m
       else m)"

definition connection_becomes :: "connection_state \<Rightarrow> manager \<Rightarrow> manager" where
  "connection_becomes c m = (case m_peer m of
     None \<Rightarrow> m
   | Some p \<Rightarrow> connectionChanged (m\<lparr>m_peer := Some (p\<lparr>pe_connectionState := c\<rparr>)\<rparr>))"

definition disconnect_fires :: "manager \<Rightarrow> manager" where
  "disconnect_fires m =
     (if \<not> m_disconnectTimer m then m
      else (let m' = m\<lparr>m_disconnectTimer := False\<rparr>
            in case m_peer m' of
                 Some p \<Rightarrow> if pe_connectionState p = Con_disconnected \<or> pe_connectionState p = Con_failed
                             then mgr_fail m' else m'
               | None \<Rightarrow> m'))"

definition connected_rejects :: "manager \<Rightarrow> manager" where
  "connected_rejects m = (if m_connectedPending m then mgr_fail (m\<lparr>m_connectedPending := False\<rparr>) else m)"

definition ice_candidate :: "string option \<Rightarrow> manager \<Rightarrow> manager" where
  "ice_candidate c m = (if m_peer m = None \<or> c = None then m else mgr_send ''signal.ice'' c m)"

definition track_arrives :: "nat \<Rightarrow> manager \<Rightarrow> manager" where
  "track_arrives t m = (if m_peer m = None then m else log_one (Told_remote_stream (Some t)) m)"

section \<open>The signal chain\<close>

text \<open>
  \<open>on_peer\<close> awaits a call of the present peer; without one the code awaits \<open>undefined\<close>, which is always
  fulfilled.  The flag beside an await says that there is a promise which may be rejected.
\<close>

definition on_peer :: "(nat \<Rightarrow> await) \<Rightarrow> effect list \<Rightarrow> manager \<Rightarrow> manager" where
  "on_peer w es m = (case m_peer m of
     Some p \<Rightarrow> (log_all es m)\<lparr>m_await := Some (w (pe_id p), True)\<rparr>
   | None \<Rightarrow> m\<lparr>m_await := Some (w (m_peers m), False)\<rparr>)"

definition chain_fails :: "manager \<Rightarrow> manager" where
  "chain_fails m = (if m_phase m = Ph_failed \<or> m_phase m = Ph_ended then m\<lparr>m_await := None\<rparr>
     else (mgr_fail m)\<lparr>m_await := Some (At_failure, True)\<rparr>)"

definition mgr_offer :: "manager \<Rightarrow> manager" where
  "mgr_offer m = (case m_peer m of
     None \<Rightarrow> m
   | Some p \<Rightarrow> (case standing_offer m of
       Some sdp \<Rightarrow> mgr_send ''signal.offer'' (Some sdp) m
     | None \<Rightarrow> if pe_signalingState p \<noteq> Sig_stable then m else m\<lparr>m_await := Some (At_offer, True)\<rparr>))"

definition handleSignal :: "envelope \<Rightarrow> manager \<Rightarrow> manager" where
  "handleSignal e m = (case e of
     Not_JSON \<Rightarrow> chain_fails m
   | No_type \<Rightarrow> m
   | Envelope ty payload \<Rightarrow>
       if ty = ''signal.ready'' \<and> m_role m = Creator then mgr_offer m
       else if ty = ''signal.offer'' \<and> m_role m = Viewer
       then (case payload of Not_object \<Rightarrow> chain_fails m
             | Fields sdp _ \<Rightarrow> on_peer (\<lambda>i. At_remote_offer i sdp) [Set_remote sdp] (stopReadyPulse m))
       else if ty = ''signal.answer'' \<and> m_role m = Creator
       then (case payload of Not_object \<Rightarrow> chain_fails m
             | Fields sdp _ \<Rightarrow> on_peer (\<lambda>i. At_remote_answer i sdp) [Set_remote sdp] m)
       else if ty = ''signal.ice''
       then (case payload of Not_object \<Rightarrow> chain_fails m
             | Fields _ c \<Rightarrow>
                 if (case m_peer m of Some p \<Rightarrow> pe_remoteDescription p \<noteq> None | None \<Rightarrow> False)
                 then on_peer (\<lambda>_. At_candidate) [Added_candidate c] m
                 else m\<lparr>m_remoteCandidates := m_remoteCandidates m @ [c]\<rparr>)
       else m)"

text \<open>The next job of the chain starts when the one before has finished; after a rejection it is skipped.\<close>

definition chain_runs :: "manager \<Rightarrow> manager" where
  "chain_runs m = (case (m_await m, m_jobs m) of
     (None, j # js) \<Rightarrow>
       if m_chainBroken m then chain_fails (m\<lparr>m_jobs := js, m_chainBroken := False\<rparr>)
       else (case j of Handle e \<Rightarrow> handleSignal e (m\<lparr>m_jobs := js\<rparr>) | Make_offer \<Rightarrow> mgr_offer (m\<lparr>m_jobs := js\<rparr>))
   | _ \<Rightarrow> m)"

definition flush :: "string option list \<Rightarrow> after_flush \<Rightarrow> manager \<Rightarrow> manager" where
  "flush cs k m = (case cs of
     [] \<Rightarrow> (case k of
         Then_connect \<Rightarrow> setPhase Ph_connecting (m\<lparr>m_await := None\<rparr>)
       | Then_answer \<Rightarrow> (if m_peer m = None then m\<lparr>m_await := None\<rparr> else m\<lparr>m_await := Some (At_answer, True)\<rparr>))
   | c # rest \<Rightarrow> on_peer (\<lambda>_. At_flush rest k) [Added_candidate c] m)"

text \<open>Setting a description is fulfilled: the browser changes the peer that was asked.\<close>

definition describe :: "nat \<Rightarrow> (peer \<Rightarrow> peer) \<Rightarrow> manager \<Rightarrow> manager" where
  "describe i f m = (case m_peer m of
     Some p \<Rightarrow> if pe_id p = i then m\<lparr>m_peer := Some (f p)\<rparr> else m | None \<Rightarrow> m)"

definition take_candidates :: "after_flush \<Rightarrow> manager \<Rightarrow> manager" where
  "take_candidates k m = flush (m_remoteCandidates m) k (m\<lparr>m_remoteCandidates := []\<rparr>)"

definition send_description :: "string \<Rightarrow> manager \<Rightarrow> manager" where
  "send_description ty m = (case m_peer m of
     None \<Rightarrow> chain_fails m
   | Some p \<Rightarrow> setPhase Ph_connecting ((mgr_send ty (pe_localDescription p) m)\<lparr>m_await := None\<rparr>))"

definition resume :: "await \<Rightarrow> string \<Rightarrow> manager \<Rightarrow> manager" where
  "resume w v m = (case w of
     At_remote_offer i sdp \<Rightarrow> take_candidates Then_answer (log_one (Described sdp)
       (describe i (\<lambda>p. p\<lparr>pe_remoteDescription := Some (case sdp of Some x \<Rightarrow> x | None \<Rightarrow> []),
          pe_signalingState := Sig_have_remote_offer\<rparr>) m))
   | At_remote_answer i sdp \<Rightarrow> take_candidates Then_connect (log_one (Described sdp)
       (describe i (\<lambda>p. p\<lparr>pe_remoteDescription := Some (case sdp of Some x \<Rightarrow> x | None \<Rightarrow> []),
          pe_signalingState := Sig_stable\<rparr>) m))
   | At_flush cs k \<Rightarrow> flush cs k m
   | At_answer \<Rightarrow> (if m_peer m = None then m\<lparr>m_await := None\<rparr> else on_peer (\<lambda>i. At_local_answer i v) [] m)
   | At_local_answer i sdp \<Rightarrow> send_description ''signal.answer'' (describe i (\<lambda>p. p\<lparr>pe_localDescription := Some sdp,
       pe_signalingState := Sig_stable\<rparr>) m)
   | At_offer \<Rightarrow> (if m_peer m = None then chain_fails m else on_peer (\<lambda>i. At_local_offer i v) [] m)
   | At_local_offer i sdp \<Rightarrow> send_description ''signal.offer'' (describe i (\<lambda>p. p\<lparr>pe_localDescription := Some sdp,
       pe_signalingState := Sig_have_local_offer\<rparr>) m)
   | At_candidate \<Rightarrow> m\<lparr>m_await := None\<rparr>
   | At_failure \<Rightarrow> m\<lparr>m_await := None\<rparr>)"

text \<open>The awaited promise settles: \<open>Some v\<close> when fulfilled (with a description, where one was asked for).\<close>

definition chain_settles :: "string option \<Rightarrow> manager \<Rightarrow> manager" where
  "chain_settles outcome m = (case m_await m of
     None \<Rightarrow> m
   | Some (w, may_reject) \<Rightarrow> (case outcome of
       Some v \<Rightarrow> resume w v m
     | None \<Rightarrow> if \<not> may_reject then resume w [] m
                else if w = At_failure then m\<lparr>m_await := None, m_chainBroken := True\<rparr>
                else chain_fails m))"

section \<open>What may happen\<close>

datatype happening = Start | End | Mute bool | Microphone microphone | Local_ready bool bool | Socket_opens nat
  | Socket_message nat envelope | Socket_errs nat | Socket_closing nat | Socket_closes nat rat | Reconnect_fires bool
  | Ready_fires | Connection connection_state | Disconnect_fires | Connected_rejects | Ice_candidate "string option"
  | Track nat | Chain_runs | Chain_settles "string option"

fun happens :: "happening \<Rightarrow> manager \<Rightarrow> manager" where
  "happens Start m = mgr_start m"
| "happens End m = mgr_end m"
| "happens (Mute b) m = setMuted b m"
| "happens (Microphone x) m = microphone_settles x m"
| "happens (Local_ready b ok) m = local_ready_settles b ok m"
| "happens (Socket_opens n) m = socket_opens n m"
| "happens (Socket_message n e) m = socket_message n e m"
| "happens (Socket_errs n) m = socket_errs n m"
| "happens (Socket_closing n) m = (if m_socket m = Some n then m\<lparr>m_socketOpen := False\<rparr> else m)"
| "happens (Socket_closes n r) m = socket_closes n r m"
| "happens (Reconnect_fires ok) m = reconnect_fires ok m"
| "happens Ready_fires m = ready_fires m"
| "happens (Connection c) m = connection_becomes c m"
| "happens Disconnect_fires m = disconnect_fires m"
| "happens Connected_rejects m = connected_rejects m"
| "happens (Ice_candidate c) m = ice_candidate c m"
| "happens (Track t) m = track_arrives t m"
| "happens Chain_runs m = chain_runs m"
| "happens (Chain_settles out) m = chain_settles out m"

definition mgr_run :: "call_role \<Rightarrow> happening list \<Rightarrow> manager" where
  "mgr_run role es = fold happens es (new_manager role)"

end
