(* ===== verification/Manager_Properties.thy ===== *)
theory Manager_Properties
  imports Call_Manager
begin

text \<open>
  What a call leaves behind when it is over: nothing, unless it is ended while its microphone is
  still being asked for.
\<close>

section \<open>What is open\<close>

text \<open>The tracks that were granted and not stopped since, and the peer connections that were opened and not closed.\<close>

definition on_air1 :: "effect \<Rightarrow> nat set \<Rightarrow> nat set" where
  "on_air1 e S = (case e of Granted ts \<Rightarrow> S \<union> set ts | Stopped t \<Rightarrow> S - {t} | _ \<Rightarrow> S)"

definition open1 :: "effect \<Rightarrow> nat set \<Rightarrow> nat set" where
  "open1 e S = (case e of Opened_peer i \<Rightarrow> insert i S | Closed_peer i \<Rightarrow> S - {i} | _ \<Rightarrow> S)"

definition on_air :: "manager \<Rightarrow> nat set" where
  "on_air m = fold on_air1 (m_log m) {}"

definition open_peers :: "manager \<Rightarrow> nat set" where
  "open_peers m = fold open1 (m_log m) {}"

definition starting :: "manager \<Rightarrow> bool" where
  "starting m \<longleftrightarrow> m_atMicrophone m + m_atLocalReady m > 0"

definition released :: "manager \<Rightarrow> bool" where
  "released m \<longleftrightarrow> m_localStream m = None \<and> m_peer m = None \<and> m_socket m = None \<and>
     \<not> m_reconnectTimer m \<and> \<not> m_disconnectTimer m \<and> \<not> m_readyTimer m"

text \<open>No step of the run closes the manager while a start is still under way.\<close>

fun undisturbed :: "manager \<Rightarrow> happening list \<Rightarrow> bool" where
  "undisturbed m [] \<longleftrightarrow> True"
| "undisturbed m (e # es) \<longleftrightarrow> \<not> (starting (happens e m) \<and> m_closing (happens e m)) \<and> undisturbed (happens e m) es"

definition settled_phases :: "call_phase set" where
  "settled_phases = {Ph_idle, Ph_microphone_denied, Ph_failed, Ph_ended}"

definition holds_ok :: "manager \<Rightarrow> bool" where
  "holds_ok m \<longleftrightarrow> on_air m = set (tracks_of m) \<and> open_peers m = (case m_peer m of Some p \<Rightarrow> {pe_id p} | None \<Rightarrow> {}) \<and>
     (m_closing m \<longrightarrow> released m \<and> \<not> starting m) \<and>
     (m_atMicrophone m > 0 \<longrightarrow> m_localStream m = None \<and> m_peer m = None \<and> m_atLocalReady m = 0 \<and> m_atMicrophone m = 1) \<and>
     (m_phase m \<in> settled_phases \<longrightarrow> m_localStream m = None \<and> m_peer m = None \<and> \<not> starting m) \<and>
     (m_phase m \<in> {Ph_failed, Ph_ended} \<longrightarrow> m_closing m)"

lemma fold_on_air_map_Stopped: "fold on_air1 (map Stopped ts) S = S - set ts"
  by (induction ts arbitrary: S) (auto simp: on_air1_def)

lemma fold_open_map_Stopped: "fold open1 (map Stopped ts) S = S"
  by (induction ts) (auto simp: open1_def)

lemma fold_on_air_map_Enabled: "fold on_air1 (map (\<lambda>t. Enabled t b) ts) S = S"
  by (induction ts) (auto simp: on_air1_def)

lemma fold_open_map_Enabled: "fold open1 (map (\<lambda>t. Enabled t b) ts) S = S"
  by (induction ts) (auto simp: open1_def)

lemmas holds_simps = on_air_def open_peers_def on_air1_def open1_def log_one_def log_all_def setPhase_def tracks_of_def
  fold_on_air_map_Stopped fold_open_map_Stopped fold_on_air_map_Enabled fold_open_map_Enabled stopReadyPulse_def

text \<open>A step that leaves what is held and the start alone.\<close>

definition idles :: "manager \<Rightarrow> manager \<Rightarrow> bool" where
  "idles m m' \<longleftrightarrow> m_localStream m' = m_localStream m \<and> map_option pe_id (m_peer m') = map_option pe_id (m_peer m) \<and>
     on_air m' = on_air m \<and> open_peers m' = open_peers m \<and> m_closing m' = m_closing m \<and>
     m_atMicrophone m' = m_atMicrophone m \<and> m_atLocalReady m' = m_atLocalReady m \<and>
     (m_phase m' = m_phase m \<or> m_phase m' \<notin> settled_phases) \<and>
     (m_closing m \<longrightarrow> released m \<longrightarrow> released m')"

lemma idles_refl [simp]: "idles m m"
  by (simp add: idles_def)

lemma idles_trans: "idles a b \<Longrightarrow> idles b c \<Longrightarrow> idles a c"
  by (auto simp: idles_def)

lemma idles_keeps: "holds_ok m \<Longrightarrow> idles m m' \<Longrightarrow> holds_ok m'"
  by (cases "m_peer m"; cases "m_peer m'") (auto simp: holds_ok_def idles_def starting_def tracks_of_def settled_phases_def)

lemma holds_cleanup:
  assumes "holds_ok m" "\<not> starting m"
  shows "holds_ok (cleanup (setPhase ph m))"
  using assms by (cases "m_peer m"; cases "m_socket m"; cases "m_localStream m")
    (auto simp: holds_ok_def cleanup_def Let_def holds_simps released_def starting_def)

lemma starting_cleanup [simp]: "starting (cleanup (setPhase ph m)) = starting m"
  by (auto simp: cleanup_def Let_def holds_simps starting_def)

lemma closing_cleanup [simp]: "m_closing (cleanup m)"
  by (simp add: cleanup_def Let_def holds_simps)

lemma idles_log: "e \<notin> range Granted \<union> range Stopped \<union> range Opened_peer \<union> range Closed_peer \<Longrightarrow> idles m (log_one e m)"
  by (cases e) (auto simp: idles_def holds_simps released_def)

lemma holds_fail:
  assumes "holds_ok m" "\<not> (starting (mgr_fail m) \<and> m_closing (mgr_fail m))"
  shows "holds_ok (mgr_fail m)"
proof (cases "m_phase m = Ph_failed \<or> m_phase m = Ph_ended")
  case False
  then have f: "mgr_fail m = log_one Told_failure (cleanup (setPhase Ph_failed m))" by (simp add: mgr_fail_def)
  then have "\<not> starting m" using assms(2) by (auto simp: log_one_def starting_def cleanup_def Let_def holds_simps)
  then show ?thesis unfolding f
    by (intro idles_keeps [OF holds_cleanup [OF assms(1)] idles_log]) auto
qed (simp add: mgr_fail_def assms)

section \<open>Every step keeps it\<close>

lemma idles_fields [simp]:
  "idles m (m\<lparr>m_await := a\<rparr>)" "idles m (m\<lparr>m_jobs := j\<rparr>)" "idles m (m\<lparr>m_remoteCandidates := c\<rparr>)"
  "idles m (m\<lparr>m_socketOpen := b\<rparr>)" "idles m (m\<lparr>m_chainBroken := b\<rparr>)" "idles m (m\<lparr>m_await := a, m_chainBroken := b\<rparr>)"
  "idles m (m\<lparr>m_jobs := j, m_chainBroken := b\<rparr>)" "idles m (m\<lparr>m_connectedPending := b\<rparr>)"
  "idles m (m\<lparr>m_reconnectTimer := False\<rparr>)" "idles m (m\<lparr>m_disconnectTimer := False\<rparr>)" "idles m (m\<lparr>m_readyTimer := False\<rparr>)"
  by (auto simp: idles_def on_air_def open_peers_def released_def)

lemma idles_setPhase: "ph \<notin> settled_phases \<Longrightarrow> idles m (setPhase ph m)"
  by (auto simp: idles_def holds_simps released_def)

lemma idles_send [simp]: "idles m (mgr_send ty x m)"
  by (auto simp: mgr_send_def intro: idles_log)

lemma idles_describe: "(\<And>p. pe_id (f p) = pe_id p) \<Longrightarrow> idles m (describe i f m)"
  by (cases "m_peer m") (auto simp: describe_def idles_def on_air_def open_peers_def released_def)

lemma idles_announce: "idles m (announce m)"
  by (auto simp: announce_def mgr_send_def idles_def holds_simps released_def split: option.splits)

lemma idles_on_peer: "set es \<subseteq> range Set_remote \<union> range Added_candidate \<Longrightarrow> idles m (on_peer w es m)"
proof -
  assume es: "set es \<subseteq> range Set_remote \<union> range Added_candidate"
  then have "fold on_air1 es S = S" "fold open1 es S = S" for S
    by (induction es arbitrary: S) (auto simp: on_air1_def open1_def)
  then show ?thesis
    by (cases "m_peer m") (auto simp: on_peer_def idles_def on_air_def open_peers_def log_all_def released_def)
qed

lemma idles_flush: "idles m (flush cs k m)"
proof (cases cs)
  case Nil
  have "idles m (setPhase Ph_connecting (m\<lparr>m_await := None\<rparr>))"
    by (rule idles_trans [OF idles_fields(1) idles_setPhase]) (simp add: settled_phases_def)
  then show ?thesis by (cases k) (simp_all add: flush_def Nil)
next
  case (Cons c rest)
  then show ?thesis by (simp add: flush_def idles_on_peer)
qed

lemma idles_take: "idles m (take_candidates k m)"
  unfolding take_candidates_def by (rule idles_trans [OF idles_fields(3) idles_flush])

lemma idles_offer: "idles m (mgr_offer m)"
  by (simp add: mgr_offer_def split: option.splits)

lemma holds_chain_fails:
  assumes "holds_ok m" "\<not> (starting (chain_fails m) \<and> m_closing (chain_fails m))"
  shows "holds_ok (chain_fails m)"
proof (cases "m_phase m = Ph_failed \<or> m_phase m = Ph_ended")
  case True
  then show ?thesis using assms(1) by (auto simp: chain_fails_def intro: idles_keeps)
next
  case False
  then have c: "chain_fails m = (mgr_fail m)\<lparr>m_await := Some (At_failure, True)\<rparr>" by (simp add: chain_fails_def)
  then have "holds_ok (mgr_fail m)" using assms by (intro holds_fail) (auto simp: starting_def)
  then show ?thesis unfolding c by (rule idles_keeps) simp
qed

lemma holds_send_description:
  assumes "holds_ok m" "\<not> (starting (send_description ty m) \<and> m_closing (send_description ty m))"
  shows "holds_ok (send_description ty m)"
proof (cases "m_peer m")
  case None
  then show ?thesis using assms by (simp add: send_description_def holds_chain_fails)
next
  case (Some p)
  have "idles m (setPhase Ph_connecting ((mgr_send ty (pe_localDescription p) m)\<lparr>m_await := None\<rparr>))"
    by (intro idles_trans [OF idles_trans [OF idles_send idles_fields(1)] idles_setPhase]) (simp add: settled_phases_def)
  then show ?thesis using assms(1) Some by (auto simp: send_description_def intro: idles_keeps)
qed

lemma holds_handleSignal:
  assumes "holds_ok m" "\<not> (starting (handleSignal e m) \<and> m_closing (handleSignal e m))"
  shows "holds_ok (handleSignal e m)"
proof -
  have "handleSignal e m = chain_fails m \<or> idles m (handleSignal e m)"
    by (cases e) (auto simp: handleSignal_def stopReadyPulse_def idles_offer
      intro!: idles_on_peer idles_trans [OF idles_fields(11) idles_on_peer] split: sig_payload.splits)
  then show ?thesis using assms by (metis holds_chain_fails idles_keeps)
qed

lemma holds_chain_runs:
  assumes "holds_ok m" "\<not> (starting (chain_runs m) \<and> m_closing (chain_runs m))"
  shows "holds_ok (chain_runs m)"
proof (cases "m_jobs m")
  case Nil
  then show ?thesis using assms(1) by (simp add: chain_runs_def split: option.splits)
next
  case (Cons j js)
  show ?thesis
  proof (cases "m_await m")
    case None
    have "idles m (mgr_offer (m\<lparr>m_jobs := js\<rparr>))" by (rule idles_trans [OF idles_fields(2) idles_offer])
    then show ?thesis
      using assms Cons None idles_keeps [OF assms(1) idles_fields(2)] idles_keeps [OF assms(1) idles_fields(7)]
      by (cases j) (auto simp: chain_runs_def split: if_splits
        intro: holds_chain_fails holds_handleSignal idles_keeps)
  qed (use assms Cons in \<open>simp add: chain_runs_def\<close>)
qed

lemma holds_resume:
  assumes "holds_ok m" "\<not> (starting (resume w v m) \<and> m_closing (resume w v m))"
  shows "holds_ok (resume w v m)"
proof -
  have d: "idles m (take_candidates k (log_one (Described sdp) (describe i f m)))" if "\<And>p. pe_id (f p) = pe_id p" for k sdp i f
    by (intro idles_trans [OF idles_describe [OF that] idles_trans [OF idles_log idles_take]]) auto
  show ?thesis
  proof (cases w)
    case (At_local_answer i sdp)
    then show ?thesis using assms
      by (simp add: resume_def holds_send_description idles_keeps [OF assms(1) idles_describe])
  next
    case (At_local_offer i sdp)
    then show ?thesis using assms
      by (simp add: resume_def holds_send_description idles_keeps [OF assms(1) idles_describe])
  next
    case At_offer
    then show ?thesis using assms idles_keeps [OF assms(1) idles_on_peer]
      by (auto simp: resume_def holds_chain_fails)
  next
    case At_answer
    then show ?thesis using assms idles_keeps [OF assms(1) idles_on_peer] idles_keeps [OF assms(1) idles_fields(1)]
      by (auto simp: resume_def)
  qed (use assms idles_keeps [OF assms(1) d] idles_keeps [OF assms(1) idles_flush]
       idles_keeps [OF assms(1) idles_fields(1)] in \<open>auto simp: resume_def\<close>)
qed

lemma holds_chain_settles:
  assumes "holds_ok m" "\<not> (starting (chain_settles out m) \<and> m_closing (chain_settles out m))"
  shows "holds_ok (chain_settles out m)"
  using assms
  by (auto simp: chain_settles_def holds_resume holds_chain_fails idles_keeps [OF assms(1) idles_fields(6)]
      split: option.splits if_splits)

lemma holds_start: "holds_ok m \<Longrightarrow> holds_ok (mgr_start m)"
  by (cases "m_phase m") (auto simp: mgr_start_def holds_ok_def holds_simps starting_def settled_phases_def)

lemma holds_end:
  assumes "holds_ok m" "\<not> (starting (mgr_end m) \<and> m_closing (mgr_end m))"
  shows "holds_ok (mgr_end m)"
  using assms by (simp add: mgr_end_def holds_cleanup)

lemma idles_mute: "idles m (setMuted b m)"
  by (auto simp: setMuted_def idles_def holds_simps released_def)

lemma holds_microphone:
  assumes "holds_ok m" "\<not> (starting (microphone_settles x m) \<and> m_closing (microphone_settles x m))"
  shows "holds_ok (microphone_settles x m)"
proof (cases "m_atMicrophone m = 0")
  case False
  let ?m = "m\<lparr>m_atMicrophone := m_atMicrophone m - 1\<rparr>"
  have b: "m_localStream m = None" "m_peer m = None" "m_atLocalReady m = 0" "m_atMicrophone m = 1" "\<not> m_closing m"
    "m_phase m \<notin> settled_phases" "on_air m = {}" "open_peers m = {}"
    using assms(1) False by (auto simp: holds_ok_def starting_def tracks_of_def)
  then have m: "holds_ok ?m"
    using assms(1) by (auto simp: holds_ok_def starting_def tracks_of_def on_air_def open_peers_def)
  show ?thesis
  proof (cases x)
    case (Mic_granted ts ok)
    have g: "holds_ok (log_one (Granted ts) (?m\<lparr>m_localStream := Some ts\<rparr>))"
      using m b by (auto simp: holds_ok_def holds_simps starting_def settled_phases_def)
    show ?thesis
    proof (cases ok)
      case True
      then show ?thesis using False b Mic_granted
        by (auto simp: microphone_settles_def Let_def createPeer_def holds_ok_def holds_simps starting_def settled_phases_def)
    next
      case False
      then show ?thesis using g assms(2) Mic_granted \<open>m_atMicrophone m \<noteq> 0\<close>
        by (auto simp: microphone_settles_def Let_def intro: holds_fail)
    qed
  next
    case Mic_denied
    then show ?thesis using False b
      by (auto simp: microphone_settles_def Let_def holds_ok_def holds_simps starting_def settled_phases_def)
  next
    case Mic_error
    then show ?thesis using m assms(2) False by (auto simp: microphone_settles_def Let_def intro: holds_fail)
  qed
qed (use assms in \<open>simp add: microphone_settles_def\<close>)

lemma idles_openSocket: "openSocket ok m = Some m' \<Longrightarrow> idles m m'"
  by (auto simp: openSocket_def idles_def holds_simps released_def split: if_splits)

lemma holds_local_ready:
  assumes "holds_ok m" "\<not> (starting (local_ready_settles b ok m) \<and> m_closing (local_ready_settles b ok m))"
  shows "holds_ok (local_ready_settles b ok m)"
proof (cases "m_atLocalReady m = 0")
  case False
  let ?m = "m\<lparr>m_atLocalReady := m_atLocalReady m - 1\<rparr>"
  have m: "holds_ok ?m" using assms(1) False
    by (auto simp: holds_ok_def starting_def tracks_of_def on_air_def open_peers_def released_def)
  have w: "holds_ok (setPhase Ph_waiting ?m)"
    by (rule idles_keeps [OF m idles_setPhase]) (simp add: settled_phases_def)
  have r: "local_ready_settles b ok m = (if \<not> b then mgr_fail ?m else
      case openSocket ok (setPhase Ph_waiting ?m) of Some m3 \<Rightarrow> m3 | None \<Rightarrow> mgr_fail (setPhase Ph_waiting ?m))"
    using False by (simp only: local_ready_settles_def Let_def if_False)
  show ?thesis
  proof (cases "b \<and> openSocket ok (setPhase Ph_waiting ?m) \<noteq> None")
    case True
    then show ?thesis unfolding r using idles_keeps [OF w idles_openSocket] by auto
  next
    case False
    then consider "local_ready_settles b ok m = mgr_fail ?m"
      | "local_ready_settles b ok m = mgr_fail (setPhase Ph_waiting ?m)"
      unfolding r by (cases b) auto
    then show ?thesis
      using holds_fail [OF m] holds_fail [OF w] assms(2) by cases metis+
  qed
qed (use assms in \<open>simp add: local_ready_settles_def\<close>)

lemma idles_socket:
  "idles m (socket_opens n m)" "idles m (socket_message n e m)" "idles m (socket_errs n m)"
  "idles m (socket_closes n r m)" "idles m (reconnect_fires ok m)" "idles m (ready_fires m)"
proof -
  have reset: "idles m (m\<lparr>m_socketOpen := b, m_reconnectAttempts := k\<rparr>)" for b k
    by (auto simp: idles_def on_air_def open_peers_def released_def)
  have pulse: "idles m (startReadyPulse m)" for m
    unfolding startReadyPulse_def stopReadyPulse_def by (rule idles_trans [OF idles_fields(11) idles_announce])
  show "idles m (socket_opens n m)"
    by (auto simp: socket_opens_def Let_def intro: idles_trans [OF reset pulse] idles_trans [OF reset idles_send] reset
        split: option.splits)
  show "idles m (socket_message n e m)" by (simp add: socket_message_def)
  have "idles m (log_one (Closed_socket n) m)" for m by (rule idles_log) auto
  then show "idles m (socket_errs n m)"
    unfolding socket_errs_def by (cases "m_socket m = Some n") (auto intro: idles_trans [OF idles_fields(4) [where b = False]])
  show "idles m (socket_closes n r m)"
    by (auto simp: socket_closes_def scheduleReconnect_def Let_def idles_def holds_simps released_def)
  show "idles m (reconnect_fires ok m)"
    by (auto simp: reconnect_fires_def Let_def split: option.splits intro: idles_trans [OF idles_fields(9) idles_openSocket])
  show "idles m (ready_fires m)"
    unfolding ready_fires_def using idles_trans [OF idles_fields(11) idles_announce] by simp
qed

lemma idles_recovery: "idles m (beginRecovery m)"
  by (auto simp: beginRecovery_def Let_def idles_def holds_simps released_def settled_phases_def)

lemma idles_connection: "idles m (connection_becomes c m)"
proof (cases "m_peer m")
  case (Some p)
  let ?m = "m\<lparr>m_peer := Some (p\<lparr>pe_connectionState := c\<rparr>)\<rparr>"
  have m: "idles m ?m" using Some by (auto simp: idles_def on_air_def open_peers_def released_def)
  have "idles ?m (connectionChanged ?m)"
    by (auto simp: connectionChanged_def Let_def idles_recovery)
      (auto simp: idles_def holds_simps released_def settled_phases_def)
  then show ?thesis using idles_trans [OF m] Some by (simp add: connection_becomes_def)
qed (simp add: connection_becomes_def)

lemma holds_disconnect:
  assumes "holds_ok m" "\<not> (starting (disconnect_fires m) \<and> m_closing (disconnect_fires m))"
  shows "holds_ok (disconnect_fires m)"
  using assms idles_keeps [OF assms(1) idles_fields(10)]
  by (auto simp: disconnect_fires_def Let_def holds_fail split: option.splits if_splits)

lemma holds_rejects:
  assumes "holds_ok m" "\<not> (starting (connected_rejects m) \<and> m_closing (connected_rejects m))"
  shows "holds_ok (connected_rejects m)"
  using assms idles_keeps [OF assms(1) idles_fields(8)]
  by (auto simp: connected_rejects_def holds_fail split: if_splits)

lemma holds_happens:
  assumes "holds_ok m" "\<not> (starting (happens e m) \<and> m_closing (happens e m))"
  shows "holds_ok (happens e m)"
proof -
  have track: "idles m (track_arrives t m)" for t by (auto simp: track_arrives_def intro: idles_log)
  have ice: "idles m (ice_candidate c m)" for c by (simp add: ice_candidate_def)
  show ?thesis
    using assms idles_keeps [OF assms(1)]
    by (cases e) (auto simp: holds_start holds_end idles_mute holds_microphone holds_local_ready idles_socket
      idles_connection holds_disconnect holds_rejects ice track holds_chain_runs holds_chain_settles)
qed

lemma holds_run: "holds_ok m \<Longrightarrow> undisturbed m es \<Longrightarrow> holds_ok (fold happens es m)"
  by (induction es arbitrary: m) (simp_all add: holds_happens)

lemma holds_new: "holds_ok (new_manager role)"
  by (simp add: holds_ok_def new_manager_def on_air_def open_peers_def tracks_of_def starting_def settled_phases_def)


definition demo_session :: "happening list" where
  "demo_session = [Start, Microphone (Mic_granted [7] True), Local_ready True True, Socket_opens 0,
     Socket_message 0 (Envelope ''signal.ice'' (Fields None (Some ''a''))), Chain_runs,
     Socket_message 0 (Envelope ''signal.offer'' (Fields (Some ''offer'') None)), Chain_runs,
     Socket_message 0 (Envelope ''signal.ice'' (Fields None (Some ''b''))),
     Chain_settles (Some []), Chain_settles (Some []), Chain_settles (Some ''answer''), Chain_settles (Some []),
     Chain_runs, Chain_settles (Some []), Connection Con_connected, Connection Con_disconnected]"


text \<open>
  The exception is real: a call that is ended while the browser asks for the microphone records for good.  The
  permission comes later; for the creator the backend then refuses to move an ended call, and \<open>fail\<close>
  does nothing in a call that has ended.
\<close>

lemma microphone_stays_on:
  "let m = mgr_run Creator [Start, End, Microphone (Mic_granted [7] True), Local_ready False True]
   in m_phase m = Ph_ended \<and> on_air m = {7} \<and> open_peers m = {0} \<and> \<not> starting m"
  by code_simp

end
