(* ===== verification/Candidate_Order.thy ===== *)
theory Candidate_Order
  imports Manager_Properties "HOL-Library.Sublist"
begin

text \<open>
  What becomes of the other browser's candidates, whatever happens between the awaits of the signal chain: each is
  added to the connection once, in order, after a description of the other side.
\<close>

section \<open>Candidates of the other browser\<close>

text \<open>The candidates that reach the manager: those of the messages its present socket delivers.\<close>

definition candidates_of :: "envelope \<Rightarrow> string option list" where
  "candidates_of e = (case e of
     Envelope ty (Fields _ c) \<Rightarrow> if ty = ''signal.ice'' then [c] else [] | _ \<Rightarrow> [])"

definition heard_now :: "manager \<Rightarrow> happening \<Rightarrow> string option list" where
  "heard_now m e = (case e of
     Socket_message n x \<Rightarrow> if m_socket m = Some n then candidates_of x else [] | _ \<Rightarrow> [])"

fun heard :: "manager \<Rightarrow> happening list \<Rightarrow> string option list" where
  "heard m [] = []"
| "heard m (e # es) = heard_now m e @ heard (happens e m) es"

definition added1 :: "effect \<Rightarrow> string option list" where
  "added1 e = (case e of Added_candidate c \<Rightarrow> [c] | _ \<Rightarrow> [])"

definition added :: "manager \<Rightarrow> string option list" where
  "added m = concat (map added1 (m_log m))"

definition in_flight :: "manager \<Rightarrow> string option list" where
  "in_flight m = (case m_await m of Some (At_flush cs k, b) \<Rightarrow> cs | _ \<Rightarrow> [])"

definition queued1 :: "chain_job \<Rightarrow> string option list" where
  "queued1 j = (case j of Handle e \<Rightarrow> candidates_of e | Make_offer \<Rightarrow> [])"

definition queued :: "manager \<Rightarrow> string option list" where
  "queued m = concat (map queued1 (m_jobs m))"

definition described :: "manager \<Rightarrow> bool" where
  "described m \<longleftrightarrow> (case m_peer m of Some p \<Rightarrow> pe_remoteDescription p \<noteq> None | None \<Rightarrow> False)"

definition is_described :: "effect \<Rightarrow> bool" where
  "is_described e \<longleftrightarrow> (case e of Described _ \<Rightarrow> True | _ \<Rightarrow> False)"

text \<open>Nothing is added in the log before the first description.\<close>

definition described_first :: "manager \<Rightarrow> bool" where
  "described_first m \<longleftrightarrow> concat (map added1 (takeWhile (\<lambda>e. \<not> is_described e) (m_log m))) = []"

definition everything :: "manager \<Rightarrow> string option list" where
  "everything m = added m @ in_flight m @ m_remoteCandidates m @ queued m"

text \<open>The await at which a description is being set, whose locals name the peer.\<close>

definition at_remote :: "manager \<Rightarrow> nat option" where
  "at_remote m = (case m_await m of Some (At_remote_offer i _, _) \<Rightarrow> Some i | Some (At_remote_answer i _, _) \<Rightarrow> Some i | _ \<Rightarrow> None)"

definition flushing :: "manager \<Rightarrow> bool" where
  "flushing m \<longleftrightarrow> (case m_await m of Some (At_flush _ _, _) \<Rightarrow> True | _ \<Rightarrow> False)"

definition ice_ok :: "manager \<Rightarrow> bool" where
  "ice_ok m \<longleftrightarrow> m_closing m \<or>
     (m_phase m \<notin> {Ph_failed, Ph_ended} \<and> described_first m \<and>
     (m_peer m \<noteq> None \<longrightarrow> m_atMicrophone m = 0) \<and> m_atMicrophone m \<le> 1 \<and>
     (m_peer m = None \<longrightarrow> m_socket m = None \<and> \<not> m_reconnectTimer m \<and> m_atLocalReady m = 0 \<and> m_jobs m = [] \<and>
        m_await m = None \<and> m_remoteCandidates m = []) \<and>
     (at_remote m \<noteq> None \<longrightarrow> at_remote m = map_option pe_id (m_peer m)) \<and>
     (\<not> described m \<longrightarrow> added m = [] \<and> in_flight m = [] \<and> \<not> flushing m) \<and>
     (described m \<longrightarrow> (\<exists>e\<in>set (m_log m). is_described e) \<and> (at_remote m = None \<longrightarrow> m_remoteCandidates m = [])))"

definition keeps_ice :: "manager \<Rightarrow> manager \<Rightarrow> bool" where
  "keeps_ice m m' \<longleftrightarrow> (ice_ok m \<longrightarrow> ice_ok m' \<and> (m_closing m \<longrightarrow> m_closing m') \<and> (m_closing m' \<or> everything m' = everything m))"

lemma keeps_ice_refl [simp]: "keeps_ice m m"
  by (simp add: keeps_ice_def)

lemma keeps_ice_trans: "keeps_ice a b \<Longrightarrow> keeps_ice b c \<Longrightarrow> keeps_ice a c"
  by (auto simp: keeps_ice_def)

lemma keeps_ice_closing: "m_closing m' \<Longrightarrow> keeps_ice m m'"
  by (simp add: keeps_ice_def ice_ok_def)

lemma keeps_ice_alike:
  assumes "ice_ok m \<Longrightarrow> \<not> m_closing m \<Longrightarrow> \<not> m_closing m' \<Longrightarrow> ice_ok m' \<and> everything m' = everything m"
    and "m_closing m \<Longrightarrow> m_closing m'"
  shows "keeps_ice m m'"
  using assms by (auto simp: keeps_ice_def) (auto simp: ice_ok_def)

lemma keeps_ice_fail: "keeps_ice m (mgr_fail m)"
  by (auto simp: mgr_fail_def log_one_def intro: keeps_ice_closing)

lemma keeps_ice_chain_fails: "keeps_ice m (chain_fails m)"
proof (cases "m_phase m = Ph_failed \<or> m_phase m = Ph_ended")
  case True
  then show ?thesis by (auto simp: chain_fails_def keeps_ice_def ice_ok_def)
next
  case False
  then have "m_closing (chain_fails m)" by (simp add: chain_fails_def mgr_fail_def log_one_def)
  then show ?thesis by (rule keeps_ice_closing)
qed

lemmas ice_simps = flushing_def ice_ok_def everything_def added_def in_flight_def queued_def described_def at_remote_def

lemma described_first_cong: "m_log m' = m_log m \<Longrightarrow> described_first m' = described_first m"
  by (simp add: described_first_def)

lemma keeps_ice_fields [simp]:
  "keeps_ice m (m\<lparr>m_chainBroken := b\<rparr>)" "keeps_ice m (m\<lparr>m_socketOpen := b\<rparr>)" "keeps_ice m (m\<lparr>m_connectedPending := b\<rparr>)"
  "keeps_ice m (m\<lparr>m_readyTimer := b\<rparr>)" "keeps_ice m (m\<lparr>m_disconnectTimer := b\<rparr>)" "keeps_ice m (m\<lparr>m_reconnectTimer := False\<rparr>)"
  "keeps_ice m (m\<lparr>m_socketOpen := b, m_reconnectAttempts := k\<rparr>)"
  "keeps_ice m (m\<lparr>m_connectedNotified := b, m_connectedPending := c\<rparr>)"
  by (auto intro!: keeps_ice_alike simp: ice_simps described_first_def split: option.splits)

lemma keeps_ice_log:
  assumes "added1 e = []"
  shows "keeps_ice m (log_one e m)"
  by (rule keeps_ice_alike)
    (use assms in \<open>auto simp: ice_simps log_one_def described_first_def takeWhile_append split: option.splits\<close>)

lemma keeps_ice_phase:
  assumes "ph \<notin> {Ph_failed, Ph_ended}"
  shows "keeps_ice m (setPhase ph m)"
proof -
  have "keeps_ice m (m\<lparr>m_phase := ph\<rparr>)"
    by (rule keeps_ice_alike) (use assms in \<open>auto simp: ice_simps described_first_def split: option.splits\<close>)
  then show ?thesis
    unfolding setPhase_def by (rule keeps_ice_trans) (simp add: keeps_ice_log added1_def)
qed

lemma keeps_ice_send [simp]: "keeps_ice m (mgr_send ty x m)"
  by (simp add: mgr_send_def keeps_ice_log added1_def)

text \<open>The await of the chain moves on: what is in flight and the peer asked for a description stay as they were.\<close>

lemma keeps_ice_await:
  assumes "in_flight (m\<lparr>m_await := w\<rparr>) = in_flight m" "at_remote (m\<lparr>m_await := w\<rparr>) = None" "at_remote m = None"
    and "\<not> flushing (m\<lparr>m_await := w\<rparr>)"
    and "w \<noteq> None \<Longrightarrow> m_peer m \<noteq> None"
  shows "keeps_ice m (m\<lparr>m_await := w\<rparr>)"
  by (rule keeps_ice_alike; cases w)
    (use assms in \<open>auto simp: ice_ok_def everything_def added_def queued_def described_def described_first_def
      split: option.splits\<close>)

lemma keeps_ice_await_log:
  assumes "added1 e = []" and "keeps_ice m (m\<lparr>m_await := w\<rparr>)"
  shows "keeps_ice m (log_one e (m\<lparr>m_await := w\<rparr>))"
  by (rule keeps_ice_trans [OF assms(2) keeps_ice_log [OF assms(1)]])

lemma keeps_ice_describe_local:
  assumes "\<And>p. pe_id (f p) = pe_id p" "\<And>p. pe_remoteDescription (f p) = pe_remoteDescription p"
  shows "keeps_ice m (describe i f m)"
  by (rule keeps_ice_alike)
    (use assms in \<open>auto simp: describe_def ice_simps described_first_def split: option.splits\<close>)

lemma ice_has_peer: "ice_ok m \<Longrightarrow> \<not> m_closing m \<Longrightarrow> m_await m \<noteq> None \<or> m_jobs m \<noteq> [] \<or> m_socket m \<noteq> None \<Longrightarrow> m_peer m \<noteq> None"
  by (auto simp: ice_ok_def)

text \<open>Adding the candidates in flight one by one.\<close>

lemma keeps_ice_flush:
  assumes "m_await m = Some (At_flush cs k, b)" "described m"
  shows "keeps_ice m (flush cs k m)"
proof (cases cs)
  case Nil
  have idle: "keeps_ice m (m\<lparr>m_await := None\<rparr>)" "keeps_ice m (m\<lparr>m_await := Some (At_answer, True)\<rparr>)" if "m_peer m \<noteq> None"
    using assms(1) Nil that by (auto intro!: keeps_ice_await simp: in_flight_def at_remote_def flushing_def)
  have "m_peer m \<noteq> None" using assms(2) by (auto simp: described_def split: option.splits)
  then show ?thesis
    using idle keeps_ice_trans [OF idle(1) keeps_ice_phase [of Ph_connecting]]
    by (cases k) (simp_all add: flush_def Nil)
next
  case (Cons c rest)
  then obtain p where p: "m_peer m = Some p" "pe_remoteDescription p \<noteq> None"
    using assms(2) by (auto simp: described_def split: option.splits)
  show ?thesis
    by (rule keeps_ice_alike)
      (use assms(1) p in \<open>auto simp: flush_def Cons on_peer_def log_all_def ice_simps added1_def described_first_def
        takeWhile_append split: option.splits\<close>)
qed

lemma keeps_ice_take:
  assumes "m_await m = Some (At_remote_offer i sdp, b) \<or> m_await m = Some (At_remote_answer i sdp, b)"
    and f: "\<And>p. pe_id (f p) = pe_id p" "\<And>p. pe_remoteDescription (f p) \<noteq> None"
  shows "keeps_ice m (take_candidates k (log_one (Described sdp) (describe i f m)))"
proof (cases "ice_ok m \<and> \<not> m_closing m")
  case False
  have "m_closing m \<Longrightarrow> m_closing (take_candidates k (log_one (Described sdp) (describe i f m)))"
    using idles_describe [of f m i, OF f(1)] idles_log [of "Described sdp" "describe i f m"]
      idles_take [of "log_one (Described sdp) (describe i f m)" k]
    by (auto simp: idles_def)
  then show ?thesis
    using False keeps_ice_closing [of "take_candidates k (log_one (Described sdp) (describe i f m))" m]
    by (cases "m_closing m") (simp_all add: keeps_ice_def)
next
  case True
  then obtain p where p: "m_peer m = Some p" using ice_has_peer [of m] assms(1) by auto
  have i: "i = pe_id p" using True assms(1) p by (auto simp: ice_ok_def at_remote_def)
  let ?d = "log_one (Described sdp) (describe i f m)"
  let ?m = "?d\<lparr>m_remoteCandidates := [], m_await := Some (At_flush (m_remoteCandidates m) k, True)\<rparr>"
  have "ice_ok ?m \<and> everything ?m = everything m"
    using True assms(1) p i f
    by (auto simp: ice_simps describe_def log_one_def described_first_def takeWhile_append is_described_def added1_def)
  then have start: "keeps_ice m ?m" using True by (auto intro: keeps_ice_alike)
  have "flush cs k' (x\<lparr>m_await := w\<rparr>) = flush cs k' x" for cs k' x w
    by (auto simp: flush_def setPhase_def log_one_def on_peer_def log_all_def split: list.splits after_flush.splits option.splits)
  then have "take_candidates k ?d = flush (m_remoteCandidates m) k ?m"
    by (simp add: take_candidates_def describe_def log_one_def p)
  moreover have "described ?m" using p i f by (auto simp: described_def describe_def log_one_def)
  ultimately show ?thesis using keeps_ice_trans [OF start keeps_ice_flush] by simp
qed

lemma keeps_ice_send_description:
  assumes "in_flight m = []" "at_remote m = None"
  shows "keeps_ice m (send_description ty m)"
proof (cases "m_peer m")
  case (Some p)
  let ?s = "mgr_send ty (pe_localDescription p) m"
  have "keeps_ice ?s (?s\<lparr>m_await := None\<rparr>)"
    using assms by (intro keeps_ice_await) (auto simp: mgr_send_def log_one_def in_flight_def at_remote_def flushing_def)
  then show ?thesis
    using keeps_ice_trans [OF keeps_ice_send keeps_ice_trans [OF _ keeps_ice_phase [of Ph_connecting]]] Some
    by (simp add: send_description_def)
qed (simp add: send_description_def keeps_ice_chain_fails)

lemma keeps_ice_resume:
  assumes "m_await m = Some (w, b)"
  shows "keeps_ice m (resume w v m)"
proof -
  have over: "keeps_ice m (m\<lparr>m_await := None\<rparr>)" if "w \<in> {At_candidate, At_failure, At_answer, At_offer} \<or> (\<exists>i s. w = At_local_answer i s \<or> w = At_local_offer i s)"
    using that assms by (intro keeps_ice_await) (auto simp: in_flight_def at_remote_def flushing_def)
  have next_local: "keeps_ice m (on_peer x [] m)"
    if w: "w \<in> {At_answer, At_offer}" and p: "m_peer m = Some p"
      and x: "x (pe_id p) \<in> range (\<lambda>i. At_local_answer i v) \<union> range (\<lambda>i. At_local_offer i v)" for x p
  proof -
    have "keeps_ice m (m\<lparr>m_await := Some (x (pe_id p), True)\<rparr>)"
      using w p x assms by (intro keeps_ice_await) (auto simp: in_flight_def at_remote_def flushing_def)
    then show ?thesis by (simp add: on_peer_def log_all_def p)
  qed
  have local: "keeps_ice m (send_description ty (describe i f m))"
    if "\<And>p. pe_id (f p) = pe_id p" "\<And>p. pe_remoteDescription (f p) = pe_remoteDescription p"
      "(\<exists>j s. w = At_local_answer j s \<or> w = At_local_offer j s)" for ty i f
  proof -
    have "m_await (describe i f m) = m_await m" by (simp add: describe_def split: option.splits)
    then have "keeps_ice (describe i f m) (send_description ty (describe i f m))"
      using that(3) assms by (intro keeps_ice_send_description) (auto simp: in_flight_def at_remote_def flushing_def)
    then show ?thesis using keeps_ice_trans [OF keeps_ice_describe_local] that(1,2) by blast
  qed
  have fl: "keeps_ice m (flush cs k m)" if w: "w = At_flush cs k" for cs k
  proof (cases "m_closing m \<or> \<not> ice_ok m")
    case True
    moreover have "m_closing m \<Longrightarrow> m_closing (flush cs k m)" using idles_flush [of m cs k] by (simp add: idles_def)
    ultimately show ?thesis using keeps_ice_closing [of "flush cs k m" m] by (cases "m_closing m") (simp_all add: keeps_ice_def)
  next
    case False
    then have "described m" using assms w by (auto simp: ice_ok_def flushing_def)
    then show ?thesis using keeps_ice_flush [of m cs k b] assms w by simp
  qed
  have asked: "keeps_ice m (resume w v m)" if w: "w = At_answer \<or> w = At_offer"
  proof (cases "m_peer m")
    case None
    then have "resume w v m = m\<lparr>m_await := None\<rparr> \<or> resume w v m = chain_fails m" using w by (auto simp: resume_def)
    then show ?thesis using over w keeps_ice_chain_fails [of m] by auto
  next
    case (Some p)
    show ?thesis
      using w next_local [OF _ Some, of "\<lambda>i. At_local_answer i v"] next_local [OF _ Some, of "\<lambda>i. At_local_offer i v"]
      by (elim disjE) (simp_all add: resume_def Some)
  qed
  show ?thesis
  proof (cases w)
    case (At_remote_offer i sdp)
    show ?thesis unfolding At_remote_offer resume_def await.case
      by (rule keeps_ice_take) (use assms At_remote_offer in simp_all)
  next
    case (At_remote_answer i sdp)
    show ?thesis unfolding At_remote_answer resume_def await.case
      by (rule keeps_ice_take) (use assms At_remote_answer in simp_all)
  next
    case (At_flush cs k)
    then show ?thesis using fl by (simp add: resume_def)
  next
    case (At_local_answer i sdp)
    then show ?thesis using local by (simp add: resume_def)
  next
    case (At_local_offer i sdp)
    then show ?thesis using local by (simp add: resume_def)
  qed (use asked over in \<open>simp_all add: resume_def\<close>)
qed

lemma keeps_ice_settles: "keeps_ice m (chain_settles out m)"
proof (cases "m_await m")
  case (Some wb)
  obtain w b where wb: "wb = (w, b)" by (cases wb)
  have "keeps_ice m (m\<lparr>m_await := None, m_chainBroken := True\<rparr>)" if "w = At_failure"
    using keeps_ice_trans [OF keeps_ice_await [of None m] keeps_ice_fields(1)] that Some wb
    by (simp add: in_flight_def at_remote_def flushing_def)
  then show ?thesis
    using keeps_ice_resume [of m w b] keeps_ice_chain_fails [of m] Some wb
    by (auto simp: chain_settles_def split: option.splits)
qed (simp add: chain_settles_def)

lemma keeps_ice_drop:
  assumes "m_jobs m = j # js" "queued1 j = []"
  shows "keeps_ice m (m\<lparr>m_jobs := js\<rparr>)"
  by (rule keeps_ice_alike) (use assms in \<open>auto simp: ice_simps described_first_def split: option.splits\<close>)

lemma keeps_ice_asks:
  assumes "m_await m = None" "m_peer m \<noteq> None \<or> m_closing m" "w = At_remote_offer \<or> w = At_remote_answer"
  shows "keeps_ice m (on_peer (\<lambda>i. w i sdp) [Set_remote sdp] m)"
proof (cases "m_peer m")
  case (Some p)
  show ?thesis
    by (rule keeps_ice_alike)
      (use assms Some in \<open>auto simp: on_peer_def log_all_def ice_simps described_first_def added1_def takeWhile_append
        split: option.splits\<close>)
next
  case None
  then show ?thesis using assms by (intro keeps_ice_closing) (simp add: on_peer_def)
qed

lemma keeps_ice_offer:
  assumes "m_await m = None"
  shows "keeps_ice m (mgr_offer m)"
proof -
  have "m_peer m = Some p \<Longrightarrow> keeps_ice m (m\<lparr>m_await := Some (At_offer, True)\<rparr>)" for p
    using assms by (intro keeps_ice_await) (auto simp: in_flight_def at_remote_def flushing_def)
  then show ?thesis by (simp add: mgr_offer_def split: option.splits)
qed

text \<open>A candidate is added at once when the other side is described, and kept otherwise.\<close>

lemma ice_candidate_job:
  assumes "ice_ok m" "\<not> m_closing m" "m_await m = None" "m_jobs m = Handle (Envelope ''signal.ice'' (Fields s c)) # js"
  defines "m' \<equiv> handleSignal (Envelope ''signal.ice'' (Fields s c)) (m\<lparr>m_jobs := js\<rparr>)"
  shows "ice_ok m' \<and> everything m' = everything m"
proof -
  obtain p where p: "m_peer m = Some p" using ice_has_peer [OF assms(1,2)] assms(4) by auto
  show ?thesis
  proof (cases "described m")
    case True
    then have "m' = (log_all [Added_candidate c] (m\<lparr>m_jobs := js\<rparr>))\<lparr>m_await := Some (At_candidate, True)\<rparr>"
      using p by (auto simp: m'_def handleSignal_def on_peer_def described_def)
    then show ?thesis using assms(1-4) True p
      by (auto simp: log_all_def ice_simps described_first_def added1_def queued1_def candidates_of_def takeWhile_append)
  next
    case False
    then have "m' = m\<lparr>m_jobs := js, m_remoteCandidates := m_remoteCandidates m @ [c]\<rparr>"
      using p by (auto simp: m'_def handleSignal_def described_def)
    then show ?thesis using assms(1-4) False p
      by (auto simp: ice_simps described_first_def queued1_def candidates_of_def)
  qed
qed

lemma keeps_ice_other_job:
  assumes "m_await m = None" "m_peer m \<noteq> None \<or> m_closing m" "candidates_of e = []"
  shows "keeps_ice m (handleSignal e m)"
proof -
  have ready: "keeps_ice m (on_peer (\<lambda>i. w i sdp) [Set_remote sdp] (stopReadyPulse m))"
    if "w = At_remote_offer \<or> w = At_remote_answer" for w sdp
    using keeps_ice_trans [OF keeps_ice_fields(4) keeps_ice_asks] that assms(1,2) by (simp add: stopReadyPulse_def)
  show ?thesis
    using ready keeps_ice_asks [OF assms(1,2)] keeps_ice_offer [OF assms(1)] keeps_ice_chain_fails [of m] assms(3)
      keeps_ice_trans [OF keeps_ice_fields(4) keeps_ice_chain_fails, of m]
    by (cases e) (auto simp: handleSignal_def candidates_of_def split: sig_payload.splits)
qed

lemma ice_phase: "ice_ok m \<Longrightarrow> \<not> m_closing m \<Longrightarrow> m_phase m \<notin> {Ph_failed, Ph_ended}"
  unfolding ice_ok_def by blast

lemma fail_closing: "m_closing m \<or> m_phase m \<notin> {Ph_failed, Ph_ended} \<Longrightarrow> m_closing (mgr_fail m)"
  by (auto simp: mgr_fail_def log_one_def)

lemma keeps_ice_fail_of:
  assumes "m_phase m' = m_phase m \<or> m_phase m' \<notin> {Ph_failed, Ph_ended}" "m_closing m' = m_closing m"
  shows "keeps_ice m (mgr_fail m')"
proof (cases "m_closing (mgr_fail m')")
  case False
  then have "\<not> m_closing m'" "m_phase m' \<in> {Ph_failed, Ph_ended}" using fail_closing [of m'] by blast+
  then have "\<not> m_closing m" "m_phase m \<in> {Ph_failed, Ph_ended}" using assms by simp_all
  then have "\<not> ice_ok m" using ice_phase by blast
  then show ?thesis by (simp add: keeps_ice_def)
qed (rule keeps_ice_closing)

lemma chain_fails_closes: "m_closing m \<Longrightarrow> m_closing (chain_fails m)"
  by (simp add: chain_fails_def mgr_fail_def log_one_def)

lemma handleSignal_closing: "m_closing m \<Longrightarrow> m_closing (handleSignal e m)"
proof -
  have "handleSignal e m = chain_fails m \<or> idles m (handleSignal e m)"
    by (cases e) (auto simp: handleSignal_def stopReadyPulse_def idles_offer
      intro!: idles_on_peer idles_trans [OF idles_fields(11) idles_on_peer] split: sig_payload.splits)
  then show "m_closing m \<Longrightarrow> m_closing (handleSignal e m)" by (auto simp: idles_def chain_fails_closes)
qed

lemma chain_runs_closing: "m_closing m \<Longrightarrow> m_closing (chain_runs m)"
  using idles_offer by (auto simp: chain_runs_def handleSignal_closing chain_fails_closes idles_def
      split: option.splits list.splits chain_job.splits)

lemma keeps_ice_runs: "keeps_ice m (chain_runs m)"
proof (cases "m_await m = None \<and> m_jobs m \<noteq> []")
  case True
  then obtain j js where j: "m_jobs m = j # js" by (cases "m_jobs m") auto
  show ?thesis
  proof (cases "ice_ok m \<and> \<not> m_closing m")
    case False
    then show ?thesis using keeps_ice_closing [of "chain_runs m" m] chain_runs_closing [of m]
      by (cases "m_closing m") (simp_all add: keeps_ice_def)
  next
    case ok: True
    then have p: "m_peer m \<noteq> None" using ice_has_peer [of m] True by blast
    let ?m = "m\<lparr>m_jobs := js\<rparr>"
    have drop: "keeps_ice m ?m" if "queued1 j = []" using that j by (rule keeps_ice_drop [rotated])
    show ?thesis
    proof (cases "m_chainBroken m")
      case broken: True
      have "m_phase m \<notin> {Ph_failed, Ph_ended}" using ok ice_phase by blast
      then have "m_closing (chain_runs m)"
        using True broken j by (simp add: chain_runs_def chain_fails_def mgr_fail_def log_one_def)
      then show ?thesis by (rule keeps_ice_closing)
    next
      case whole: False
      show ?thesis
      proof (cases j)
        case Make_offer
        then show ?thesis
          using keeps_ice_trans [OF drop keeps_ice_offer] True j whole by (simp add: chain_runs_def queued1_def)
      next
        case (Handle e)
        then have r: "chain_runs m = handleSignal e ?m" using True j whole by (simp add: chain_runs_def)
        show ?thesis
        proof (cases "candidates_of e = []")
          case True
          then show ?thesis unfolding r
            using keeps_ice_trans [OF drop keeps_ice_other_job] \<open>m_await m = None \<and> m_jobs m \<noteq> []\<close> p Handle
            by (simp add: queued1_def)
        next
          case False
          then obtain sd c where "e = Envelope ''signal.ice'' (Fields sd c)"
            by (auto simp: candidates_of_def split: envelope.splits sig_payload.splits if_splits)
          then show ?thesis unfolding r
            using ice_candidate_job [of m sd c js] ok True j Handle by (auto simp: keeps_ice_def)
        qed
      qed
    qed
  qed
qed (auto simp: chain_runs_def split: option.splits list.splits)

section \<open>The other events\<close>

lemma keeps_ice_end: "keeps_ice m (mgr_end m)"
  by (rule keeps_ice_closing) (simp add: mgr_end_def)

lemma keeps_ice_log_all: "\<forall>e\<in>set es. added1 e = [] \<Longrightarrow> keeps_ice m (log_all es m)"
proof (induction es rule: rev_induct)
  case Nil
  then show ?case by (simp add: log_all_def)
next
  case (snoc e es)
  have "log_all (es @ [e]) m = log_one e (log_all es m)" by (simp add: log_all_def log_one_def)
  then show ?case using keeps_ice_trans [OF snoc.IH keeps_ice_log [of e]] snoc.prems by simp
qed

lemma keeps_ice_mute: "keeps_ice m (setMuted b m)"
  unfolding setMuted_def by (rule keeps_ice_log_all) (auto simp: added1_def)

lemma keeps_ice_microphone: "keeps_ice m (microphone_settles x m)"
proof (cases "m_atMicrophone m = 0")
  case False
  show ?thesis
  proof (cases x)
    case (Mic_granted ts ok)
    show ?thesis
    proof (cases ok)
      case True
      show ?thesis
        by (rule keeps_ice_alike)
          (use False True Mic_granted in \<open>auto simp: microphone_settles_def Let_def createPeer_def log_one_def ice_simps
            described_first_def takeWhile_append added1_def is_described_def split: option.splits\<close>)
    next
      case ok: False
      have "microphone_settles x m = mgr_fail (log_one (Granted ts)
          (m\<lparr>m_atMicrophone := m_atMicrophone m - 1, m_localStream := Some ts\<rparr>))"
        using False ok Mic_granted by (simp add: microphone_settles_def Let_def)
      then show ?thesis by (auto simp: log_one_def intro: keeps_ice_fail_of)
    qed
  next
    case Mic_denied
    show ?thesis
      by (rule keeps_ice_alike)
        (use False Mic_denied in \<open>auto simp: microphone_settles_def Let_def setPhase_def log_one_def ice_simps
          described_first_def takeWhile_append added1_def split: option.splits\<close>)
  next
    case Mic_error
    then have "microphone_settles x m = mgr_fail (m\<lparr>m_atMicrophone := m_atMicrophone m - 1\<rparr>)"
      using False by (simp add: microphone_settles_def Let_def)
    then show ?thesis by (auto intro: keeps_ice_fail_of)
  qed
qed (simp add: microphone_settles_def)

lemma keeps_ice_openSocket:
  assumes "openSocket ok m = Some m'" "m_peer m \<noteq> None \<or> m_closing m"
  shows "keeps_ice m m'"
proof (cases "m_closing m")
  case False
  then obtain p where p: "m_peer m = Some p" using assms(2) by auto
  have "keeps_ice m (m\<lparr>m_socket := x, m_socketOpen := y, m_sockets := z\<rparr>)" for x y z
    by (rule keeps_ice_alike) (use p in \<open>auto simp: ice_simps described_first_def split: option.splits\<close>)
  then have "keeps_ice m (log_one (Opened_socket n) (m\<lparr>m_socket := x, m_socketOpen := y, m_sockets := z\<rparr>))" for n x y z
    by (rule keeps_ice_trans) (rule keeps_ice_log, simp add: added1_def)
  then show ?thesis using assms(1) False by (auto simp: openSocket_def split: if_splits)
qed (use assms(1) in \<open>auto simp: openSocket_def\<close>)

lemma keeps_ice_local_ready: "keeps_ice m (local_ready_settles b ok m)"
proof (cases "m_atLocalReady m = 0")
  case False
  let ?m = "m\<lparr>m_atLocalReady := m_atLocalReady m - 1\<rparr>" let ?w = "setPhase Ph_waiting ?m"
  have m: "keeps_ice m ?m"
    by (rule keeps_ice_alike) (use False in \<open>auto simp: ice_simps described_first_def split: option.splits\<close>)
  have w: "keeps_ice m ?w" by (rule keeps_ice_trans [OF m keeps_ice_phase]) simp
  show ?thesis
  proof (cases "ice_ok m")
    case True
    then have "m_peer ?w \<noteq> None \<or> m_closing ?w" using False by (auto simp: ice_ok_def setPhase_def log_one_def)
    then have "openSocket ok ?w = Some m' \<Longrightarrow> keeps_ice m m'" for m'
      using keeps_ice_trans [OF w keeps_ice_openSocket] by blast
    moreover have "local_ready_settles b ok m = (if \<not> b then mgr_fail ?m else
        case openSocket ok ?w of Some m3 \<Rightarrow> m3 | None \<Rightarrow> mgr_fail ?w)"
      using False by (simp only: local_ready_settles_def Let_def if_False)
    ultimately show ?thesis
      using keeps_ice_trans [OF m keeps_ice_fail] keeps_ice_trans [OF w keeps_ice_fail]
      by (cases "openSocket ok ?w") simp_all
  qed (simp add: keeps_ice_def)
qed (simp add: local_ready_settles_def)

lemma keeps_ice_announce: "keeps_ice m (announce m)"
proof -
  have "keeps_ice m ((mgr_send ty x m)\<lparr>m_readyTimer := True\<rparr>)" for ty x
    by (rule keeps_ice_trans [OF keeps_ice_send keeps_ice_fields(4)])
  then show ?thesis by (simp add: announce_def)
qed

lemma keeps_ice_socket:
  "keeps_ice m (socket_opens n m)" "keeps_ice m (socket_errs n m)" "keeps_ice m (socket_closes n r m)"
  "keeps_ice m (reconnect_fires ok m)" "keeps_ice m (ready_fires m)"
proof -
  have pulse: "keeps_ice m (startReadyPulse m)" for m
    unfolding startReadyPulse_def stopReadyPulse_def by (rule keeps_ice_trans [OF keeps_ice_fields(4) keeps_ice_announce])
  show "keeps_ice m (socket_opens n m)"
    by (auto simp: socket_opens_def Let_def intro: keeps_ice_trans [OF keeps_ice_fields(7) pulse]
        keeps_ice_trans [OF keeps_ice_fields(7) keeps_ice_send] split: option.splits)
  have "keeps_ice m (log_one (Closed_socket n) m)" for m by (rule keeps_ice_log) (simp add: added1_def)
  then show "keeps_ice m (socket_errs n m)"
    unfolding socket_errs_def by (cases "m_socket m = Some n") (auto intro: keeps_ice_trans [OF keeps_ice_fields(2) [where b = False]])
  show "keeps_ice m (socket_closes n r m)"
    by (rule keeps_ice_alike)
      (auto simp: socket_closes_def scheduleReconnect_def Let_def log_one_def ice_simps described_first_def
        takeWhile_append added1_def split: option.splits)
  show "keeps_ice m (reconnect_fires ok m)"
  proof (cases "ice_ok m \<and> m_reconnectTimer m")
    case True
    then have "m_peer m \<noteq> None \<or> m_closing m" by (auto simp: ice_ok_def)
    then show ?thesis using True keeps_ice_trans [OF keeps_ice_fields(6) keeps_ice_openSocket, of ok m]
      by (auto simp: reconnect_fires_def Let_def split: option.splits)
  qed (auto simp: reconnect_fires_def keeps_ice_def)
  show "keeps_ice m (ready_fires m)"
    unfolding ready_fires_def using keeps_ice_trans [OF keeps_ice_fields(4) keeps_ice_announce] by simp
qed

lemma keeps_ice_connection: "keeps_ice m (connection_becomes c m)"
proof (cases "m_peer m")
  case (Some p)
  let ?m = "m\<lparr>m_peer := Some (p\<lparr>pe_connectionState := c\<rparr>)\<rparr>"
  have m: "keeps_ice m ?m"
    by (rule keeps_ice_alike) (use Some in \<open>auto simp: ice_simps described_first_def split: option.splits\<close>)
  have make: "keeps_ice x (x\<lparr>m_jobs := m_jobs x @ [Make_offer]\<rparr>)" if "m_peer x \<noteq> None" for x
    by (rule keeps_ice_alike) (use that in \<open>auto simp: ice_simps queued1_def described_first_def split: option.splits\<close>)
  have "keeps_ice ?m (beginRecovery ?m)"
  proof (cases "m_disconnectTimer m \<or> m_closing m")
    case False
    let ?p = "setPhase Ph_reconnecting ?m" let ?j = "?p\<lparr>m_jobs := m_jobs ?p @ [Make_offer]\<rparr>"
    have p: "keeps_ice ?m ?p" by (rule keeps_ice_phase) simp
    have j: "keeps_ice ?m (log_all [Restarted_ice] ?j)"
      by (intro keeps_ice_trans [OF p] keeps_ice_trans [OF make keeps_ice_log_all])
        (auto simp: added1_def setPhase_def log_one_def)
    show ?thesis
      using False keeps_ice_trans [OF j keeps_ice_fields(5)] keeps_ice_trans [OF p keeps_ice_fields(5)]
      by (auto simp: beginRecovery_def Let_def setPhase_def log_one_def)
  qed (simp add: beginRecovery_def)
  moreover have live: "keeps_ice ?m (setPhase Ph_live (?m\<lparr>m_disconnectTimer := False\<rparr>))"
    by (rule keeps_ice_trans [OF keeps_ice_fields(5) keeps_ice_phase]) simp
  moreover have "keeps_ice ?m (log_one Told_connected ((setPhase Ph_live (?m\<lparr>m_disconnectTimer := False\<rparr>))
      \<lparr>m_connectedNotified := True, m_connectedPending := True\<rparr>))"
    by (rule keeps_ice_trans [OF live keeps_ice_trans [OF keeps_ice_fields(8) keeps_ice_log]]) (simp add: added1_def)
  ultimately have "keeps_ice ?m (connectionChanged ?m)" by (auto simp: connectionChanged_def Let_def)
  then show ?thesis using keeps_ice_trans [OF m] Some by (simp add: connection_becomes_def)
qed (simp add: connection_becomes_def)

lemma keeps_ice_timeouts: "keeps_ice m (disconnect_fires m)" "keeps_ice m (connected_rejects m)"
  using keeps_ice_trans [OF keeps_ice_fields(5) keeps_ice_fail, of m] keeps_ice_trans [OF keeps_ice_fields(3) keeps_ice_fail, of m]
  by (auto simp: disconnect_fires_def connected_rejects_def Let_def split: option.splits)

text \<open>A message joins the end of the chain; nothing else adds to what was heard.\<close>

lemma ice_happens:
  assumes "ice_ok m" "e \<noteq> Start"
  shows "ice_ok (happens e m)" "m_closing m \<Longrightarrow> m_closing (happens e m)"
    "m_closing (happens e m) \<or> everything (happens e m) = everything m @ heard_now m e"
proof -
  have quiet: "keeps_ice m (happens e m) \<and> heard_now m e = []" if "\<forall>n x. e \<noteq> Socket_message n x"
  proof -
    have "keeps_ice m (track_arrives t m)" "keeps_ice m (ice_candidate c m)" for t c
      by (simp_all add: track_arrives_def ice_candidate_def keeps_ice_log added1_def)
    then show ?thesis using assms(2) that
      by (cases e) (simp_all add: heard_now_def keeps_ice_end keeps_ice_mute keeps_ice_microphone keeps_ice_local_ready keeps_ice_socket
        keeps_ice_connection keeps_ice_timeouts keeps_ice_runs keeps_ice_settles)
  qed
  have message: "ice_ok (socket_message n x m) \<and> m_closing (socket_message n x m) = m_closing m
      \<and> (m_closing m \<or> everything (socket_message n x m) = everything m @ heard_now m (Socket_message n x))" for n x
  proof (cases "m_socket m = Some n \<and> \<not> m_closing m")
    case True
    then show ?thesis using assms(1)
      by (auto simp: socket_message_def ice_simps queued1_def heard_now_def described_first_def split: option.splits)
  next
    case False
    then show ?thesis using assms(1) by (auto simp: socket_message_def heard_now_def ice_ok_def)
  qed
  have "ice_ok (happens e m) \<and> (m_closing m \<longrightarrow> m_closing (happens e m)) \<and>
      (m_closing (happens e m) \<or> everything (happens e m) = everything m @ heard_now m e)"
  proof (cases "\<exists>n x. e = Socket_message n x")
    case True
    then obtain n x where "e = Socket_message n x" by blast
    then show ?thesis using message [of n x] by auto
  next
    case False
    then show ?thesis using quiet assms(1) by (auto simp: keeps_ice_def)
  qed
  then show "ice_ok (happens e m)" "m_closing m \<Longrightarrow> m_closing (happens e m)"
    "m_closing (happens e m) \<or> everything (happens e m) = everything m @ heard_now m e"
    by simp_all
qed

lemma ice_run:
  assumes "ice_ok m" "Start \<notin> set es" "\<not> m_closing (fold happens es m)"
  shows "ice_ok (fold happens es m) \<and> everything (fold happens es m) = everything m @ heard m es"
  using assms
proof (induction es arbitrary: m)
  case (Cons e es)
  have step: "ice_ok (happens e m)" "m_closing (happens e m) \<or> everything (happens e m) = everything m @ heard_now m e"
    using ice_happens [of m e] Cons.prems by auto
  have closing: "m_closing x \<Longrightarrow> ice_ok x \<Longrightarrow> m_closing (fold happens es x)" for x
    using Cons.prems(2) ice_happens by (induction es arbitrary: x) auto
  then have "\<not> m_closing (happens e m)" using step(1) Cons.prems(3) by auto
  then show ?case using Cons.IH [OF step(1)] Cons.prems step(2) by simp
qed simp

text \<open>
  C31. The other browser's candidates.  In a call that was started once and is not over, whatever else
  happened: the candidates added to the connection are the first of those the socket delivered, each once and in
  order, and none was added before a description of the other side was in place.  Once the chain of
  signals has run dry all of them have been added, if there is a description, and all of them are kept, if not.
\<close>

theorem candidates_are_added_in_order:
  assumes "Start \<notin> set es" "\<not> m_closing (mgr_run role (Start # es))"
  defines "m \<equiv> mgr_run role (Start # es)"
  shows "prefix (added m) (heard (new_manager role) (Start # es)) \<and>
    concat (map added1 (takeWhile (\<lambda>e. \<not> is_described e) (m_log m))) = [] \<and>
    (m_await m = None \<and> m_jobs m = [] \<longrightarrow>
       (if described m then added m = heard (new_manager role) (Start # es)
        else added m = [] \<and> m_remoteCandidates m = heard (new_manager role) (Start # es)))"
proof -
  let ?s = "happens Start (new_manager role)"
  have start: "ice_ok ?s" "everything ?s = []"
    by (auto simp: ice_simps new_manager_def mgr_start_def setPhase_def log_one_def described_first_def added1_def)
  have m: "m = fold happens es ?s" by (simp add: m_def mgr_run_def)
  have run: "ice_ok m" "everything m = heard (new_manager role) (Start # es)"
    using ice_run [OF start(1) assms(1)] assms(2) start(2) by (simp_all add: m_def mgr_run_def heard_now_def)
  have open_now: "\<not> m_closing m" using assms(2) by (simp add: m_def)
  have dry: "in_flight m = []" "queued m = []" "at_remote m = None" if "m_await m = None" "m_jobs m = []"
    using that by (simp_all add: in_flight_def queued_def at_remote_def)
  have "prefix (added m) (heard (new_manager role) (Start # es))"
    using run(2) unfolding everything_def by (metis prefixI)
  then show ?thesis
    using run(2) dry iffD1 [OF ice_ok_def run(1)] open_now
    by (auto simp: everything_def described_first_def simp del: heard.simps)
qed

theorem candidates_witness:
  "added (mgr_run Viewer demo_session) = [Some ''a'', Some ''b'']"
proof -
  have "Start \<notin> set (tl demo_session)" "\<not> m_closing (mgr_run Viewer (Start # tl demo_session))"
    "Start # tl demo_session = demo_session" "heard (new_manager Viewer) (Start # tl demo_session) = [Some ''a'', Some ''b'']"
    "m_await (mgr_run Viewer (Start # tl demo_session)) = None" "m_jobs (mgr_run Viewer (Start # tl demo_session)) = []"
    "described (mgr_run Viewer (Start # tl demo_session))"
    by code_simp+
  then show ?thesis using candidates_are_added_in_order [of "tl demo_session" Viewer] by simp
qed

end
