(* ===== verification/Earnings_Chart.thy ===== *)
theory Earnings_Chart
  imports Payout_Calendar "HOL-Library.Multiset"
begin

text \<open>
  The earnings chart of the studio: \<open>buildSeries\<close> of \<open>src/components/studio/PayoutSettings.tsx\<close> over the
  days that \<open>payouts.earnings\<close> reports, and the total shown above it.  The labels of the points, which
  \<open>Intl\<close> formats, are left out.  Query and chart are taken at the same moment.
\<close>

datatype chart_range = Days30 | Months12

text \<open>\<open>new Map(days.map(...))\<close>: of two entries with one key the later wins.\<close>

definition day_totals :: "(string \<times> int) list \<Rightarrow> string \<Rightarrow> int option" where
  "day_totals days = map_of (rev days)"

fun addToMonth :: "string \<Rightarrow> int \<Rightarrow> (string \<times> int) list \<Rightarrow> (string \<times> int) list" where
  "addToMonth month cents [] = [(month, cents)]"
| "addToMonth month cents ((m, c) # rest) =
     (if m = month then (m, c + cents) # rest else (m, c) # addToMonth month cents rest)"

definition month_totals :: "(string \<times> int) list \<Rightarrow> (string \<times> int) list" where
  "month_totals days = fold (\<lambda>(d, cents). addToMonth (take 7 d) cents) days []"

definition cents_at :: "(string \<Rightarrow> int option) \<Rightarrow> string \<Rightarrow> int" where
  "cents_at totals key = (case totals key of Some c \<Rightarrow> c | None \<Rightarrow> 0)"

definition chart_keys :: "int \<Rightarrow> chart_range \<Rightarrow> string list" where
  "chart_keys t rg = (let today = t div DAY_MS * DAY_MS in case rg of
     Days30 \<Rightarrow> map (\<lambda>index. isoDate (today - (29 - int index) * DAY_MS)) [0..<30]
   | Months12 \<Rightarrow> map (\<lambda>index. take 7 (isoDate (dateUTC (getUTCFullYear today)
       (getUTCMonth today - (11 - int index)) 1))) [0..<12])"

definition buildSeries :: "int \<Rightarrow> (string \<times> int) list \<Rightarrow> chart_range \<Rightarrow> (string \<times> int) list" where
  "buildSeries t days rg =
     (let totals = (case rg of Days30 \<Rightarrow> day_totals days | Months12 \<Rightarrow> map_of (month_totals days))
      in map (\<lambda>key. (key, cents_at totals key)) (chart_keys t rg))"

text \<open>\<open>EarningsCard\<close>: the days it asks for, the points it draws and the total it shows.\<close>

definition days_asked :: "chart_range \<Rightarrow> rat" where
  "days_asked rg = (case rg of Days30 \<Rightarrow> 30 | Months12 \<Rightarrow> 366)"

definition earningsCard :: "ctx \<Rightarrow> chart_range \<Rightarrow> db \<Rightarrow> error_code + (string \<times> int) list \<times> int" where
  "earningsCard ctx rg s = bindE (payouts_earnings ctx (days_asked rg) s) (\<lambda>(cur, days).
     let series = buildSeries (now ctx) days rg in Inr (series, sum_list (map snd series)))"

section \<open>Sums by key\<close>

text \<open>What the keys with a property add up to.\<close>

definition sum_where :: "('a \<Rightarrow> bool) \<Rightarrow> ('a \<times> int) list \<Rightarrow> int" where
  "sum_where P xs = sum_list (map snd (filter (\<lambda>x. P (fst x)) xs))"

lemma sum_where_simps [simp]:
  "sum_where P [] = 0" "sum_where P ((k, c) # xs) = (if P k then c else 0) + sum_where P xs"
  by (simp_all add: sum_where_def)

lemma sum_where_cong: "(\<And>k. k \<in> fst ` set xs \<Longrightarrow> P k = Q k) \<Longrightarrow> sum_where P xs = sum_where Q xs"
  unfolding sum_where_def by (rule arg_cong [where f = "\<lambda>x. sum_list (map snd x)"]) (rule filter_cong, auto)

lemma sum_where_map: "sum_where P (map (\<lambda>(k, c). (f k, c)) xs) = sum_where (\<lambda>k. P (f k)) xs"
  by (induction xs) auto

lemma sum_where_perm: "mset xs = mset ys \<Longrightarrow> sum_where P xs = sum_where P ys"
proof -
  assume eq: "mset xs = mset ys"
  have "mset (map snd (filter (\<lambda>x. P (fst x)) xs)) = mset (map snd (filter (\<lambda>x. P (fst x)) ys))"
    using eq by simp
  then show ?thesis unfolding sum_where_def by (metis sum_mset_sum_list)
qed

lemma addToDay_sum: "sum_where P (addToDay d c xs) = sum_where P xs + (if P d then c else 0)"
  by (induction xs) auto

lemma addToMonth_sum: "sum_where P (addToMonth d c xs) = sum_where P xs + (if P d then c else 0)"
  by (induction xs) auto

lemma addToMonth_keys: "fst ` set (addToMonth d c xs) = insert d (fst ` set xs)"
proof (induction xs)
  case (Cons x xs)
  then show ?case by (cases x; cases "fst x = d") auto
qed simp

lemma addToDay_keys: "fst ` set (addToDay d c xs) = insert d (fst ` set xs)"
proof (induction xs)
  case (Cons x xs)
  then show ?case by (cases x; cases "fst x = d") auto
qed simp

lemma addToMonth_distinct: "distinct (map fst xs) \<Longrightarrow> distinct (map fst (addToMonth d c xs))"
proof (induction xs)
  case (Cons x xs)
  then show ?case using addToMonth_keys [of d c xs] by (cases x; cases "fst x = d") (auto simp: image_iff set_eq_iff)
qed simp

lemma addToDay_distinct: "distinct (map fst xs) \<Longrightarrow> distinct (map fst (addToDay d c xs))"
proof (induction xs)
  case (Cons x xs)
  then show ?case using addToDay_keys [of d c xs] by (cases x; cases "fst x = d") (auto simp: image_iff set_eq_iff)
qed simp

text \<open>Looking up distinct keys adds up to the entries with those keys.\<close>

lemma sum_where_key:
  assumes "distinct (map fst xs)"
  shows "cents_at (map_of xs) k = sum_where (\<lambda>x. x = k) xs"
  using assms
proof (induction xs)
  case (Cons x xs)
  obtain a c where x: "x = (a, c)" by force
  have "sum_where (\<lambda>y. y = a) xs = 0" if "a \<notin> fst ` set xs"
    using that by (induction xs) auto
  then show ?case using Cons x by (auto simp: cents_at_def image_iff)
qed (simp add: cents_at_def)

lemma sum_of_lookups:
  assumes "distinct (map fst xs)" "distinct ks"
  shows "sum_list (map (cents_at (map_of xs)) ks) = sum_where (\<lambda>k. k \<in> set ks) xs"
  using assms(2)
proof (induction ks)
  case (Cons k ks)
  have "sum_where (\<lambda>x. x = k) ys + sum_where (\<lambda>x. x \<in> set ks) ys = sum_where (\<lambda>x. x = k \<or> x \<in> set ks) ys" for ys
    using Cons.prems by (induction ys) auto
  then show ?case using Cons by (simp add: sum_where_key [OF assms(1)])
qed (simp add: sum_where_def)

lemma month_totals_sum: "sum_where P (month_totals days) = sum_where (\<lambda>d. P (take 7 d)) days"
proof -
  have "sum_where P (fold (\<lambda>(d, cents). addToMonth (take 7 d) cents) days acc)
      = sum_where P acc + sum_where (\<lambda>d. P (take 7 d)) days" for acc
    by (induction days arbitrary: acc) (auto simp: addToMonth_sum)
  then show ?thesis by (simp add: month_totals_def)
qed

lemma month_totals_distinct: "distinct (map fst (month_totals days))"
proof -
  have "distinct (map fst acc) \<Longrightarrow> distinct (map fst (fold (\<lambda>(d, cents). addToMonth (take 7 d) cents) days acc))" for acc
    by (induction days arbitrary: acc) (auto simp: addToMonth_distinct)
  then show ?thesis by (simp add: month_totals_def)
qed

lemma earningsByDay_sum:
  "sum_where P (earningsByDay since entries) = sum_list (map le_amountCents (filter (\<lambda>e. le_kind e \<in> set EARNING_KINDS
     \<and> since \<le> ctime e \<and> P (ctime e div DAY_MS)) entries))"
proof -
  have "sum_where P (fold (\<lambda>e. addToDay (ctime e div DAY_MS) (le_amountCents e)) es acc)
      = sum_where P acc + sum_list (map le_amountCents (filter (\<lambda>e. P (ctime e div DAY_MS)) es))" for es :: "ledger_doc list" and acc
    by (induction es arbitrary: acc) (auto simp: addToDay_sum)
  moreover have "(\<lambda>x. P (ctime x div DAY_MS) \<and> le_kind x \<in> set EARNING_KINDS \<and> since \<le> ctime x)
      = (\<lambda>x. le_kind x \<in> set EARNING_KINDS \<and> since \<le> ctime x \<and> P (ctime x div DAY_MS))"
    by auto
  ultimately show ?thesis by (simp add: earningsByDay_def not_less)
qed

lemma earningsByDay_keys:
  "fst ` set (earningsByDay since entries) = (\<lambda>e. ctime e div DAY_MS) ` {e \<in> set entries. le_kind e \<in> set EARNING_KINDS \<and> since \<le> ctime e}"
proof -
  have "fst ` set (fold (\<lambda>e. addToDay (ctime e div DAY_MS) (le_amountCents e)) es acc)
      = fst ` set acc \<union> (\<lambda>e. ctime e div DAY_MS) ` set es" for es :: "ledger_doc list" and acc
    by (induction es arbitrary: acc) (auto simp: addToDay_keys)
  then show ?thesis by (auto simp: earningsByDay_def not_less)
qed

lemma earningsByDay_distinct: "distinct (map fst (earningsByDay since entries))"
proof -
  have "distinct (map fst acc) \<Longrightarrow> distinct (map fst (fold (\<lambda>e. addToDay (ctime e div DAY_MS) (le_amountCents e)) es acc))" for es :: "ledger_doc list" and acc
    by (induction es arbitrary: acc) (auto simp: addToDay_distinct)
  then show ?thesis by (simp add: earningsByDay_def)
qed

section \<open>Dates as keys\<close>

lemma isoDate_day:
  assumes "0 \<le> d"
  shows "isoDate (d * DAY_MS) = digits 4 (nat (yearOf d)) @ ''-'' @ digits 2 (nat (monthOf d + 1)) @ ''-'' @ digits 2 (nat (d - firstDay (monthNo d) + 1))"
  using assms DAY_MS_pos getUTCDate_firstDay [of "d * DAY_MS"]
  by (simp add: isoDate_def getUTCFullYear_def getUTCMonth_def)

lemma isoMonth_day:
  assumes "0 \<le> d"
  shows "take 7 (isoDate (d * DAY_MS)) = digits 4 (nat (monthNo d div 12)) @ ''-'' @ digits 2 (nat (monthNo d mod 12 + 1))"
  using monthNo_spec(3,4) [OF assms] by (simp add: isoDate_day [OF assms])

end
