(* ===== verification/Chart_Properties.thy ===== *)
theory Chart_Properties
  imports Earnings_Chart
begin

text \<open>
  The earnings chart shows every cent: the client's days and months are the backend's, the query reaches
  far enough back for both ranges, and no entry escapes it because money never takes effect before it is
  booked.
\<close>

section \<open>Days and months\<close>

lemma monthNo_mono: "0 \<le> d \<Longrightarrow> d \<le> e \<Longrightarrow> monthNo d \<le> monthNo e"
proof (rule ccontr)
  assume a: "0 \<le> d" "d \<le> e" "\<not> monthNo d \<le> monthNo e"
  then have "firstDay (monthNo e + 1) \<le> firstDay (monthNo d)"
    using firstDay_mono [of "monthNo e + 1" "monthNo d"] by simp
  then show False using monthNo_spec(1) [of d] monthNo_spec(2) [of e] a by simp
qed

lemma monthNo_firstDay: "0 \<le> firstDay k \<Longrightarrow> monthNo (firstDay k) = k"
  using firstDay_step [of k] by (intro monthNo_eq) auto

lemma twelve_months: "firstDay (k + 12) \<le> firstDay k + 366"
proof -
  have "\<not> (leapYear y \<and> leapYear (y + 1))" for y
    unfolding leapYear_def by presburger
  moreover have "(k + 12) div 12 = k div 12 + 1" "(k + 12) mod 12 = k mod 12" by simp_all
  ultimately show ?thesis
    using month_cases [of k] unfolding firstDay_def by (auto simp: dayFromYear_step of_bool_def)
qed

definition printable :: "int \<Rightarrow> bool" where
  "printable d \<longleftrightarrow> 0 \<le> d \<and> yearOf d < 10000"

lemma yearUp_ge: "y \<le> yearUp y day"
proof (induction y day rule: yearUp.induct)
  case (1 y day)
  then show ?case by (subst yearUp.simps) auto
qed

lemma month_parts:
  assumes "printable d"
  shows "0 \<le> yearOf d" "nat (yearOf d) < 10 ^ 4" "0 \<le> monthOf d" "nat (monthOf d + 1) < 10 ^ 2"
    "0 \<le> d - firstDay (monthNo d)" "nat (d - firstDay (monthNo d) + 1) < 10 ^ 2"
proof -
  have d: "0 \<le> d" using assms by (simp add: printable_def)
  have y: "1970 \<le> yearOf d" unfolding yearOf_def by (rule yearUp_ge)
  have m: "0 \<le> monthOf d" "monthOf d \<le> 11" using monthOf_spec [OF d] by simp_all
  show "0 \<le> yearOf d" "nat (yearOf d) < 10 ^ 4" "0 \<le> monthOf d" "nat (monthOf d + 1) < 10 ^ 2"
    using y m assms by (simp_all add: printable_def nat_less_iff)
  show "0 \<le> d - firstDay (monthNo d)" "nat (d - firstDay (monthNo d) + 1) < 10 ^ 2"
    using monthNo_spec(1,2) [OF d] firstDay_step [of "monthNo d"] by (simp_all add: nat_less_iff)
qed

lemma isoDate_month:
  assumes "printable d" "printable e"
  shows "take 7 (isoDate (d * DAY_MS)) = take 7 (isoDate (e * DAY_MS)) \<longleftrightarrow> monthNo d = monthNo e"
proof
  assume "take 7 (isoDate (d * DAY_MS)) = take 7 (isoDate (e * DAY_MS))"
  then have y: "digits 4 (nat (yearOf d)) = digits 4 (nat (yearOf e))"
    and m: "digits 2 (nat (monthOf d + 1)) = digits 2 (nat (monthOf e + 1))"
    using assms by (simp_all add: isoDate_day printable_def)
  have "nat (yearOf d) = nat (yearOf e)" "nat (monthOf d + 1) = nat (monthOf e + 1)"
    using digits_inj [OF y] digits_inj [OF m] month_parts [OF assms(1)] month_parts [OF assms(2)] by blast+
  then have "yearOf d = yearOf e" "monthOf d = monthOf e"
    using month_parts(1,3) [OF assms(1)] month_parts(1,3) [OF assms(2)] by (simp_all add: eq_nat_nat_iff)
  then show "monthNo d = monthNo e" by (simp add: monthNo_def)
next
  assume "monthNo d = monthNo e"
  then show "take 7 (isoDate (d * DAY_MS)) = take 7 (isoDate (e * DAY_MS))"
    using assms by (simp add: isoMonth_day printable_def)
qed

lemma isoDate_days:
  assumes "printable d" "printable e"
  shows "isoDate (d * DAY_MS) = isoDate (e * DAY_MS) \<longleftrightarrow> d = e"
proof
  assume eq: "isoDate (d * DAY_MS) = isoDate (e * DAY_MS)"
  then have m: "monthNo d = monthNo e" using isoDate_month [OF assms] by simp
  have "digits 2 (nat (d - firstDay (monthNo d) + 1)) = digits 2 (nat (e - firstDay (monthNo e) + 1))"
    using eq assms by (simp add: isoDate_day printable_def)
  then have "nat (d - firstDay (monthNo d) + 1) = nat (e - firstDay (monthNo e) + 1)"
    using digits_inj month_parts(6) [OF assms(1)] month_parts(6) [OF assms(2)] by blast
  then show "d = e"
    using month_parts(5) [OF assms(1)] month_parts(5) [OF assms(2)] m by (simp add: eq_nat_nat_iff)
qed simp

section \<open>What the chart covers\<close>

text \<open>The days of a range, given today.\<close>

definition in_chart :: "chart_range \<Rightarrow> int \<Rightarrow> int \<Rightarrow> bool" where
  "in_chart rg today d \<longleftrightarrow> d \<le> today \<and> (case rg of Days30 \<Rightarrow> today - 29 \<le> d | Months12 \<Rightarrow> monthNo today - 11 \<le> monthNo d)"

text \<open>The times at which every date of the chart lies between the epoch and the year 9999.\<close>

definition chart_time :: "int \<Rightarrow> bool" where
  "chart_time t \<longleftrightarrow> 800 \<le> t div DAY_MS \<and> yearOf (t div DAY_MS) < 10000"

lemma printable_before:
  assumes "chart_time t" "0 \<le> d" "d \<le> t div DAY_MS"
  shows "printable d"
  using monthNo_mono [OF assms(2,3)] monthNo_spec(3) [of d] monthNo_spec(3) [of "t div DAY_MS"] assms
    zdiv_mono1 [of "monthNo d" "monthNo (t div DAY_MS)" 12] by (simp add: printable_def chart_time_def)

lemma first_month:
  assumes "chart_time t"
  defines "today \<equiv> t div DAY_MS"
  shows "0 \<le> firstDay (monthNo today - 11)" "firstDay (monthNo today - 11) \<ge> today - 365"
proof -
  have late: "800 \<le> today" using assms(1) by (simp add: chart_time_def today_def)
  have "monthNo today - 11 + 12 = monthNo today + 1" by simp
  then have "today < firstDay (monthNo today - 11) + 366"
    using twelve_months [of "monthNo today - 11"] monthNo_spec(2) [of today] late by (simp add: add.commute)
  then show "0 \<le> firstDay (monthNo today - 11)" "firstDay (monthNo today - 11) \<ge> today - 365"
    using late by simp_all
qed

lemma month_start:
  assumes "chart_time t" "i < 12"
  defines "today \<equiv> t div DAY_MS"
  shows "0 \<le> firstDay (monthNo today - 11 + int i)" "firstDay (monthNo today - 11 + int i) \<le> today"
proof -
  show "0 \<le> firstDay (monthNo today - 11 + int i)"
    using first_month(1) [OF assms(1)] firstDay_mono [of "monthNo today - 11" "monthNo today - 11 + int i"]
    by (simp add: today_def)
  have "firstDay (monthNo today - 11 + int i) \<le> firstDay (monthNo today)"
    using firstDay_mono [of "monthNo today - 11 + int i" "monthNo today"] assms(2) by simp
  then show "firstDay (monthNo today - 11 + int i) \<le> today"
    using monthNo_spec(1) [of today] assms(1) by (simp add: chart_time_def today_def)
qed

lemma keys30: "chart_keys t Days30 = map (\<lambda>i. isoDate ((t div DAY_MS - 29 + int i) * DAY_MS)) [0..<30]"
  by (simp add: chart_keys_def Let_def algebra_simps)

lemma keys12: "chart_keys t Months12
    = map (\<lambda>i. take 7 (isoDate (firstDay (monthNo (t div DAY_MS) - 11 + int i) * DAY_MS))) [0..<12]"
  using DAY_MS_pos
  by (simp add: chart_keys_def Let_def dateUTC_def makeDay_firstDay getUTCFullYear_def
      getUTCMonth_def monthNo_def algebra_simps)

lemma keys_distinct:
  assumes "chart_time t"
  shows "distinct (chart_keys t rg)"
proof (cases rg)
  case Days30
  have "printable (t div DAY_MS - 29 + int i)" if "i < 30" for i
    using printable_before [OF assms] that assms by (simp add: chart_time_def)
  then have "inj_on (\<lambda>i. isoDate ((t div DAY_MS - 29 + int i) * DAY_MS)) (set [0..<30])"
    by (auto simp: inj_on_def isoDate_days)
  then show ?thesis by (simp add: Days30 keys30 distinct_map)
next
  case Months12
  have m: "printable (firstDay (monthNo (t div DAY_MS) - 11 + int i))"
    "monthNo (firstDay (monthNo (t div DAY_MS) - 11 + int i)) = monthNo (t div DAY_MS) - 11 + int i" if "i < 12" for i
    using printable_before [OF assms] month_start [OF assms that] monthNo_firstDay by simp_all
  then have "inj_on (\<lambda>i. take 7 (isoDate (firstDay (monthNo (t div DAY_MS) - 11 + int i) * DAY_MS))) (set [0..<12])"
    by (auto simp: inj_on_def isoDate_month)
  then show ?thesis by (simp add: Months12 keys12 distinct_map)
qed

lemma day_in_keys:
  assumes "chart_time t" "0 \<le> d" "d \<le> t div DAY_MS"
  shows "isoDate (d * DAY_MS) \<in> set (chart_keys t Days30) \<longleftrightarrow> in_chart Days30 (t div DAY_MS) d"
proof
  let ?t = "t div DAY_MS"
  have p: "printable d" "i < 30 \<Longrightarrow> printable (?t - 29 + int i)" for i
    using printable_before [OF assms(1)] assms by (simp_all add: chart_time_def)
  {
    assume "isoDate (d * DAY_MS) \<in> set (chart_keys t Days30)"
    then obtain i where i: "i < 30" "isoDate (d * DAY_MS) = isoDate ((?t - 29 + int i) * DAY_MS)"
      by (auto simp: keys30)
    then have "d = ?t - 29 + int i" using isoDate_days p by simp
    then show "in_chart Days30 ?t d" using i(1) by (simp add: in_chart_def)
  next
    assume "in_chart Days30 ?t d"
    then have d: "d = ?t - 29 + int (nat (d - (?t - 29)))" "nat (d - (?t - 29)) < 30" by (auto simp: in_chart_def)
    have "i < 30 \<Longrightarrow> isoDate ((?t - 29 + int i) * DAY_MS) \<in> set (chart_keys t Days30)" for i
      by (auto simp: keys30)
    from this [OF d(2)] show "isoDate (d * DAY_MS) \<in> set (chart_keys t Days30)" unfolding d(1) [symmetric] .
  }
qed

lemma month_in_keys:
  assumes "chart_time t" "0 \<le> d" "d \<le> t div DAY_MS"
  shows "take 7 (isoDate (d * DAY_MS)) \<in> set (chart_keys t Months12) \<longleftrightarrow> in_chart Months12 (t div DAY_MS) d"
proof
  let ?t = "t div DAY_MS"
  have p: "printable d" using printable_before [OF assms] .
  have m: "printable (firstDay (monthNo ?t - 11 + int i))"
    "monthNo (firstDay (monthNo ?t - 11 + int i)) = monthNo ?t - 11 + int i" if "i < 12" for i
    using printable_before [OF assms(1)] month_start [OF assms(1) that] monthNo_firstDay by simp_all
  {
    assume "take 7 (isoDate (d * DAY_MS)) \<in> set (chart_keys t Months12)"
    then obtain i where i: "i < 12"
        "take 7 (isoDate (d * DAY_MS)) = take 7 (isoDate (firstDay (monthNo ?t - 11 + int i) * DAY_MS))"
      by (auto simp: keys12)
    then have "monthNo d = monthNo ?t - 11 + int i" using isoDate_month [OF p m(1)] m(2) by simp
    then show "in_chart Months12 ?t d" using assms by (simp add: in_chart_def)
  next
    assume "in_chart Months12 ?t d"
    then have r: "monthNo ?t - 11 \<le> monthNo d" "monthNo d \<le> monthNo ?t"
      using monthNo_mono assms by (simp_all add: in_chart_def)
    define i where "i = nat (monthNo d - (monthNo ?t - 11))"
    have i: "i < 12" "monthNo ?t - 11 + int i = monthNo d" using r by (auto simp: i_def)
    have "take 7 (isoDate (d * DAY_MS)) = take 7 (isoDate (firstDay (monthNo ?t - 11 + int i) * DAY_MS))"
      using isoDate_month [OF p m(1) [OF i(1)]] m(2) [OF i(1)] i(2) by simp
    moreover have "take 7 (isoDate (firstDay (monthNo ?t - 11 + int i) * DAY_MS)) \<in> set (chart_keys t Months12)"
      using i(1) unfolding keys12 by (intro image_eqI [where x = i, THEN subsetD [OF equalityD2 [OF set_map]]]) auto
    ultimately show "take 7 (isoDate (d * DAY_MS)) \<in> set (chart_keys t Months12)" by simp
  }
qed

section \<open>Money takes effect after it is booked\<close>

definition effective_ok :: "db \<Rightarrow> bool" where
  "effective_ok s \<longleftrightarrow> (\<forall>e\<in>set (ledgerEntries s). ctime e \<le> le_effectiveAt e)"

lemma sum_query_desc: "sum_list (map f (query_desc P key t)) = sum_list (map (f :: _ \<Rightarrow> int) (filter P t))"
proof -
  have "mset (map f (query_desc P key t)) = mset (map f (filter P t))" by (simp add: query_desc_def query_asc_def)
  then show ?thesis by (metis sum_mset_sum_list)
qed

lemma filter_query_desc: "filter Q (query_desc P key t) = query_desc (\<lambda>x. P x \<and> Q x) key t"
  by (simp add: query_desc_def query_asc_def filter_sort rev_filter [symmetric] conj_commute)

text \<open>The days a query for the range reports, as numbers, and what they add up to.\<close>

lemma earningsSince_chart:
  fixes rg :: chart_range
  assumes "chart_time (now ctx)"
  defines "since \<equiv> earningsSince ctx (days_asked rg)" and "today \<equiv> now ctx div DAY_MS"
  shows "0 \<le> since" "in_chart rg today (x div DAY_MS) \<Longrightarrow> 0 \<le> x \<Longrightarrow> since \<le> x"
proof -
  have s: "since = (case rg of Days30 \<Rightarrow> today - 29 | Months12 \<Rightarrow> today - 365) * DAY_MS"
    by (cases rg) (simp_all add: since_def today_def earningsSince_def days_asked_def MAX_EARNINGS_DAYS_def Let_def algebra_simps)
  show "0 \<le> since" using assms(1) DAY_MS_pos by (cases rg) (simp_all add: s chart_time_def today_def)
  assume x: "in_chart rg today (x div DAY_MS)" "0 \<le> x"
  have "monthNo today - 11 \<le> monthNo (x div DAY_MS) \<Longrightarrow> today - 365 \<le> x div DAY_MS"
    using first_month(2) [OF assms(1)] firstDay_mono [of "monthNo today - 11" "monthNo (x div DAY_MS)"]
      monthNo_spec(1) [OF day_nonneg [OF x(2)]] by (simp add: today_def)
  then show "since \<le> x" using x(1) by (cases rg) (simp_all add: s day_le_iff in_chart_def)
qed

lemma series_total:
  assumes t: "chart_time t" and k: "\<forall>k\<in>fst ` set xs. 0 \<le> k \<and> k \<le> t div DAY_MS" "distinct (map fst xs)"
  shows "sum_list (map snd (buildSeries t (map (\<lambda>(d, cents). (isoDate (d * DAY_MS), cents)) xs) rg))
    = sum_where (in_chart rg (t div DAY_MS)) xs"
proof (cases rg)
  case Days30
  let ?days = "map (\<lambda>(d, cents). (isoDate (d * DAY_MS), cents)) xs"
  have "inj_on (\<lambda>d. isoDate (d * DAY_MS)) (fst ` set xs)"
    using k(1) printable_before [OF t] isoDate_days by (auto simp: inj_on_def)
  then have "distinct (map fst ?days)"
    using k(2) by (simp add: case_prod_unfold comp_def distinct_map [of "\<lambda>x. isoDate (fst x * DAY_MS)"] distinct_map inj_on_def)
  then have "sum_list (map snd (buildSeries t ?days Days30)) = sum_where (\<lambda>k. k \<in> set (chart_keys t Days30)) (rev ?days)"
    using sum_of_lookups [of "rev ?days" "chart_keys t Days30"] keys_distinct [OF t]
    by (simp add: buildSeries_def day_totals_def comp_def rev_map [symmetric])
  also have "\<dots> = sum_where (\<lambda>k. k \<in> set (chart_keys t Days30)) ?days" by (rule sum_where_perm) simp
  also have "\<dots> = sum_where (in_chart Days30 (t div DAY_MS)) xs"
    using day_in_keys [OF t] k(1) by (simp only: sum_where_map) (rule sum_where_cong, blast)
  finally show ?thesis by (simp add: Days30)
next
  case Months12
  let ?days = "map (\<lambda>(d, cents). (isoDate (d * DAY_MS), cents)) xs"
  have "sum_list (map snd (buildSeries t ?days Months12))
      = sum_where (\<lambda>k. k \<in> set (chart_keys t Months12)) (month_totals ?days)"
    using sum_of_lookups [OF month_totals_distinct keys_distinct [OF t]] by (simp add: buildSeries_def comp_def)
  also have "\<dots> = sum_where (in_chart Months12 (t div DAY_MS)) xs"
    using month_in_keys [OF t] k(1) by (simp only: month_totals_sum sum_where_map) (rule sum_where_cong, blast)
  finally show ?thesis by (simp add: Months12)
qed

lemma card_total:
  assumes t: "chart_time (now ctx)" and u: "requireCreatorId ctx s = Inr u" and ok: "effective_ok s"
    and clock: "\<forall>e\<in>set (ledgerEntries s). 0 \<le> ctime e \<and> ctime e \<le> now ctx"
    and few: "length (ledgerEntries s) \<le> EARNINGS_SCAN_LIMIT"
  shows "\<exists>points. earningsCard ctx rg s = Inr (points, sum_list (map le_amountCents (filter (\<lambda>e. le_creatorId e = u
      \<and> le_currency e = cfg_currency (config (env_of ctx)) \<and> le_kind e \<in> set EARNING_KINDS
      \<and> in_chart rg (now ctx div DAY_MS) (ctime e div DAY_MS)) (ledgerEntries s))))"
proof -
  let ?cur = "cfg_currency (config (env_of ctx))" let ?since = "earningsSince ctx (days_asked rg)"
  let ?P = "\<lambda>e. le_creatorId e = u \<and> le_currency e = ?cur \<and> le_effectiveAt e \<ge> ?since"
  let ?all = "query_desc ?P le_effectiveAt (ledgerEntries s)" let ?xs = "earningsByDay ?since ?all"
  let ?today = "now ctx div DAY_MS"
  have "length ?all \<le> EARNINGS_SCAN_LIMIT"
    using order_trans [OF length_filter_le [of ?P "ledgerEntries s"] few] by (simp add: query_desc_def query_asc_def)
  then have card: "earningsCard ctx rg s = (let series = buildSeries (now ctx)
      (map (\<lambda>(d, cents). (isoDate (d * DAY_MS), cents)) (sort_key fst ?xs)) rg in Inr (series, sum_list (map snd series)))"
    unfolding earningsCard_def payouts_earnings_def u bindE_Inr by (simp add: Let_def)
  have keys: "\<forall>k\<in>fst ` set (sort_key fst ?xs). 0 \<le> k \<and> k \<le> ?today"
    using clock DAY_MS_pos by (auto simp: earningsByDay_keys intro: day_nonneg zdiv_mono1)
  have perm: "mset (map fst (sort_key fst ?xs)) = mset (map fst ?xs)" by simp
  have dist: "distinct (map fst (sort_key fst ?xs))"
    by (simp only: mset_eq_imp_distinct_iff [OF perm] earningsByDay_distinct)
  have "sum_where (in_chart rg ?today) (sort_key fst ?xs) = sum_where (in_chart rg ?today) ?xs"
    by (rule sum_where_perm) simp
  also have "\<dots> = sum_list (map le_amountCents (filter (\<lambda>e. ?P e \<and> le_kind e \<in> set EARNING_KINDS \<and> ?since \<le> ctime e
      \<and> in_chart rg ?today (ctime e div DAY_MS)) (ledgerEntries s)))"
    unfolding earningsByDay_sum filter_query_desc sum_query_desc conj_assoc ..
  also have "\<dots> = sum_list (map le_amountCents (filter (\<lambda>e. le_creatorId e = u \<and> le_currency e = ?cur
      \<and> le_kind e \<in> set EARNING_KINDS \<and> in_chart rg ?today (ctime e div DAY_MS)) (ledgerEntries s)))"
    using earningsSince_chart(2) [OF t] clock ok
    by (intro arg_cong [where f = "\<lambda>x. sum_list (map le_amountCents x)"] filter_cong) (force simp: effective_ok_def)+
  finally show ?thesis
    unfolding card by (simp add: Let_def series_total [OF t keys dist])
qed

lemma effective_post:
  assumes "effective_ok s" "now c \<le> le_effectiveAt e"
  shows "effective_ok (post c e s)"
  using assms by (auto simp: effective_ok_def postEntry_def addToBalance_def insertEntry_def db_insert_def
    split: option.splits)

interpretation effective: ledger_invariant effective_ok h for h
proof unfold_locales
  show "effective_ok empty_db" by (simp add: effective_ok_def empty_db_def)
  show "same_ledger s s' \<Longrightarrow> effective_ok s \<Longrightarrow> effective_ok s'" for s s'
    by (simp add: effective_ok_def same_ledger_def)
  fix s c
  assume ok: "effective_ok s"
  show "effective_ok (reverseForRefund c r s)" for r
    using ok by (auto simp: reverseForRefund_def Let_def intro: effective_post split: option.split)
  show "effective_ok (adjustForDispute c d s)" for d
    using ok by (auto simp: adjustForDispute_def disputeEntry_def Let_def intro!: effective_post split: option.split)
  show "effective_ok (post c (reservationEntry c item) s)" for item
    using ok by (intro effective_post) (simp_all add: reservationEntry_def)
  show "effective_ok (creditEarning c a i (now c) s)" for a i
    using ok by (auto simp: creditEarning_def earningsHoldMs_def HOUR_MS_def intro!: effective_post split: env_num.split)
qed


text \<open>The demo, moved to October 2024.\<close>

definition demo_2024 :: "nat \<Rightarrow> db" where
  "demo_2024 n = fold (\<lambda>(c, r). exec demo_host c r)
     (map (\<lambda>(c, r). (c\<lparr>now := now c + 20000 * DAY_MS\<rparr>, r)) (take n demo_script)) empty_db"

lemma demo_2024_reachable: "reachable demo_host (demo_2024 n)"
  unfolding demo_2024_def
  by (rule reachable_fold [OF reachable.init])
    (auto simp: demo_script_def valid_ctx_def by_user_def dest!: in_set_takeD)


end
