(* ===== verification/Spec2Isabelle.thy ===== *)
theory Spec2Isabelle
  imports Guard_Properties Follow_Safety Webhook_Safety Payout_Calendar Divergences Candidate_Order
    Chart_Properties
begin

text \<open>
  This development models Bling's backend, the Convex functions under \<open>src/frontend/convex/\<close>, and the parts
  of the web client under \<open>src/frontend/src/\<close> that the backend's guarantees rest on or reach: signaling,
  the tier form, the other forms and the figures quoted to creators.  Paths below are relative to
  these two directories.

  \<^bold>\<open>The program.\<close>  A creator starts a live show with call tiers, free or paid; callers join the show's queue,
  for a paid tier with a card hold; the creator picks a caller, which opens a call and captures the
  hold; the two browsers connect by exchanging signals through the database, and the call goes live, ends
  when its time is up, when a party ends it or when one stays away.  A paid call that goes live earns the creator the
  price less Bling's fee; a payment whose call never goes live is refunded; refunds and disputes reported by
  Stripe move the creator's ledger; once a month what is available is paid out.  The functions interact through the
  database only: they read and write shared tables in transactions and schedule one another.

  \<^bold>\<open>How it is modelled.\<close>  The database is the record \<open>db\<close> (theory \<open>Schema\<close>, from \<open>schema.ts\<close>), one
  field per table, each a list of documents in creation order (\<open>Store\<close>, which states the laws of
  \<open>get\<close>, \<open>insert\<close>, \<open>patch\<close> and \<open>delete\<close> as the locale \<open>document_table\<close> and interprets it).  A Convex query is a
  function of the database, a mutation returns \<open>Inl\<close> an error code, when its transaction leaves no trace, or
  \<open>Inr\<close> its result and the new database; an action (\<open>Actions\<close>) threads both, since what it committed stays.
  \<open>ctx\<close> holds what a function reads of its surroundings: the signed-in user, the time, the random number and the
  configuration.  \<open>System\<close> has one constructor of \<open>request\<close> per transaction of the code, \<open>exec\<close> to run it, and
  the inductive predicates \<open>reachable\<close> and \<open>leads_to\<close>: any requests in any order with any arguments.
  This covers every interleaving of clients, scheduled jobs, actions, crons and webhooks, so the safety
  properties do not rest on the scheduler, the provider or the clients behaving well.

  \<^bold>\<open>Components.\<close>
  \<^item> \<open>Prelude\<close>, \<open>Store\<close>, \<open>Schema\<close>, \<open>Auth\<close>: results, JavaScript's string and rounding functions, tables, documents, who calls
    (\<open>schema.ts\<close>, \<open>lib/errors.ts\<close>, \<open>lib/auth.ts\<close>).
  \<^item> \<open>Fees\<close>, \<open>Ledger\<close>, \<open>Payments_Lib\<close>: the fee split (\<open>lib/stripe.ts\<close>), the creator's ledger (\<open>lib/ledger.ts\<close>), what a capture or its
    failure does (\<open>lib/payments.ts\<close>).
  \<^item> \<open>Calls_Lib\<close>, \<open>Calls\<close>, \<open>Presence\<close>, \<open>Signals\<close>, \<open>Rtc\<close>: the state machine of a call, choosing a caller, heartbeats and grace,
    the signaling mailbox, relay servers (\<open>lib/calls.ts\<close>, \<open>calls.ts\<close>, \<open>presence.ts\<close>, \<open>signals.ts\<close>, \<open>rtc.ts\<close>).
  \<^item> \<open>Social_Lib\<close>, \<open>Shows\<close>, \<open>Tiers\<close>, \<open>Queue\<close>: profiles and rate limits, the show, its tiers, its queue (\<open>lib/social.ts\<close>, \<open>shows.ts\<close>,
    \<open>tiers.ts\<close>, \<open>queue.ts\<close>).
  \<^item> \<open>Actions\<close>, \<open>Payment_Methods\<close>, \<open>Payments\<close>, \<open>Refunds\<close>, \<open>Webhooks\<close>, \<open>Payout_Accounts\<close>, \<open>Payouts\<close>, \<open>Dates\<close>: the work with
    Stripe (\<open>paymentMethods.ts\<close>, \<open>payments.ts\<close>, \<open>refunds.ts\<close>, \<open>webhooks.ts\<close>, \<open>payouts.ts\<close>).
  \<^item> \<open>Accounts\<close>, \<open>Reset_Codes\<close>, \<open>Follows\<close>, \<open>Profiles\<close>, \<open>Notifications\<close>: sign-up, password reset, followers, profiles and
    discovery, notifications, alerts and visitors (\<open>auth.ts\<close>, \<open>users.ts\<close>, \<open>callerNotes.ts\<close>, \<open>passwordReset.ts\<close>, \<open>follows.ts\<close>,
    \<open>profiles.ts\<close>, \<open>directory.ts\<close>, \<open>notifications.ts\<close>, \<open>liveAlerts.ts\<close>, \<open>channels.ts\<close>).
  \<^item> \<open>Signal_Socket\<close>, \<open>Call_Manager\<close>, \<open>Tier_Form\<close>, \<open>Forms\<close>, \<open>Earnings_Chart\<close>: the client's signaling socket (\<open>lib/convex/signalSocket.ts\<close>, an object as a
    record with a log of its effects, one function per method and event) and call manager (\<open>lib/webrtc.ts\<close>, likewise, its methods
    cut at their awaits), the studio's tier form
    (\<open>components/studio/format.ts\<close>, \<open>TierConfiguration.tsx\<close>, \<open>lib/site.ts\<close>), the form schemas (\<open>lib/schemas.ts\<close>) and the earnings chart
    (\<open>components/studio/PayoutSettings.tsx\<close>).

  \<^bold>\<open>What is proved.\<close>  \<open>Wellformed\<close> and \<open>Footprint\<close> carry every invariant: the first shows that documents keep
  distinct, issued ids, the second which tables each request writes, so that an invariant is shown
  only for the requests that touch its tables.
  \<^item> \<open>Stage_Safety\<close>, \<open>Call_Lifecycle\<close>, \<open>Stage_Properties\<close>: one live show per creator, one call in progress per show, one call per payment,
    participants connect only to calls that are on air and paid; calls refine an abstract
    lifecycle and payments keep their terms; what \<open>calls.transition\<close> answers on each branch.
  \<^item> \<open>Money_Safety\<close>, \<open>Earnings\<close>, \<open>Money_Properties\<close>: the balance shown is the sum of the ledger, every live paid call earns exactly
    once, only live calls earn, refunds Bling asks for are of calls that never went live, reversals never
    exceed what was earned.  The contracts of the ledger's operations are locales, interpreted there.
  \<^item> \<open>Queue_Safety\<close>, \<open>Queue_Properties\<close>, \<open>Selection\<close>, \<open>Queue_Closing\<close>: one entry per caller, holds are the caller's own, random
    selection from the best tier, closing a queue terminates.
  \<^item> \<open>Retries\<close>, \<open>Payout_Safety\<close>, \<open>Payout_Calendar\<close>, \<open>Webhook_Safety\<close>: leases are exclusive and retries end; payouts take what is available,
    once; one payout run per month; webhook events apply once.
  \<^item> \<open>Follow_Safety\<close>, \<open>Guard_Properties\<close>: followers are counted exactly; rate limits hold; who gets relay servers.
  \<^item> \<open>Signal_Delivery\<close>, \<open>Socket_Properties\<close>, \<open>Signal_Path\<close>: from one browser through the mailbox to the other, complete, in
    order and once.
  \<^item> \<open>Manager_Properties\<close>, \<open>Candidate_Order\<close>: a call that is over holds nothing, the other browser's candidates are added once, in
    order.
  \<^item> \<open>Tier_Form_Properties\<close>, \<open>Form_Properties\<close>: forms and server agree, configurations survive the form, quoted earnings are
    paid, reset codes are uniform.
  \<^item> \<open>Chart_Properties\<close>: the chart shows every cent that the ledger booked over its days.
  \<^item> \<open>Divergences\<close>: runs in which the code does what it should not.
  \<open>Demo\<close> is a run of the whole backend, evaluated in the model, at whose databases the properties are exercised.

  \<^bold>\<open>Bounds.\<close>  No function of the model takes fuel: loops are recursion over lists, and the one search that is not
  structural (the year of a day) has a measure.  Work that reschedules itself is one request per run, and that it
  ends is proved over the runs (\<open>Queue_Closing\<close>, \<open>Retries\<close>).  Amounts are integers and times are integer milliseconds, which is
  exact for every amount and time the bounds admit; inputs that JavaScript holds as doubles are rationals where the
  code checks them (\<open>Tiers\<close>, \<open>Tier_Form\<close>).  The words of the random source that reset codes are drawn from have 32 bits.  The calendar
  covers times from the epoch to the year 9999.

  \<^bold>\<open>Not modelled.\<close>  Convex, Stripe, the auth library, zod and the browser are parameters: the session user, the answers of each Stripe
  request, the signature check, URL parsing, file storage, the e-mail pattern, the hash of relay credentials, the mail service.  E-mail texts
  and the unsubscribe token of \<open>liveAlerts.ts\<close>, the wiring in \<open>crons.ts\<close> and \<open>http.ts\<close>, test support, the React components and hooks, styling, and the
  earlier Go backend are left out: they hold no state of the program beyond what is modelled, or are replaced by it.
\<close>

section \<open>Properties that span components\<close>



end
